(* ===== verification/Api_Prelude.thy ===== *)
theory Api_Prelude
  imports Complex_Main "HOL-Library.Multiset"
begin

text \<open>
  Shared vocabulary of the development: the exceptions a request handler can end with, the
  type of handlers (state passing with an error branch, where the state reached before a throw
  is kept, as nothing in the service layer runs in a transaction), the combinators the handlers
  are written with, and the lemmas by which their results and their state changes are read off.
\<close>

section \<open>Exceptions and handlers\<close>

text \<open>
  The exceptions of \<open>@nestjs/common\<close> the sources throw, with their message; \<open>HttpError\<close> is
  \<open>new HttpException(message, status)\<close>, and \<open>JsError\<close> any other thrown \<open>Error\<close>: a failed
  query, a \<open>TypeError\<close> or a \<open>RangeError\<close>.
\<close>

datatype api_error =
    BadRequest string
  | Unauthorized string
  | Forbidden string
  | NotFound string
  | Conflict string
  | HttpError nat string
  | JsError string

type_synonym 'a result = "api_error + 'a"

type_synonym ('s, 'a) op = "'s \<Rightarrow> 'a result \<times> 's"

definition return_op :: "'a \<Rightarrow> ('s, 'a) op" where
  "return_op x = (\<lambda>s. (Inr x, s))"

definition throw :: "api_error \<Rightarrow> ('s, 'a) op" where
  "throw e = (\<lambda>s. (Inl e, s))"

definition andThen :: "('s, 'a) op \<Rightarrow> ('a \<Rightarrow> ('s, 'b) op) \<Rightarrow> ('s, 'b) op" where
  "andThen m f = (\<lambda>s. case m s of (Inl e, s1) \<Rightarrow> (Inl e, s1) | (Inr x, s1) \<Rightarrow> f x s1)"

definition throw_if :: "bool \<Rightarrow> api_error \<Rightarrow> ('s, unit) op" where
  "throw_if c e = (if c then throw e else return_op ())"

definition lift_result :: "'a result \<Rightarrow> ('s, 'a) op" where
  "lift_result r = (\<lambda>s. (r, s))"

definition bind_result :: "'a result \<Rightarrow> ('a \<Rightarrow> 'b result) \<Rightarrow> 'b result" where
  "bind_result r f = (case r of Inl e \<Rightarrow> Inl e | Inr x \<Rightarrow> f x)"

text \<open>A rejected query surfaces as an \<open>Error\<close> that is not an \<open>HttpException\<close>.\<close>

definition from_db :: "string + 'a \<Rightarrow> 'a result" where
  "from_db r = (case r of Inl m \<Rightarrow> Inl (JsError m) | Inr x \<Rightarrow> Inr x)"

named_theorems op_simps "evaluation of handlers"
named_theorems preserves_intros "what a handler leaves unchanged"

lemma return_op_apply [op_simps]: "return_op x s = (Inr x, s)"
  by (simp add: return_op_def)

lemma throw_apply [op_simps]: "throw e s = (Inl e, s)"
  by (simp add: throw_def)

lemma lift_result_apply [op_simps]: "lift_result r s = (r, s)"
  by (simp add: lift_result_def)

lemma throw_if_apply [op_simps]: "throw_if c e s = (if c then Inl e else Inr (), s)"
  by (simp add: throw_if_def throw_def return_op_def)

lemma andThen_return [op_simps]: "andThen (return_op x) f s = f x s"
  by (simp add: andThen_def return_op_def)

lemma andThen_throw [op_simps]: "andThen (throw e) f s = (Inl e, s)"
  by (simp add: andThen_def throw_def)

lemma andThen_lift [op_simps]:
  "andThen (lift_result r) f s = (case r of Inl e \<Rightarrow> (Inl e, s) | Inr x \<Rightarrow> f x s)"
  by (simp add: andThen_def lift_result_def split: sum.splits)

lemma andThen_throw_if [op_simps]:
  "andThen (throw_if c e) f s = (if c then (Inl e, s) else f () s)"
  by (simp add: throw_if_def op_simps)

lemma andThen_assoc: "andThen (andThen m f) g = andThen m (\<lambda>x. andThen (f x) g)"
  by (rule ext) (simp add: andThen_def split: prod.splits sum.splits)

lemma andThen_Inr [op_simps]: "m s = (Inr x, s1) \<Longrightarrow> andThen m f s = f x s1"
  by (simp add: andThen_def)

lemma andThen_Inl [op_simps]: "m s = (Inl e, s1) \<Longrightarrow> andThen m f s = (Inl e, s1)"
  by (simp add: andThen_def)

text \<open>How a sequence of two handlers can have ended, successfully or not.\<close>

lemma andThen_InrE:
  assumes "andThen m f s = (Inr y, s')"
  obtains x s1 where "m s = (Inr x, s1)" and "f x s1 = (Inr y, s')"
  using assms by (auto simp: andThen_def split: prod.splits sum.splits)

lemma andThen_InlE:
  assumes "andThen m f s = (Inl e, s')"
  obtains "m s = (Inl e, s')" | x s1 where "m s = (Inr x, s1)" and "f x s1 = (Inl e, s')"
  using assms by (auto simp: andThen_def split: prod.splits sum.splits)

lemma from_db_simps [simp]: "from_db (Inl m) = Inl (JsError m)" "from_db (Inr x) = Inr x"
  by (simp_all add: from_db_def)

lemma from_db_Inr_iff [simp]: "from_db r = Inr x \<longleftrightarrow> r = Inr x"
  by (cases r) simp_all

lemma bind_result_simps [simp]:
  "bind_result (Inl e) f = Inl e" "bind_result (Inr x) f = f x"
  by (simp_all add: bind_result_def)

lemma bind_result_Inr_iff:
  "bind_result r f = Inr y \<longleftrightarrow> (\<exists>x. r = Inr x \<and> f x = Inr y)"
  by (cases r) simp_all

section \<open>What a handler keeps\<close>

text \<open>
  \<open>preserves I m\<close>: the handler keeps the predicate \<open>I\<close> of the state, whether it returns or
  throws. One rule per combinator, so that a handler's proof needs only its own steps.
\<close>

definition preserves :: "('s \<Rightarrow> bool) \<Rightarrow> ('s, 'a) op \<Rightarrow> bool" where
  "preserves I m \<longleftrightarrow> (\<forall>s. I s \<longrightarrow> I (snd (m s)))"

lemma preservesI: "(\<And>s r s'. I s \<Longrightarrow> m s = (r, s') \<Longrightarrow> I s') \<Longrightarrow> preserves I m"
  by (simp add: preserves_def) (metis prod.collapse)

lemma preservesD: "preserves I m \<Longrightarrow> m s = (r, s') \<Longrightarrow> I s \<Longrightarrow> I s'"
  by (metis preserves_def snd_conv)

lemma preserves_return [preserves_intros]: "preserves I (return_op x)"
  by (simp add: preserves_def return_op_def)

lemma preserves_throw [preserves_intros]: "preserves I (throw e)"
  by (simp add: preserves_def throw_def)

lemma preserves_throw_if [preserves_intros]: "preserves I (throw_if c e)"
  by (simp add: preserves_def throw_if_apply)

lemma preserves_lift [preserves_intros]: "preserves I (lift_result r)"
  by (simp add: preserves_def lift_result_def)

lemma preserves_andThen [preserves_intros]:
  assumes m: "preserves I m" and f: "\<And>x. preserves I (f x)"
  shows "preserves I (andThen m f)"
proof (rule preservesI)
  fix s r s'
  assume s: "I s" and run: "andThen m f s = (r, s')"
  obtain r1 s1 where m1: "m s = (r1, s1)" by (cases "m s")
  have "I s1" using m m1 s by (rule preservesD)
  then show "I s'"
    using run m1 preservesD [OF f] by (cases r1) (auto simp: andThen_def)
qed

lemma preserves_if [preserves_intros]:
  "(c \<Longrightarrow> preserves I m) \<Longrightarrow> (\<not> c \<Longrightarrow> preserves I n) \<Longrightarrow> preserves I (if c then m else n)"
  by simp

lemma preserves_case_option [preserves_intros]:
  "preserves I m \<Longrightarrow> (\<And>x. preserves I (f x)) \<Longrightarrow> preserves I (case v of None \<Rightarrow> m | Some x \<Rightarrow> f x)"
  by (cases v) simp_all

text \<open>
  \<open>advances R m\<close>: the state after the handler is related to the state before it, whether the
  handler returns or throws, for a relation that is reflexive and transitive.
\<close>

definition advances :: "('s \<Rightarrow> 's \<Rightarrow> bool) \<Rightarrow> ('s, 'a) op \<Rightarrow> bool" where
  "advances R m \<longleftrightarrow> (\<forall>s. R s (snd (m s)))"

definition preorder_rel :: "('s \<Rightarrow> 's \<Rightarrow> bool) \<Rightarrow> bool" where
  "preorder_rel R \<longleftrightarrow> reflp R \<and> transp R"

named_theorems advances_intros "how a handler advances the state"

lemma advancesI: "(\<And>s r s'. m s = (r, s') \<Longrightarrow> R s s') \<Longrightarrow> advances R m"
  by (simp add: advances_def) (metis prod.collapse)

lemma advancesD: "advances R m \<Longrightarrow> m s = (r, s') \<Longrightarrow> R s s'"
  by (metis advances_def snd_conv)

lemma advances_same [advances_intros]:
  "preorder_rel R \<Longrightarrow> advances R (return_op x)"
  "preorder_rel R \<Longrightarrow> advances R (throw e)"
  "preorder_rel R \<Longrightarrow> advances R (throw_if c e)"
  "preorder_rel R \<Longrightarrow> advances R (lift_result r)"
  by (simp_all add: advances_def preorder_rel_def reflp_def op_simps)

lemma advances_andThen [advances_intros]:
  assumes R: "preorder_rel R" and m: "advances R m" and f: "\<And>x. advances R (f x)"
  shows "advances R (andThen m f)"
proof (rule advancesI)
  fix s r s'
  assume run: "andThen m f s = (r, s')"
  obtain r1 s1 where m1: "m s = (r1, s1)" by (cases "m s")
  have "R s s1" using m m1 by (rule advancesD)
  moreover have "R s1 s' \<or> s' = s1"
    using run m1 advancesD [OF f] by (cases r1) (auto simp: andThen_def)
  ultimately show "R s s'" using R by (auto simp: preorder_rel_def dest: transpD)
qed

lemma advances_lift_then:
  assumes "preorder_rel R" and "\<And>x. r = Inr x \<Longrightarrow> advances R (f x)"
  shows "advances R (andThen (lift_result r) f)"
  using assms by (cases r) (simp_all add: advances_def preorder_rel_def reflp_def op_simps)

lemma advances_case_option [advances_intros]:
  "advances R m \<Longrightarrow> (\<And>x. advances R (f x)) \<Longrightarrow> advances R (case v of None \<Rightarrow> m | Some x \<Rightarrow> f x)"
  by (cases v) simp_all

lemma advances_case_prod [advances_intros]:
  "(\<And>x y. advances R (f x y)) \<Longrightarrow> advances R (case v of (x, y) \<Rightarrow> f x y)"
  by (cases v) simp

lemma advances_if [advances_intros]:
  "advances R m \<Longrightarrow> advances R n \<Longrightarrow> advances R (if c then m else n)"
  by simp

section \<open>Caches of results\<close>

text \<open>
  What a handler relies on in a cache of results: a written value is read back, in its stored form,
  until its time to live is over and not after, and writing one key leaves the others.
\<close>

locale result_cache =
  fixes rd :: "int \<Rightarrow> string \<Rightarrow> ('s, 'v option) op"
    and wr :: "int \<Rightarrow> string \<Rightarrow> 'v \<Rightarrow> ('s, unit) op"
    and stored :: "'v \<Rightarrow> 'v"
    and ttl :: int
  assumes write_succeeds: "\<exists>s1. wr t k v s = (Inr (), s1)"
    and hit: "wr t k v s = (Inr (), s1) \<Longrightarrow> t' < t + ttl \<Longrightarrow> rd t' k s1 = (Inr (Some (stored v)), s1)"
    and expired: "wr t k v s = (Inr (), s1) \<Longrightarrow> t + ttl \<le> t' \<Longrightarrow> fst (rd t' k s1) = Inr None"
    and other_key: "wr t k v s = (Inr (), s1) \<Longrightarrow> k' \<noteq> k \<Longrightarrow> fst (rd t' k' s1) = fst (rd t' k' s)"
begin

text \<open>A handler that asks the cache first does nothing else while the written value lives.\<close>

lemma hit_skips:
  assumes "wr t k v s = (Inr (), s1)" and "t' < t + ttl"
  shows "andThen (rd t' k) (\<lambda>c. case c of Some x \<Rightarrow> return_op x | None \<Rightarrow> m) s1 = (Inr (stored v), s1)"
  using hit [OF assms] by (simp add: op_simps)

lemma last_write_wins:
  assumes "wr t k v s = (Inr (), s1)" and "wr u k w s1 = (Inr (), s2)" and "t' < u + ttl"
  shows "rd t' k s2 = (Inr (Some (stored w)), s2)"
  using hit [OF assms(2,3)] .

end

section \<open>Optional strings in conditions\<close>

text \<open>
  JavaScript's \<open>x || d\<close> and \<open>if (x)\<close> on a property that is a string or absent: the empty
  string counts as absent.
\<close>

definition truthy :: "string option \<Rightarrow> bool" where
  "truthy x \<longleftrightarrow> x \<noteq> None \<and> x \<noteq> Some ''''"

definition str_or :: "string option \<Rightarrow> string \<Rightarrow> string" where
  "str_or x d = (case x of None \<Rightarrow> d | Some s \<Rightarrow> if s = '''' then d else s)"

definition or_null :: "string option \<Rightarrow> string option" where
  "or_null x = (if truthy x then x else None)"

lemma truthy_simps [simp]: "\<not> truthy None" "truthy (Some s) \<longleftrightarrow> s \<noteq> ''''"
  by (simp_all add: truthy_def)

lemma truthyE: "truthy x \<Longrightarrow> (\<And>s. x = Some s \<Longrightarrow> s \<noteq> '''' \<Longrightarrow> P) \<Longrightarrow> P"
  by (cases x) (auto simp: truthy_def)

lemma str_or_simps [simp]:
  "str_or None d = d" "str_or (Some '''') d = d" "s \<noteq> '''' \<Longrightarrow> str_or (Some s) d = s"
  by (simp_all add: str_or_def)

lemma or_null_simps [simp]:
  "or_null None = None" "or_null (Some '''') = None" "s \<noteq> '''' \<Longrightarrow> or_null (Some s) = Some s"
  by (simp_all add: or_null_def)

lemma or_null_not_empty: "or_null x = Some s \<Longrightarrow> s \<noteq> ''''"
  by (auto simp: or_null_def split: if_splits)

section \<open>Lists and multisets\<close>

lemma filter_eq_singleton_of_distinct:
  assumes "distinct (map f xs)" and "x \<in> set xs"
  shows "filter (\<lambda>y. f y = f x) xs = [x]"
  using assms
proof (induction xs)
  case Nil
  then show ?case by simp
next
  case (Cons y ys)
  show ?case
  proof (cases "y = x")
    case True
    with Cons.prems(1) have "\<forall>z\<in>set ys. f z \<noteq> f x" by auto (metis imageI)
    then show ?thesis using True by (simp add: filter_empty_conv)
  next
    case False
    with Cons.prems have "x \<in> set ys" and "f y \<noteq> f x" by auto
    with Cons show ?thesis by simp
  qed
qed

lemma size_filter_mset_length: "size (filter_mset P (mset xs)) = length (filter P xs)"
  by (metis mset_filter size_mset)

lemma filter_image_mset_same:
  "(\<And>x. P (f x) \<longleftrightarrow> P x) \<Longrightarrow> (\<And>x. P x \<Longrightarrow> f x = x) \<Longrightarrow>
   filter_mset P (image_mset f M) = filter_mset P M"
  by (induction M) auto

lemma find_Some_iff_first: "List.find P xs = Some x \<Longrightarrow> x \<in> set xs \<and> P x"
  by (induction xs) (auto split: if_splits)

lemma find_None_all: "List.find P xs = None \<longleftrightarrow> (\<forall>x\<in>set xs. \<not> P x)"
  by (induction xs) auto

lemma replaced_row:
  assumes "mset ys = add_mset b (mset xs - {#a#})"
  shows "b \<in> set ys" and "v \<in> set xs \<Longrightarrow> v \<noteq> a \<Longrightarrow> v \<in> set ys"
proof -
  show "b \<in> set ys" using assms by (metis set_mset_mset union_single_eq_member)
  assume "v \<in> set xs" "v \<noteq> a"
  then have "0 < count (mset ys) v" unfolding assms by (simp add: count_greater_zero_iff)
  then show "v \<in> set ys" by simp
qed

lemma map_upd_by_key_mset:
  assumes "distinct (map k xs)" and "x \<in> set xs"
  shows "mset (map (\<lambda>y. if k y = k x then f y else y) xs) = add_mset (f x) (mset xs - {#x#})"
  using assms
proof (induction xs)
  case Nil
  then show ?case by simp
next
  case (Cons y ys)
  show ?case
  proof (cases "y = x")
    case True
    with Cons.prems(1) have "\<forall>z\<in>set ys. k z \<noteq> k x" by auto (metis imageI)
    then have "map (\<lambda>y. if k y = k x then f y else y) ys = ys"
      by (simp add: map_idI)
    with True show ?thesis by simp
  next
    case False
    with Cons.prems have x: "x \<in> set ys" and "k y \<noteq> k x" by auto
    with Cons False show ?thesis
      by (simp add: add_mset_commute diff_add_mset_swap)
  qed
qed

end
