(* ===== verification/Js_Values.thy ===== *)
theory Js_Values
  imports Api_Prelude
begin

text \<open>
  The JavaScript the sources rely on: numbers with their special values, the string methods,
  the number and integer parsers, and values of type \<open>unknown\<close>.

  A finite number is the rational it stands for: rounding to binary64 and the sign of zero are
  left out, overflow to infinity is kept. Strings are character lists; the case conversions are
  those of ASCII.
\<close>

section \<open>Numbers\<close>

datatype jsnum = NaN | PosInf | NegInf | Fin rat

fun is_finite :: "jsnum \<Rightarrow> bool" where
  "is_finite (Fin _) = True"
| "is_finite _ = False"

fun js_lt :: "jsnum \<Rightarrow> jsnum \<Rightarrow> bool" where
  "js_lt (Fin a) (Fin b) = (a < b)"
| "js_lt (Fin _) PosInf = True"
| "js_lt NegInf (Fin _) = True"
| "js_lt NegInf PosInf = True"
| "js_lt _ _ = False"

text \<open>Strict equality: \<open>NaN\<close> is equal to nothing.\<close>

definition js_eq :: "jsnum \<Rightarrow> jsnum \<Rightarrow> bool" where
  "js_eq a b \<longleftrightarrow> a \<noteq> NaN \<and> a = b"

definition js_le :: "jsnum \<Rightarrow> jsnum \<Rightarrow> bool" where
  "js_le a b \<longleftrightarrow> js_lt a b \<or> js_eq a b"

text \<open>The truth value of a number, as in \<open>n || d\<close>: zero and \<open>NaN\<close> are false.\<close>

definition num_truthy :: "jsnum \<Rightarrow> bool" where
  "num_truthy n \<longleftrightarrow> n \<noteq> NaN \<and> n \<noteq> Fin 0"

definition num_or :: "jsnum option \<Rightarrow> jsnum \<Rightarrow> jsnum" where
  "num_or n d = (case n of None \<Rightarrow> d | Some v \<Rightarrow> if num_truthy v then v else d)"

text \<open>Binary64 overflows to infinity from half a unit above its largest value.\<close>

definition overflow_bound :: rat where
  "overflow_bound = 2 ^ 1024 - 2 ^ 970"

definition to_number :: "rat \<Rightarrow> jsnum" where
  "to_number r = (if r \<ge> overflow_bound then PosInf else if r \<le> - overflow_bound then NegInf else Fin r)"

definition inf_of_sign :: "rat \<Rightarrow> jsnum" where
  "inf_of_sign r = (if r > 0 then PosInf else if r < 0 then NegInf else NaN)"

fun js_sub :: "jsnum \<Rightarrow> jsnum \<Rightarrow> jsnum" where
  "js_sub (Fin a) (Fin b) = to_number (a - b)"
| "js_sub NaN _ = NaN"
| "js_sub _ NaN = NaN"
| "js_sub PosInf PosInf = NaN"
| "js_sub NegInf NegInf = NaN"
| "js_sub PosInf _ = PosInf"
| "js_sub NegInf _ = NegInf"
| "js_sub (Fin _) PosInf = NegInf"
| "js_sub (Fin _) NegInf = PosInf"

fun js_mul :: "jsnum \<Rightarrow> jsnum \<Rightarrow> jsnum" where
  "js_mul (Fin a) (Fin b) = to_number (a * b)"
| "js_mul NaN _ = NaN"
| "js_mul _ NaN = NaN"
| "js_mul PosInf (Fin b) = inf_of_sign b"
| "js_mul (Fin a) PosInf = inf_of_sign a"
| "js_mul NegInf (Fin b) = inf_of_sign (- b)"
| "js_mul (Fin a) NegInf = inf_of_sign (- a)"
| "js_mul PosInf PosInf = PosInf"
| "js_mul NegInf NegInf = PosInf"
| "js_mul PosInf NegInf = NegInf"
| "js_mul NegInf PosInf = NegInf"

text \<open>Division; the zero a finite number is divided by counts as positive.\<close>

fun js_div :: "jsnum \<Rightarrow> jsnum \<Rightarrow> jsnum" where
  "js_div (Fin a) (Fin b) = (if b = 0 then inf_of_sign a else to_number (a / b))"
| "js_div NaN _ = NaN"
| "js_div _ NaN = NaN"
| "js_div (Fin _) _ = Fin 0"
| "js_div PosInf (Fin b) = (if b < 0 then NegInf else PosInf)"
| "js_div NegInf (Fin b) = (if b < 0 then PosInf else NegInf)"
| "js_div _ _ = NaN"

fun js_ceil :: "jsnum \<Rightarrow> jsnum" where
  "js_ceil (Fin a) = Fin (of_int \<lceil>a\<rceil>)"
| "js_ceil n = n"

fun js_floor :: "jsnum \<Rightarrow> jsnum" where
  "js_floor (Fin a) = Fin (of_int \<lfloor>a\<rfloor>)"
| "js_floor n = n"

lemma js_le_Fin [simp]: "js_le (Fin a) (Fin b) \<longleftrightarrow> a \<le> b"
  by (auto simp: js_le_def js_eq_def)

lemma js_eq_Fin [simp]: "js_eq (Fin a) (Fin b) \<longleftrightarrow> a = b"
  by (simp add: js_eq_def)

lemma js_lt_NaN [simp]: "\<not> js_lt NaN b" "\<not> js_lt a NaN"
  by (simp, cases a) simp_all

lemma js_eq_NaN [simp]: "\<not> js_eq NaN b" "\<not> js_eq a NaN"
  by (auto simp: js_eq_def)

lemma num_truthy_simps [simp]:
  "\<not> num_truthy NaN" "num_truthy PosInf" "num_truthy NegInf" "num_truthy (Fin r) \<longleftrightarrow> r \<noteq> 0"
  by (simp_all add: num_truthy_def)

lemma num_or_simps [simp]:
  "num_or None d = d" "num_or (Some n) d = (if num_truthy n then n else d)"
  by (simp_all add: num_or_def)

lemma js_lt_FinE:
  assumes "js_lt n (Fin b)"
  obtains "n = NegInf" | a where "n = Fin a" and "a < b"
  using assms by (cases n) auto

lemma not_js_lt_Fin_cases:
  assumes "\<not> js_lt n (Fin b)"
  obtains "n = NaN" | "n = PosInf" | a where "n = Fin a" and "b \<le> a"
  using assms by (cases n) auto

lemma overflow_bound_big: "10 ^ 30 \<le> overflow_bound"
  by (simp add: overflow_bound_def)

lemma to_number_small: "\<bar>r\<bar> \<le> 10 ^ 30 \<Longrightarrow> to_number r = Fin r"
proof -
  assume small: "\<bar>r\<bar> \<le> 10 ^ 30"
  have "(10::rat) ^ 30 < overflow_bound" by (simp add: overflow_bound_def)
  with small have "r < overflow_bound" and "- overflow_bound < r" by auto
  then show ?thesis by (simp add: to_number_def)
qed

section \<open>Characters and string methods\<close>

definition char_code :: "char \<Rightarrow> nat" where
  "char_code c = of_char c"

definition is_digit :: "char \<Rightarrow> bool" where
  "is_digit c \<longleftrightarrow> 48 \<le> char_code c \<and> char_code c \<le> 57"

definition digit_value :: "char \<Rightarrow> nat" where
  "digit_value c = char_code c - 48"

text \<open>White space and line terminators, as \<open>String.prototype.trim\<close> removes them.\<close>

definition is_space :: "char \<Rightarrow> bool" where
  "is_space c \<longleftrightarrow> char_code c \<in> {9, 10, 11, 12, 13, 32, 160}"

definition trim_start :: "string \<Rightarrow> string" where
  "trim_start s = dropWhile is_space s"

definition trim_end :: "string \<Rightarrow> string" where
  "trim_end s = rev (dropWhile is_space (rev s))"

definition trim :: "string \<Rightarrow> string" where
  "trim s = trim_end (trim_start s)"

definition to_upper_char :: "char \<Rightarrow> char" where
  "to_upper_char c = (if 97 \<le> char_code c \<and> char_code c \<le> 122 then char_of (char_code c - 32) else c)"

definition to_lower_char :: "char \<Rightarrow> char" where
  "to_lower_char c = (if 65 \<le> char_code c \<and> char_code c \<le> 90 then char_of (char_code c + 32) else c)"

definition toUpperCase :: "string \<Rightarrow> string" where
  "toUpperCase s = map to_upper_char s"

definition toLowerCase :: "string \<Rightarrow> string" where
  "toLowerCase s = map to_lower_char s"

definition startsWith :: "string \<Rightarrow> string \<Rightarrow> bool" where
  "startsWith s p \<longleftrightarrow> take (length p) s = p"

text \<open>\<open>s.slice(-n)\<close>: the last \<open>n\<close> characters.\<close>

definition slice_last :: "nat \<Rightarrow> string \<Rightarrow> string" where
  "slice_last n s = drop (length s - n) s"

lemma trim_empty [simp]: "trim '''' = ''''"
  by (simp add: trim_def trim_start_def trim_end_def)

lemma dropWhile_trim_end: "dropWhile is_space (trim_end s) = trim_end (dropWhile is_space s)"
proof (cases "\<exists>c\<in>set s. \<not> is_space c")
  case False
  then have all: "\<forall>c\<in>set s. is_space c" by simp
  then have 1: "dropWhile is_space s = []" by (simp add: dropWhile_eq_Nil_conv)
  from all have 2: "trim_end s = []" by (simp add: trim_end_def dropWhile_eq_Nil_conv)
  show ?thesis by (simp only: 1 2) (simp add: trim_end_def)
next
  case True
  then show ?thesis
  proof (induction s)
    case Nil
    then show ?case by simp
  next
    case (Cons c s)
    show ?case
    proof (cases "is_space c")
      case False
      have "dropWhile is_space (rev s @ [c]) = dropWhile is_space (rev s) @ [c]"
        using False by (simp add: dropWhile_append)
      with False show ?thesis by (simp add: trim_end_def)
    next
      case space: True
      with Cons.prems have ex: "\<exists>c\<in>set s. \<not> is_space c" by auto
      then obtain d where d: "d \<in> set s" "\<not> is_space d" by blast
      then have "dropWhile is_space (rev s @ [c]) = dropWhile is_space (rev s) @ [c]"
        by (subst dropWhile_append1 [of d]) simp_all
      then have "trim_end (c # s) = c # trim_end s" by (simp add: trim_end_def)
      with Cons.IH [OF ex] space show ?thesis by simp
    qed
  qed
qed

lemma dropWhile_idem [simp]: "dropWhile P (dropWhile P xs) = dropWhile P xs"
  by (induction xs) auto

lemma trim_end_idem [simp]: "trim_end (trim_end s) = trim_end s"
  by (simp add: trim_end_def)

lemma trim_idem [simp]: "trim (trim s) = trim s"
  by (simp add: trim_def trim_start_def dropWhile_trim_end)

lemma set_trim: "set (trim s) \<subseteq> set s"
  by (auto simp: trim_def trim_end_def trim_start_def dest!: set_dropWhileD)

lemma length_toUpperCase [simp]: "length (toUpperCase s) = length s"
  by (simp add: toUpperCase_def)

lemma to_upper_char_idem [simp]: "to_upper_char (to_upper_char c) = to_upper_char c"
proof (cases "97 \<le> char_code c \<and> char_code c \<le> 122")
  case True
  then have "char_code c - 32 < 256" by linarith
  then have "(char_code c - 32) mod 256 = char_code c - 32" by (rule mod_less)
  then have "char_code (char_of (char_code c - 32)) = char_code c - 32"
    by (simp add: char_code_def)
  with True show ?thesis by (auto simp: to_upper_char_def)
next
  case False
  then have "to_upper_char c = c" by (auto simp: to_upper_char_def)
  then show ?thesis by metis
qed

lemma toUpperCase_idem [simp]: "toUpperCase (toUpperCase s) = toUpperCase s"
  by (simp add: toUpperCase_def)

section \<open>Printing and reading natural numbers\<close>

fun show_nat :: "nat \<Rightarrow> string" where
  "show_nat n = (if n < 10 then [char_of (48 + n)] else show_nat (n div 10) @ [char_of (48 + n mod 10)])"

declare show_nat.simps [simp del]

definition show_int :: "int \<Rightarrow> string" where
  "show_int i = (if i < 0 then ''-'' @ show_nat (nat (- i)) else show_nat (nat i))"

definition digits_value :: "string \<Rightarrow> nat" where
  "digits_value s = foldl (\<lambda>n c. 10 * n + digit_value c) 0 s"

lemma digit_char [simp]:
  assumes "d < 10"
  shows "is_digit (char_of (48 + d))" and "digit_value (char_of (48 + d)) = d"
proof -
  have "(48 + d) mod 256 = 48 + d" using assms by simp
  then have "char_code (char_of (48 + d)) = 48 + d"
    by (simp add: char_code_def)
  with assms show "is_digit (char_of (48 + d))" and "digit_value (char_of (48 + d)) = d"
    by (simp_all add: is_digit_def digit_value_def)
qed

lemma digits_value_snoc [simp]: "digits_value (s @ [c]) = 10 * digits_value s + digit_value c"
  by (simp add: digits_value_def)

lemma digits_value_Nil [simp]: "digits_value '''' = 0"
  by (simp add: digits_value_def)

lemma show_nat_digits: "\<forall>c\<in>set (show_nat n). is_digit c"
proof (induction n rule: show_nat.induct)
  case (1 n)
  show ?case
  proof (cases "n < 10")
    case True
    then show ?thesis by (subst show_nat.simps) simp
  next
    case False
    with "1.IH" have "\<forall>c\<in>set (show_nat (n div 10)). is_digit c" by simp
    with False show ?thesis by (subst show_nat.simps) simp
  qed
qed

lemma show_nat_not_empty [simp]: "show_nat n \<noteq> ''''"
  by (subst show_nat.simps) simp

lemma digits_value_show_nat [simp]: "digits_value (show_nat n) = n"
proof (induction n rule: show_nat.induct)
  case (1 n)
  show ?case
  proof (cases "n < 10")
    case True
    then show ?thesis
      by (subst show_nat.simps) (simp add: digits_value_def)
  next
    case False
    with "1.IH" have "digits_value (show_nat (n div 10)) = n div 10" by simp
    with False show ?thesis by (subst show_nat.simps) simp
  qed
qed

section \<open>The number parsers\<close>

text \<open>
  The longest prefix of a string that is a decimal literal without its sign, with its value:
  digits with an optional fraction, or a fraction alone, then an optional exponent.
\<close>

definition scan_exponent :: "string \<Rightarrow> int \<times> string" where
  "scan_exponent s =
     (case s of
        e # r \<Rightarrow>
          if e = CHR ''e'' \<or> e = CHR ''E'' then
            (let (sg, r1) = (case r of
                   c # t \<Rightarrow> if c = CHR ''+'' then (1, t) else if c = CHR ''-'' then (-1, t) else (1, r)
                 | [] \<Rightarrow> (1, r));
                 ds = takeWhile is_digit r1
             in if ds = '''' then (0, s) else (sg * int (digits_value ds), dropWhile is_digit r1))
          else (0, s)
      | [] \<Rightarrow> (0, s))"

definition pow10 :: "int \<Rightarrow> rat" where
  "pow10 e = (if 0 \<le> e then 10 ^ nat e else 1 / 10 ^ nat (- e))"

definition scan_unsigned :: "string \<Rightarrow> (rat \<times> string) option" where
  "scan_unsigned s =
     (let ip = takeWhile is_digit s; r1 = dropWhile is_digit s;
          (fp, r2) = (case r1 of
              c # t \<Rightarrow> if c = CHR ''.'' \<and> (ip \<noteq> '''' \<or> takeWhile is_digit t \<noteq> '''')
                       then (takeWhile is_digit t, dropWhile is_digit t) else ('''', r1)
            | [] \<Rightarrow> ('''', r1))
      in if ip = '''' \<and> fp = '''' then None
         else (let (e, r3) = scan_exponent r2
               in Some (of_nat (digits_value (ip @ fp)) / 10 ^ length fp * pow10 e, r3)))"

definition scan_sign :: "string \<Rightarrow> rat \<times> string" where
  "scan_sign s = (case s of
      c # t \<Rightarrow> if c = CHR ''-'' then (-1, t) else if c = CHR ''+'' then (1, t) else (1, s)
    | [] \<Rightarrow> (1, s))"

definition scan_decimal :: "string \<Rightarrow> (jsnum \<times> string) option" where
  "scan_decimal s =
     (let (sg, t) = scan_sign s
      in if startsWith t ''Infinity'' then Some (if sg < 0 then NegInf else PosInf, drop 8 t)
         else map_option (\<lambda>(v, r). (to_number (sg * v), r)) (scan_unsigned t))"

definition parseFloat :: "string \<Rightarrow> jsnum" where
  "parseFloat s = (case scan_decimal (trim_start s) of None \<Rightarrow> NaN | Some (v, _) \<Rightarrow> v)"

text \<open>\<open>Number(s)\<close>; hexadecimal, octal and binary literals have a prefix of their own.\<close>

definition radix_digit :: "nat \<Rightarrow> char \<Rightarrow> nat option" where
  "radix_digit b c =
     (let l = char_code (to_lower_char c);
          d = (if is_digit c then l - 48 else if 97 \<le> l \<and> l \<le> 122 then l - 87 else b)
      in if d < b then Some d else None)"

fun radix_value :: "nat \<Rightarrow> nat \<Rightarrow> string \<Rightarrow> nat option" where
  "radix_value b acc [] = Some acc"
| "radix_value b acc (c # cs) =
     (case radix_digit b c of None \<Rightarrow> None | Some d \<Rightarrow> radix_value b (b * acc + d) cs)"

definition radix_prefix :: "string \<Rightarrow> nat option" where
  "radix_prefix s =
     (let p = toLowerCase (take 2 s)
      in if p = ''0x'' then Some 16 else if p = ''0o'' then Some 8 else if p = ''0b'' then Some 2
         else None)"

definition js_Number :: "string \<Rightarrow> jsnum" where
  "js_Number s =
     (let t = trim s
      in if t = '''' then Fin 0
         else case radix_prefix t of
             Some b \<Rightarrow> (if drop 2 t = '''' then NaN
                         else case radix_value b 0 (drop 2 t) of
                             None \<Rightarrow> NaN | Some n \<Rightarrow> to_number (of_nat n))
           | None \<Rightarrow> (case scan_decimal t of Some (v, '''') \<Rightarrow> v | _ \<Rightarrow> NaN))"

text \<open>\<open>parseInt(s, 10)\<close>.\<close>

definition parseInt :: "string \<Rightarrow> jsnum" where
  "parseInt s =
     (let (sg, t) = scan_sign (trim_start s); ds = takeWhile is_digit t
      in if ds = '''' then NaN else to_number (sg * of_nat (digits_value ds)))"

lemma char_code_of_digit: "is_digit c \<Longrightarrow> \<not> is_space c"
  by (auto simp: is_digit_def is_space_def)

lemma scan_sign_digits: "\<forall>c\<in>set ds. is_digit c \<Longrightarrow> scan_sign ds = (1, ds)"
  by (cases ds) (auto simp: scan_sign_def is_digit_def char_code_def)

lemma trim_start_digits: "\<forall>c\<in>set ds. is_digit c \<Longrightarrow> trim_start ds = ds"
  by (cases ds) (auto simp: trim_start_def char_code_of_digit)

text \<open>Reading back a printed number.\<close>

lemma parseInt_show_nat: "n \<le> 10 ^ 30 \<Longrightarrow> parseInt (show_nat n) = Fin (of_nat n)"
proof -
  assume n: "n \<le> 10 ^ 30"
  have ds: "\<forall>c\<in>set (show_nat n). is_digit c" by (rule show_nat_digits)
  then have tw: "takeWhile is_digit (show_nat n) = show_nat n" by simp
  have "to_number (of_nat n) = Fin (of_nat n)"
  proof (rule to_number_small)
    have "of_nat n \<le> (of_nat (10 ^ 30) :: rat)" using n by (simp only: of_nat_le_iff)
    then show "\<bar>of_nat n :: rat\<bar> \<le> 10 ^ 30" by simp
  qed
  then show ?thesis
    by (simp add: parseInt_def trim_start_digits [OF ds] scan_sign_digits [OF ds] Let_def tw)
qed

text \<open>\<open>Math.round\<close>, which rounds halves up.\<close>

fun js_round :: "jsnum \<Rightarrow> jsnum" where
  "js_round (Fin a) = Fin (of_int \<lfloor>a + 1 / 2\<rfloor>)"
| "js_round n = n"

text \<open>A number with \<open>n\<close> decimals, rounded down, as PostgreSQL prints a \<open>numeric\<close>, and back.\<close>

fun pad_digits :: "nat \<Rightarrow> nat \<Rightarrow> string" where
  "pad_digits 0 m = ''''"
| "pad_digits (Suc n) m = pad_digits n (m div 10) @ [char_of (48 + m mod 10)]"

definition show_decimal :: "nat \<Rightarrow> rat \<Rightarrow> string" where
  "show_decimal n r =
     (let k = \<lfloor>r * 10 ^ n\<rfloor>; m = nat \<bar>k\<bar>
      in (if k < 0 then ''-'' else '''') @ show_nat (m div 10 ^ n) @ ''.'' @ pad_digits n (m mod 10 ^ n))"

lemma pad_digits_digits: "\<forall>c\<in>set (pad_digits n m). is_digit c"
  by (induction n arbitrary: m) simp_all

lemma length_pad_digits [simp]: "length (pad_digits n m) = n"
  by (induction n arbitrary: m) simp_all

lemma digits_value_pad: "digits_value (pad_digits n m) = m mod 10 ^ n"
proof (induction n arbitrary: m)
  case 0
  show ?case by simp
next
  case (Suc n)
  have "m mod 10 ^ Suc n = 10 * (m div 10 mod 10 ^ n) + m mod 10"
    using mod_mult2_eq [of m 10 "10 ^ n"] by simp
  then show ?case by (simp add: Suc)
qed

lemma digits_value_append: "digits_value (a @ b) = digits_value a * 10 ^ length b + digits_value b"
  by (induction b rule: rev_induct) (simp_all add: algebra_simps flip: append_assoc)

lemma scan_unsigned_decimal:
  "scan_unsigned (show_nat a @ ''.'' @ pad_digits n m) = Some (of_nat (a * 10 ^ n + m mod 10 ^ n) / 10 ^ n, '''')"
proof -
  have dot: "\<not> is_digit CHR ''.''" by (simp add: is_digit_def char_code_def)
  have ip: "takeWhile is_digit (show_nat a @ CHR ''.'' # ds) = show_nat a"
    "dropWhile is_digit (show_nat a @ CHR ''.'' # ds) = CHR ''.'' # ds" for ds
    using show_nat_digits dot by (simp_all add: takeWhile_append2 dropWhile_append2)
  have fp: "takeWhile is_digit (pad_digits n m) = pad_digits n m" "dropWhile is_digit (pad_digits n m) = ''''"
    using pad_digits_digits by (simp_all add: takeWhile_eq_all_conv dropWhile_eq_Nil_conv)
  show ?thesis
    by (simp add: scan_unsigned_def ip fp Let_def scan_exponent_def digits_value_append digits_value_pad pow10_def)
qed

lemma parseFloat_show_decimal:
  assumes "\<bar>r\<bar> \<le> 10 ^ 29"
  shows "parseFloat (show_decimal n r) = Fin (of_int \<lfloor>r * 10 ^ n\<rfloor> / 10 ^ n)"
proof -
  let ?k = "\<lfloor>r * 10 ^ n\<rfloor>"
  let ?m = "nat \<bar>?k\<bar>"
  let ?b = "show_nat (?m div 10 ^ n) @ ''.'' @ pad_digits n (?m mod 10 ^ n)"
  obtain c t where b: "?b = c # t" and c: "is_digit c"
    using show_nat_digits [of "?m div 10 ^ n"] by (cases "show_nat (?m div 10 ^ n)") auto
  have start: "trim_start ?b = ?b" "scan_sign ?b = (1, ?b)" "\<not> startsWith ?b ''Infinity''"
    using c unfolding b
    by (auto simp: trim_start_def char_code_of_digit scan_sign_def startsWith_def is_digit_def char_code_def)
  have "?m div 10 ^ n * 10 ^ n + ?m mod 10 ^ n mod 10 ^ n = ?m" by (simp only: mod_mod_trivial div_mult_mod_eq)
  then have u: "scan_unsigned ?b = Some (of_nat ?m / 10 ^ n, '''')"
    by (simp only: scan_unsigned_decimal)
  have small: "\<bar>of_int ?k / 10 ^ n :: rat\<bar> \<le> 10 ^ 30"
  proof -
    have "\<bar>of_int ?k - r * 10 ^ n\<bar> \<le> 1" by linarith
    moreover have "\<bar>r * 10 ^ n\<bar> \<le> 10 ^ 29 * 10 ^ n" using assms by (simp add: abs_mult)
    ultimately have "\<bar>of_int ?k :: rat\<bar> \<le> 10 ^ 29 * 10 ^ n + 1" by linarith
    also have "\<dots> \<le> 10 ^ 29 * 10 ^ n + 10 ^ n" by simp
    also have "\<dots> \<le> 10 ^ 30 * 10 ^ n" by simp
    finally show ?thesis by (simp add: abs_divide field_simps)
  qed
  have "parseFloat ?b = to_number (of_nat ?m / 10 ^ n)"
    using start u by (simp add: parseFloat_def scan_decimal_def)
  moreover have "parseFloat (CHR ''-'' # ?b) = to_number (- (of_nat ?m / 10 ^ n))"
    using start(3) u by (simp add: parseFloat_def scan_decimal_def trim_start_def is_space_def char_code_def
      scan_sign_def)
  ultimately have "parseFloat (show_decimal n r) = to_number ((if ?k < 0 then -1 else 1) * (of_nat ?m / 10 ^ n))"
    by (cases "?k < 0") (simp_all only: show_decimal_def Let_def if_True if_False append.simps mult_minus1 mult_1)
  also have "(if ?k < 0 then -1 else 1) * (of_nat ?m / 10 ^ n) = (of_int ?k / 10 ^ n :: rat)"
    by (simp add: of_nat_nat)
  also have "to_number \<dots> = Fin \<dots>" by (rule to_number_small [OF small])
  finally show ?thesis .
qed

section \<open>Dates\<close>

text \<open>\<open>d.setDate(d.getDate() + n)\<close> in UTC: whole days, an invalid date out of range.\<close>

definition add_days :: "int \<Rightarrow> jsnum \<Rightarrow> int option" where
  "add_days t n = (case n of
      Fin r \<Rightarrow> (let t' = t + (if 0 \<le> r then \<lfloor>r\<rfloor> else \<lceil>r\<rceil>) * 86400000
                in if \<bar>t'\<bar> \<le> 8640000000000000 then Some t' else None)
    | _ \<Rightarrow> None)"

section \<open>Values of type unknown\<close>

text \<open>
  What a JSON body or a reply of the Stellar SDK can hold. An absent property reads as
  \<open>JUndefined\<close>.
\<close>

datatype jsval =
    JUndefined
  | JNull
  | JBool bool
  | JNumber jsnum
  | JBigInt int
  | JString string
  | JArray "jsval list"
  | JObject "(string \<times> jsval) list"

fun get_prop :: "jsval \<Rightarrow> string \<Rightarrow> jsval" where
  "get_prop (JObject fs) k = (case map_of fs k of None \<Rightarrow> JUndefined | Some v \<Rightarrow> v)"
| "get_prop _ _ = JUndefined"

definition elem :: "jsval list \<Rightarrow> nat \<Rightarrow> jsval" where
  "elem vs i = (if i < length vs then vs ! i else JUndefined)"

text \<open>The truth value of a value, as in \<open>v || d\<close> and \<open>!v\<close>.\<close>

fun js_truthy :: "jsval \<Rightarrow> bool" where
  "js_truthy JUndefined = False"
| "js_truthy JNull = False"
| "js_truthy (JBool b) = b"
| "js_truthy (JNumber n) = num_truthy n"
| "js_truthy (JBigInt i) = (i \<noteq> 0)"
| "js_truthy (JString s) = (s \<noteq> '''')"
| "js_truthy (JArray vs) = True"
| "js_truthy (JObject fs) = True"

text \<open>\<open>a ?? b\<close>.\<close>

fun nullish_or :: "jsval \<Rightarrow> jsval \<Rightarrow> jsval" where
  "nullish_or JUndefined d = d"
| "nullish_or JNull d = d"
| "nullish_or v _ = v"

text \<open>
  A \<open>string | null | undefined\<close>, where the two absent values must be told apart;
  \<open>opt_chain f x\<close> is \<open>x?.f()\<close>, which is \<open>undefined\<close> on both of them.
\<close>

datatype 'a maybe = Undef | Null | Val 'a

fun opt_chain :: "('a \<Rightarrow> 'b) \<Rightarrow> 'a maybe \<Rightarrow> 'b maybe" where
  "opt_chain f (Val x) = Val (f x)"
| "opt_chain f _ = Undef"

fun maybe_or :: "string maybe \<Rightarrow> string \<Rightarrow> string" where
  "maybe_or (Val s) d = (if s = '''' then d else s)"
| "maybe_or _ d = d"

fun maybe_truthy :: "string maybe \<Rightarrow> bool" where
  "maybe_truthy (Val s) = (s \<noteq> '''')"
| "maybe_truthy _ = False"

fun maybe_option :: "'a maybe \<Rightarrow> 'a option" where
  "maybe_option (Val x) = Some x"
| "maybe_option _ = None"

lemma opt_chain_never_null [simp]: "opt_chain f x \<noteq> Null"
  by (cases x) simp_all

end
