(* ===== verification/Entities.thy ===== *)
theory Entities
  imports Js_Values "HOL-Library.Option_ord" "HOL-Library.List_Lexorder" "HOL-Library.Char_ord"
begin

text \<open>
  The persistent entities of \<open>src/src/entities\<close>: enumerations, records, the defaults their columns
  are filled with on insertion, the columns that are unique, and the \<open>BeforeInsert\<close> hook of the
  users. A record is a JavaScript object of the entity's class: a column the database generates
  or may leave null is an option, \<open>None\<close> standing for \<open>undefined\<close> and for a null column alike.
\<close>

section \<open>Enumerations\<close>

datatype tip_status = PENDING | COMPLETED | FAILED

datatype tip_withdrawal_status = W_NONE | W_PENDING | W_COMPLETED | W_FAILED

datatype tip_asset = XLM | USDC

datatype auth_method = EMAIL | STELLAR

datatype user_role = USER | ADMIN

datatype notification_type = TIP_RECEIVED | DISCREPANCY_DETECTED

fun withdrawal_status_value :: "tip_withdrawal_status \<Rightarrow> string" where
  "withdrawal_status_value W_NONE = ''none''"
| "withdrawal_status_value W_PENDING = ''pending''"
| "withdrawal_status_value W_COMPLETED = ''completed''"
| "withdrawal_status_value W_FAILED = ''failed''"

fun asset_value :: "tip_asset \<Rightarrow> string" where
  "asset_value XLM = ''XLM''"
| "asset_value USDC = ''USDC''"

fun role_value :: "user_role \<Rightarrow> string" where
  "role_value USER = ''user''"
| "role_value ADMIN = ''admin''"

fun auth_method_value :: "auth_method \<Rightarrow> string" where
  "auth_method_value EMAIL = ''email''"
| "auth_method_value STELLAR = ''stellar''"

text \<open>\<open>Object.values(TipAsset)\<close>, and the member a string of that list is.\<close>

definition asset_values :: "string list" where
  "asset_values = [''XLM'', ''USDC'']"

definition asset_of :: "string \<Rightarrow> tip_asset" where
  "asset_of s = (if s = ''USDC'' then USDC else XLM)"

lemma asset_of_value [simp]: "asset_of (asset_value a) = a"
  by (cases a) (simp_all add: asset_of_def)

lemma asset_value_of: "s \<in> set asset_values \<Longrightarrow> asset_value (asset_of s) = s"
  by (auto simp: asset_values_def asset_of_def)

lemma asset_value_in [simp]: "asset_value a \<in> set asset_values"
  by (cases a) (simp_all add: asset_values_def)

lemma asset_value_inj [simp]: "asset_value a = asset_value b \<longleftrightarrow> a = b"
  by (cases a; cases b) simp_all

section \<open>Users\<close>

record social_links =
  sl_twitter :: "string option"
  sl_github :: "string option"
  sl_youtube :: "string option"
  sl_website :: "string option"

record user =
  u_id :: "string option"
  u_username :: "string option"
  u_displayName :: "string option"
  u_bio :: "string option"
  u_avatarUrl :: "string option"
  u_socialLinks :: "social_links option"
  u_email :: "string option"
  u_password :: "string option"
  u_walletAddress :: "string option"
  u_authMethod :: "auth_method option"
  u_role :: "user_role option"
  u_isActive :: "bool option"
  u_createdAt :: "int option"

definition new_user :: user where
  "new_user = \<lparr>u_id = None, u_username = None, u_displayName = None, u_bio = None,
     u_avatarUrl = None, u_socialLinks = None, u_email = None, u_password = None,
     u_walletAddress = None, u_authMethod = None, u_role = None, u_isActive = None,
     u_createdAt = None\<rparr>"

definition default_to :: "'a \<Rightarrow> 'a option \<Rightarrow> 'a option" where
  "default_to d x = (case x of None \<Rightarrow> Some d | Some v \<Rightarrow> Some v)"

text \<open>A column that is undefined in an update keeps its stored value.\<close>

definition keep :: "'a option \<Rightarrow> 'a option \<Rightarrow> 'a option" where
  "keep old new = (case new of None \<Rightarrow> old | Some v \<Rightarrow> Some v)"

lemma default_to_simps [simp]: "default_to d None = Some d" "default_to d (Some v) = Some v"
  by (simp_all add: default_to_def)

lemma keep_simps [simp]: "keep old None = old" "keep old (Some v) = Some v" "keep x x = x"
  by (simp_all add: keep_def split: option.splits)

definition user_fill :: "string \<Rightarrow> int \<Rightarrow> user \<Rightarrow> user" where
  "user_fill i now u = u\<lparr>u_id := Some i, u_createdAt := Some now,
     u_authMethod := default_to EMAIL (u_authMethod u),
     u_role := default_to USER (u_role u),
     u_isActive := default_to True (u_isActive u)\<rparr>"

definition validateAuthMethod :: "user \<Rightarrow> unit result" where
  "validateAuthMethod u =
     (if u_authMethod u = Some EMAIL \<and> \<not> truthy (u_email u)
      then Inl (JsError ''Email is required for email authentication'')
      else if u_authMethod u = Some STELLAR \<and> \<not> truthy (u_walletAddress u)
      then Inl (JsError ''Wallet address is required for Stellar authentication'')
      else Inr ())"

section \<open>Tips\<close>

record tip =
  t_id :: "string option"
  t_creatorId :: string
  t_supporterId :: "string option"
  t_senderWallet :: string
  t_receiverWallet :: string
  t_amount :: rat
  t_asset :: tip_asset
  t_assetIssuer :: "string option"
  t_message :: string
  t_transactionHash :: "string option"
  t_status :: tip_status
  t_withdrawalStatus :: "tip_withdrawal_status option"
  t_withdrawalTransactionHash :: "string option"
  t_createdAt :: "int option"

definition tip_fill :: "string \<Rightarrow> int \<Rightarrow> tip \<Rightarrow> tip" where
  "tip_fill i now t = t\<lparr>t_id := Some i, t_createdAt := Some now,
     t_withdrawalStatus := default_to W_NONE (t_withdrawalStatus t)\<rparr>"

text \<open>The values a \<open>decimal(20, 7)\<close> column stores without rounding.\<close>

definition fits_decimal :: "rat \<Rightarrow> bool" where
  "fits_decimal a \<longleftrightarrow> of_int \<lfloor>a * 10 ^ 7\<rfloor> = a * 10 ^ 7 \<and> \<bar>a\<bar> < 10 ^ 13"

section \<open>Notifications and refresh tokens\<close>

record notification =
  n_id :: "string option"
  n_userId :: string
  n_type :: notification_type
  n_title :: string
  n_message :: string
  n_isRead :: "bool option"
  n_metadata :: "jsval option"
  n_createdAt :: "int option"

definition notification_fill :: "string \<Rightarrow> int \<Rightarrow> notification \<Rightarrow> notification" where
  "notification_fill i now n = n\<lparr>n_id := Some i, n_createdAt := Some now,
     n_isRead := default_to False (n_isRead n)\<rparr>"

text \<open>\<open>r_expiresAt\<close> is \<open>None\<close> for an invalid \<open>Date\<close>.\<close>

record refresh_token =
  r_id :: "string option"
  r_userId :: string
  r_token :: string
  r_expiresAt :: "int option"
  r_isRevoked :: "bool option"
  r_createdAt :: "int option"

definition refresh_token_fill :: "string \<Rightarrow> int \<Rightarrow> refresh_token \<Rightarrow> refresh_token" where
  "refresh_token_fill i now r = r\<lparr>r_id := Some i, r_createdAt := Some now,
     r_isRevoked := default_to False (r_isRevoked r)\<rparr>"

section \<open>Table constraints\<close>

text \<open>A primary key is set and unique; a unique column has no value twice, nulls aside.\<close>

definition keyed :: "('e \<Rightarrow> string option) \<Rightarrow> 'e list \<Rightarrow> bool" where
  "keyed k rows \<longleftrightarrow> None \<notin> k ` set rows \<and> distinct (map k rows)"

definition unique_col :: "('e \<Rightarrow> string option) \<Rightarrow> 'e list \<Rightarrow> bool" where
  "unique_col c rows \<longleftrightarrow> distinct (filter (\<lambda>v. v \<noteq> None) (map c rows))"

definition users_ok :: "user list \<Rightarrow> bool" where
  "users_ok rows \<longleftrightarrow> keyed u_id rows \<and> unique_col u_username rows \<and> unique_col u_email rows
     \<and> unique_col u_walletAddress rows"

definition tips_ok :: "tip list \<Rightarrow> bool" where
  "tips_ok rows \<longleftrightarrow> keyed t_id rows \<and> unique_col t_transactionHash rows
     \<and> unique_col t_withdrawalTransactionHash rows"

definition notifications_ok :: "notification list \<Rightarrow> bool" where
  "notifications_ok rows \<longleftrightarrow> keyed n_id rows"

definition refresh_tokens_ok :: "refresh_token list \<Rightarrow> bool" where
  "refresh_tokens_ok rows \<longleftrightarrow> keyed r_id rows \<and> unique_col (\<lambda>r. Some (r_token r)) rows"

lemma unique_colD:
  assumes "unique_col c rows" and "r \<in> set rows" and "r' \<in> set rows"
    and "c r = Some v" and "c r' = Some v"
  shows "r = r'"
  using assms
proof (induction rows)
  case Nil
  then show ?case by simp
next
  case (Cons x rows)
  have sub: "unique_col c rows" using Cons.prems(1) by (auto simp: unique_col_def split: if_splits)
  have x: "c x = Some w \<Longrightarrow> y \<in> set rows \<Longrightarrow> c y \<noteq> Some w" for y w
    using Cons.prems(1) by (auto simp: unique_col_def image_iff)
  show ?case using Cons.prems(2-5) x [of v] Cons.IH [OF sub] by auto
qed

lemma unique_col_le_one:
  "unique_col c rows \<Longrightarrow> length (filter (\<lambda>r. c r = Some v) rows) \<le> 1"
proof (induction rows)
  case Nil
  then show ?case by simp
next
  case (Cons x rows)
  have sub: "unique_col c rows" using Cons.prems by (auto simp: unique_col_def split: if_splits)
  have "c x = Some v \<Longrightarrow> filter (\<lambda>r. c r = Some v) rows = []"
    using Cons.prems by (auto simp: unique_col_def filter_empty_conv image_iff)
  then show ?case using Cons.IH [OF sub] by simp
qed

lemma unique_col_mset_eq: "mset rows = mset rows' \<Longrightarrow> unique_col c rows = unique_col c rows'"
proof -
  assume eq: "mset rows = mset rows'"
  then have "mset (filter (\<lambda>v. v \<noteq> None) (map c rows)) = mset (filter (\<lambda>v. v \<noteq> None) (map c rows'))"
    by simp
  then show ?thesis unfolding unique_col_def by (rule mset_eq_imp_distinct_iff)
qed

lemma keyed_mset_eq: "mset rows = mset rows' \<Longrightarrow> keyed k rows = keyed k rows'"
proof -
  assume eq: "mset rows = mset rows'"
  then have "mset (map k rows) = mset (map k rows')" by simp
  then have "distinct (map k rows) = distinct (map k rows')" by (rule mset_eq_imp_distinct_iff)
  moreover have "set rows = set rows'" using eq by (rule mset_eq_setD)
  ultimately show ?thesis by (simp add: keyed_def)
qed

lemma keyedD: "keyed k rows \<Longrightarrow> r \<in> set rows \<Longrightarrow> r' \<in> set rows \<Longrightarrow> k r = k r' \<Longrightarrow> r = r'"
  by (auto simp: keyed_def distinct_map inj_on_def)

lemma keyed_key: "keyed k rows \<Longrightarrow> r \<in> set rows \<Longrightarrow> \<exists>i. k r = Some i"
  by (cases "k r") (force simp: keyed_def)+

lemma keyed_distinct: "keyed k rows \<Longrightarrow> distinct rows"
  by (simp add: keyed_def distinct_map)

end
