(* ===== verification/Repository.thy ===== *)
theory Repository
  imports Entities
begin

text \<open>
  The interface of TypeORM the services use. A repository is a record of operations on the rows of
  one table, a parameter of every service, as Nest injects it; a query is the \<open>find\<close> options
  object the sources build. The locale \<open>repository\<close> states what TypeORM and PostgreSQL document
  of these operations, \<open>available_repository\<close> adds that the database answers. The second half
  of the theory gives tables with the keys, defaults and constraints of the entities, and
  interprets both locales on them.
\<close>

section \<open>Queries\<close>

datatype 'v find_op = Equal 'v | MoreThanOrEqual 'v | LessThanOrEqual 'v | Between 'v 'v

text \<open>
  A \<open>where\<close> object: a property that is absent restricts nothing, and neither does one whose value
  is undefined or null, which TypeORM skips by default.
\<close>

record user_where =
  uw_id :: "string option"
  uw_username :: "string option"
  uw_email :: "string option"
  uw_walletAddress :: "string option"
  uw_isActive :: "bool option"

record tip_where =
  tw_id :: "string option"
  tw_creatorId :: "string option"
  tw_supporterId :: "string option"
  tw_senderWallet :: "string option"
  tw_receiverWallet :: "string option"
  tw_transactionHash :: "string option"
  tw_withdrawalTransactionHash :: "string option"
  tw_status :: "tip_status option"
  tw_asset :: "string option"
  tw_amount :: "jsnum find_op option"
  tw_createdAt :: "int find_op option"

record notification_where =
  nw_id :: "string option"
  nw_userId :: "string option"
  nw_isRead :: "bool option"

record token_where =
  rw_id :: "string option"
  rw_userId :: "string option"
  rw_token :: "string option"
  rw_isRevoked :: "bool option"

definition any_user :: user_where where
  "any_user = \<lparr>uw_id = None, uw_username = None, uw_email = None, uw_walletAddress = None,
     uw_isActive = None\<rparr>"

definition any_tip :: tip_where where
  "any_tip = \<lparr>tw_id = None, tw_creatorId = None, tw_supporterId = None, tw_senderWallet = None,
     tw_receiverWallet = None, tw_transactionHash = None, tw_withdrawalTransactionHash = None,
     tw_status = None, tw_asset = None, tw_amount = None, tw_createdAt = None\<rparr>"

definition any_notification :: notification_where where
  "any_notification = \<lparr>nw_id = None, nw_userId = None, nw_isRead = None\<rparr>"

definition any_token :: token_where where
  "any_token = \<lparr>rw_id = None, rw_userId = None, rw_token = None, rw_isRevoked = None\<rparr>"

text \<open>
  The options of a \<open>find\<close>: the alternatives of \<open>where\<close>, the selected columns, the order (column
  and direction), and the rows to skip and to take.
\<close>

record 'w find_options =
  fo_where :: "'w list"
  fo_select :: "string list option"
  fo_order :: "(string \<times> string) list"
  fo_skip :: "jsnum option"
  fo_take :: "jsnum option"

definition query_of :: "'w list \<Rightarrow> 'w find_options" where
  "query_of ws = \<lparr>fo_where = ws, fo_select = None, fo_order = [], fo_skip = None, fo_take = None\<rparr>"

definition selects :: "('w \<Rightarrow> 'e \<Rightarrow> bool) \<Rightarrow> 'w find_options \<Rightarrow> 'e \<Rightarrow> bool" where
  "selects matches q r \<longleftrightarrow> list_ex (\<lambda>w. matches w r) (fo_where q)"

lemma query_of_simps [simp]:
  "fo_where (query_of ws) = ws" "fo_select (query_of ws) = None" "fo_order (query_of ws) = []"
  "fo_skip (query_of ws) = None" "fo_take (query_of ws) = None"
  by (simp_all add: query_of_def)

lemma selects_query_of [simp]: "selects m (query_of [w]) r = m w r"
  by (simp add: selects_def)

section \<open>The operations\<close>

record ('w, 'e) repository_ops =
  findOne :: "'w find_options \<Rightarrow> 'e list \<Rightarrow> string + 'e option"
  findMany :: "'w find_options \<Rightarrow> 'e list \<Rightarrow> string + 'e list"
  findAndCount :: "'w find_options \<Rightarrow> 'e list \<Rightarrow> string + 'e list \<times> nat"
  countRows :: "'w find_options \<Rightarrow> 'e list \<Rightarrow> string + nat"
  saveRow :: "int \<Rightarrow> 'e \<Rightarrow> 'e list \<Rightarrow> string + 'e \<times> 'e list"
  updateRows :: "'w find_options \<Rightarrow> ('e \<Rightarrow> 'e) \<Rightarrow> 'e list \<Rightarrow> string + 'e list"

locale repository =
  fixes R :: "('w, 'e) repository_ops"
    and matches :: "'w \<Rightarrow> 'e \<Rightarrow> bool"
    and view :: "string list option \<Rightarrow> 'e \<Rightarrow> 'e"
    and ordered :: "(string \<times> string) list \<Rightarrow> 'e \<Rightarrow> 'e \<Rightarrow> bool"
    and key :: "'e \<Rightarrow> string option"
    and fill :: "string \<Rightarrow> int \<Rightarrow> 'e \<Rightarrow> 'e"
    and merge :: "'e \<Rightarrow> 'e \<Rightarrow> 'e"
    and storable :: "'e \<Rightarrow> bool"
    and constraint :: "'e list \<Rightarrow> bool"
  assumes find_one_Some: "findOne R q rows = Inr (Some e) \<Longrightarrow>
      \<exists>r\<in>set rows. selects matches q r \<and> e = view (fo_select q) r"
    and find_one_None: "findOne R q rows = Inr None \<Longrightarrow> r \<in> set rows \<Longrightarrow> \<not> selects matches q r"
    and find_many: "findMany R q rows = Inr es \<Longrightarrow> fo_skip q = None \<Longrightarrow> fo_take q = None \<Longrightarrow>
      \<exists>ss. mset ss = filter_mset (selects matches q) (mset rows)
        \<and> sorted_wrt (ordered (fo_order q)) ss \<and> es = map (view (fo_select q)) ss"
    and find_and_count: "findAndCount R q rows = Inr (es, n) \<Longrightarrow>
      fo_skip q = Some (Fin (of_nat k)) \<Longrightarrow> fo_take q = Some (Fin (of_nat m)) \<Longrightarrow> 0 < m \<Longrightarrow>
      \<exists>ss. mset ss = filter_mset (selects matches q) (mset rows)
        \<and> sorted_wrt (ordered (fo_order q)) ss
        \<and> es = map (view (fo_select q)) (take m (drop k ss)) \<and> n = length ss"
    and count_rows: "countRows R q rows = Inr n \<Longrightarrow> n = size (filter_mset (selects matches q) (mset rows))"
    and save_insert: "saveRow R now e rows = Inr (e', rows') \<Longrightarrow> key e = None \<Longrightarrow> storable e \<Longrightarrow>
      \<exists>i. (\<forall>r\<in>set rows. key r \<noteq> Some i) \<and> e' = fill i now e \<and> mset rows' = add_mset e' (mset rows)"
    and save_update: "saveRow R now e rows = Inr (e', rows') \<Longrightarrow> constraint rows \<Longrightarrow> r \<in> set rows \<Longrightarrow>
      key r = Some i \<Longrightarrow> key e = Some i \<Longrightarrow> storable e \<Longrightarrow>
      e' = e \<and> mset rows' = add_mset (merge r e) (mset rows - {#r#})"
    and save_constraint: "saveRow R now e rows = Inr (e', rows') \<Longrightarrow> constraint rows \<Longrightarrow> constraint rows'"
    and update_rows: "updateRows R q f rows = Inr rows' \<Longrightarrow>
      mset rows' = image_mset (\<lambda>r. if selects matches q r then f r else r) (mset rows)"
    and update_constraint: "updateRows R q f rows = Inr rows' \<Longrightarrow> constraint rows \<Longrightarrow> constraint rows'"
    and find_take: "findMany R q rows = Inr es \<Longrightarrow> fo_skip q = None \<Longrightarrow>
      fo_take q = Some (Fin (of_nat m)) \<Longrightarrow> 0 < m \<Longrightarrow>
      \<exists>ss. mset ss = filter_mset (selects matches q) (mset rows)
        \<and> sorted_wrt (ordered (fo_order q)) ss \<and> es = map (view (fo_select q)) (take m ss)"
begin

lemma save_insert_set:
  assumes "saveRow R now e rows = Inr (e', rows')" and "key e = None" and "storable e"
  shows "set rows' = insert e' (set rows)" and "length rows' = Suc (length rows)"
proof -
  obtain i where m: "mset rows' = add_mset e' (mset rows)"
    using save_insert [OF assms] by blast
  then show "set rows' = insert e' (set rows)"
    by (metis set_mset_add_mset_insert set_mset_mset)
  from m show "length rows' = Suc (length rows)"
    by (metis size_add_mset size_mset)
qed

lemma save_insert_filter:
  assumes "saveRow R now e rows = Inr (e', rows')" and "key e = None" and "storable e"
  shows "length (filter P rows') = length (filter P rows) + (if P e' then 1 else 0)"
proof -
  obtain i where "mset rows' = add_mset e' (mset rows)"
    using save_insert [OF assms] by blast
  then have "size (filter_mset P (mset rows')) = size (filter_mset P (add_mset e' (mset rows)))"
    by simp
  then show ?thesis by (simp add: size_filter_mset_length split: if_splits)
qed

lemma find_one_SomeE:
  assumes "findOne R q rows = Inr (Some e)"
  obtains r where "r \<in> set rows" and "selects matches q r" and "e = view (fo_select q) r"
  using find_one_Some [OF assms] by blast

lemma update_rows_set:
  assumes "updateRows R q f rows = Inr rows'"
  shows "set rows' = (\<lambda>r. if selects matches q r then f r else r) ` set rows"
  using update_rows [OF assms] by (metis image_set mset_eq_setD mset_map)

end

text \<open>
  The database answers, and an insertion that breaks no unique column is carried out;
  \<open>insertable rows e\<close> says that the new row breaks none.
\<close>

locale available_repository = repository +
  fixes insertable :: "'b list \<Rightarrow> 'b \<Rightarrow> bool"
  assumes find_one_available: "\<exists>x. findOne R q rows = Inr x"
    and find_many_available: "\<exists>x. findMany R q rows = Inr x"
    and find_and_count_available: "\<exists>x. findAndCount R q rows = Inr x"
    and count_available: "\<exists>x. countRows R q rows = Inr x"
    and insert_available: "constraint rows \<Longrightarrow> key e = None \<Longrightarrow> storable e \<Longrightarrow> insertable rows e \<Longrightarrow>
      \<exists>e' rows'. saveRow R now e rows = Inr (e', rows')"
begin

lemma find_one_hit:
  assumes "r \<in> set rows" and "selects matches q r"
  obtains e r' where "findOne R q rows = Inr (Some e)"
    and "r' \<in> set rows" and "selects matches q r'" and "e = view (fo_select q) r'"
proof -
  obtain x where x: "findOne R q rows = Inr x" using find_one_available by blast
  then obtain e where "findOne R q rows = Inr (Some e)"
    using assms find_one_None [of q rows r] by (cases x) auto
  then show thesis using that find_one_Some by blast
qed

lemma find_one_miss:
  assumes "\<And>r. r \<in> set rows \<Longrightarrow> \<not> selects matches q r"
  shows "findOne R q rows = Inr None"
proof -
  obtain x where x: "findOne R q rows = Inr x" using find_one_available by blast
  show ?thesis using x assms find_one_Some [of q rows] by (cases x) auto
qed

end

end
