(* ===== verification/Tables.thy ===== *)
theory Tables
  imports Repository
begin

text \<open>
  What a query selects, in which order and with which columns, for each entity, and tables with the
  keys, defaults and constraints of the entities on which the repository contracts hold. The
  abbreviations \<open>users_contract\<close> and its siblings are the hypotheses under which the services are
  verified; the interpretations show that the entities' tables satisfy them.
\<close>

section \<open>What a query selects\<close>

definition matches_opt :: "'a option \<Rightarrow> 'a option \<Rightarrow> bool" where
  "matches_opt w v \<longleftrightarrow> w = None \<or> v = w"

text \<open>PostgreSQL orders \<open>NaN\<close> above every number.\<close>

definition pg_le :: "jsnum \<Rightarrow> jsnum \<Rightarrow> bool" where
  "pg_le a b \<longleftrightarrow> b = NaN \<or> js_le a b"

fun amount_matches :: "jsnum find_op \<Rightarrow> rat \<Rightarrow> bool" where
  "amount_matches (Equal a) v = (a = Fin v)"
| "amount_matches (MoreThanOrEqual a) v = pg_le a (Fin v)"
| "amount_matches (LessThanOrEqual b) v = pg_le (Fin v) b"
| "amount_matches (Between a b) v = (pg_le a (Fin v) \<and> pg_le (Fin v) b)"

fun date_matches :: "int find_op \<Rightarrow> int \<Rightarrow> bool" where
  "date_matches (Equal a) v = (a = v)"
| "date_matches (MoreThanOrEqual a) v = (a \<le> v)"
| "date_matches (LessThanOrEqual b) v = (v \<le> b)"
| "date_matches (Between a b) v = (a \<le> v \<and> v \<le> b)"

definition user_matches :: "user_where \<Rightarrow> user \<Rightarrow> bool" where
  "user_matches w u \<longleftrightarrow> matches_opt (uw_id w) (u_id u) \<and> matches_opt (uw_username w) (u_username u)
     \<and> matches_opt (uw_email w) (u_email u) \<and> matches_opt (uw_walletAddress w) (u_walletAddress u)
     \<and> matches_opt (uw_isActive w) (u_isActive u)"

definition tip_matches :: "tip_where \<Rightarrow> tip \<Rightarrow> bool" where
  "tip_matches w t \<longleftrightarrow> matches_opt (tw_id w) (t_id t)
     \<and> matches_opt (tw_creatorId w) (Some (t_creatorId t))
     \<and> matches_opt (tw_supporterId w) (t_supporterId t)
     \<and> matches_opt (tw_senderWallet w) (Some (t_senderWallet t))
     \<and> matches_opt (tw_receiverWallet w) (Some (t_receiverWallet t))
     \<and> matches_opt (tw_transactionHash w) (t_transactionHash t)
     \<and> matches_opt (tw_withdrawalTransactionHash w) (t_withdrawalTransactionHash t)
     \<and> matches_opt (tw_status w) (Some (t_status t))
     \<and> matches_opt (tw_asset w) (Some (asset_value (t_asset t)))
     \<and> (case tw_amount w of None \<Rightarrow> True | Some f \<Rightarrow> amount_matches f (t_amount t))
     \<and> (case tw_createdAt w of None \<Rightarrow> True | Some f \<Rightarrow>
          (case t_createdAt t of None \<Rightarrow> False | Some d \<Rightarrow> date_matches f d))"

definition notification_matches :: "notification_where \<Rightarrow> notification \<Rightarrow> bool" where
  "notification_matches w n \<longleftrightarrow> matches_opt (nw_id w) (n_id n)
     \<and> matches_opt (nw_userId w) (Some (n_userId n)) \<and> matches_opt (nw_isRead w) (n_isRead n)"

definition token_matches :: "token_where \<Rightarrow> refresh_token \<Rightarrow> bool" where
  "token_matches w r \<longleftrightarrow> matches_opt (rw_id w) (r_id r) \<and> matches_opt (rw_userId w) (Some (r_userId r))
     \<and> matches_opt (rw_token w) (Some (r_token r)) \<and> matches_opt (rw_isRevoked w) (r_isRevoked r)"

lemma matches_opt_simps [simp]: "matches_opt None v" "matches_opt (Some x) v \<longleftrightarrow> v = Some x"
  by (auto simp: matches_opt_def)

lemma pg_le_Fin [simp]: "pg_le (Fin a) (Fin b) \<longleftrightarrow> a \<le> b"
  by (simp add: pg_le_def)

text \<open>
  The columns of a loaded user: all but the password, whose column is declared with
  \<open>select: false\<close>, or the listed ones.
\<close>

definition user_view :: "string list option \<Rightarrow> user \<Rightarrow> user" where
  "user_view sel u = (case sel of
      None \<Rightarrow> u\<lparr>u_password := None\<rparr>
    | Some cols \<Rightarrow>
       \<lparr>u_id = (if ''id'' \<in> set cols then u_id u else None),
        u_username = (if ''username'' \<in> set cols then u_username u else None),
        u_displayName = (if ''displayName'' \<in> set cols then u_displayName u else None),
        u_bio = (if ''bio'' \<in> set cols then u_bio u else None),
        u_avatarUrl = (if ''avatarUrl'' \<in> set cols then u_avatarUrl u else None),
        u_socialLinks = (if ''socialLinks'' \<in> set cols then u_socialLinks u else None),
        u_email = (if ''email'' \<in> set cols then u_email u else None),
        u_password = (if ''password'' \<in> set cols then u_password u else None),
        u_walletAddress = (if ''walletAddress'' \<in> set cols then u_walletAddress u else None),
        u_authMethod = (if ''authMethod'' \<in> set cols then u_authMethod u else None),
        u_role = (if ''role'' \<in> set cols then u_role u else None),
        u_isActive = (if ''isActive'' \<in> set cols then u_isActive u else None),
        u_createdAt = (if ''createdAt'' \<in> set cols then u_createdAt u else None)\<rparr>)"

definition view_all :: "string list option \<Rightarrow> 'e \<Rightarrow> 'e" where
  "view_all sel r = r"

lemma view_all_id [simp]: "view_all sel r = r"
  by (simp add: view_all_def)

text \<open>What an update writes: a column that is undefined in the saved object stays.\<close>

definition user_merge :: "user \<Rightarrow> user \<Rightarrow> user" where
  "user_merge old u = u\<lparr>u_password := keep (u_password old) (u_password u)\<rparr>"

definition tip_merge :: "tip \<Rightarrow> tip \<Rightarrow> tip" where
  "tip_merge old t = t\<lparr>t_supporterId := keep (t_supporterId old) (t_supporterId t),
     t_assetIssuer := keep (t_assetIssuer old) (t_assetIssuer t),
     t_transactionHash := keep (t_transactionHash old) (t_transactionHash t),
     t_withdrawalStatus := keep (t_withdrawalStatus old) (t_withdrawalStatus t),
     t_withdrawalTransactionHash := keep (t_withdrawalTransactionHash old) (t_withdrawalTransactionHash t),
     t_createdAt := keep (t_createdAt old) (t_createdAt t)\<rparr>"

definition notification_merge :: "notification \<Rightarrow> notification \<Rightarrow> notification" where
  "notification_merge old n = n\<lparr>n_isRead := keep (n_isRead old) (n_isRead n),
     n_metadata := keep (n_metadata old) (n_metadata n),
     n_createdAt := keep (n_createdAt old) (n_createdAt n)\<rparr>"

definition token_merge :: "refresh_token \<Rightarrow> refresh_token \<Rightarrow> refresh_token" where
  "token_merge old r = r\<lparr>r_isRevoked := keep (r_isRevoked old) (r_isRevoked r),
     r_createdAt := keep (r_createdAt old) (r_createdAt r)\<rparr>"

section \<open>Orders\<close>

text \<open>Rows ordered by a list of columns, each with its direction; later columns break ties.\<close>

fun order_by :: "(string \<Rightarrow> 'e \<Rightarrow> 'e \<Rightarrow> bool) \<Rightarrow> (string \<times> string) list \<Rightarrow> 'e \<Rightarrow> 'e \<Rightarrow> bool" where
  "order_by le [] a b = True"
| "order_by le ((c, d) # os) a b =
     (let ab = (if d = ''DESC'' then le c b a else le c a b);
          ba = (if d = ''DESC'' then le c a b else le c b a)
      in ab \<and> (ba \<longrightarrow> order_by le os a b))"

definition tip_col_le :: "string \<Rightarrow> tip \<Rightarrow> tip \<Rightarrow> bool" where
  "tip_col_le c a b =
     (if c = ''createdAt'' then t_createdAt a \<le> t_createdAt b
      else if c = ''amount'' then t_amount a \<le> t_amount b
      else if c = ''id'' then t_id a \<le> t_id b
      else True)"

definition notification_col_le :: "string \<Rightarrow> notification \<Rightarrow> notification \<Rightarrow> bool" where
  "notification_col_le c a b =
     (if c = ''createdAt'' then n_createdAt a \<le> n_createdAt b else True)"

definition any_order :: "(string \<times> string) list \<Rightarrow> 'e \<Rightarrow> 'e \<Rightarrow> bool" where
  "any_order os a b = True"

definition total_preorder :: "('e \<Rightarrow> 'e \<Rightarrow> bool) \<Rightarrow> bool" where
  "total_preorder le \<longleftrightarrow> (\<forall>a b. le a b \<or> le b a) \<and> (\<forall>a b c. le a b \<longrightarrow> le b c \<longrightarrow> le a c)"

lemma total_preorderD:
  assumes "total_preorder le"
  shows "le a b \<or> le b a" and "le a b \<Longrightarrow> le b c \<Longrightarrow> le a c" and "le a a"
  using assms by (auto simp: total_preorder_def)

lemma total_preorder_order_by:
  assumes "\<And>c. total_preorder (le c)"
  shows "total_preorder (order_by le os)"
proof (induction os)
  case Nil
  show ?case by (simp add: total_preorder_def)
next
  case (Cons cd os)
  obtain c d where cd: "cd = (c, d)" by (cases cd)
  define f where "f = (\<lambda>a b. if d = ''DESC'' then le c b a else le c a b)"
  have f: "total_preorder f"
    using assms [of c] by (auto simp: total_preorder_def f_def)
  have eq: "order_by le (cd # os) a b = (f a b \<and> (f b a \<longrightarrow> order_by le os a b))" for a b
    by (simp add: cd f_def Let_def)
  show ?case
    unfolding total_preorder_def eq
    using total_preorderD [OF f] total_preorderD [OF Cons.IH] by blast
qed

lemma total_preorder_tip: "total_preorder (order_by tip_col_le os)"
  by (rule total_preorder_order_by) (auto simp: total_preorder_def tip_col_le_def)

lemma total_preorder_notification: "total_preorder (order_by notification_col_le os)"
  by (rule total_preorder_order_by) (auto simp: total_preorder_def notification_col_le_def)

lemma total_preorder_any: "total_preorder (any_order os)"
  by (simp add: total_preorder_def any_order_def)

fun insert_by :: "('e \<Rightarrow> 'e \<Rightarrow> bool) \<Rightarrow> 'e \<Rightarrow> 'e list \<Rightarrow> 'e list" where
  "insert_by le x [] = [x]"
| "insert_by le x (y # ys) = (if le x y then x # y # ys else y # insert_by le x ys)"

definition sort_by :: "('e \<Rightarrow> 'e \<Rightarrow> bool) \<Rightarrow> 'e list \<Rightarrow> 'e list" where
  "sort_by le xs = foldr (insert_by le) xs []"

lemma mset_insert_by [simp]: "mset (insert_by le x xs) = add_mset x (mset xs)"
  by (induction xs) auto

lemma mset_sort_by [simp]: "mset (sort_by le xs) = mset xs"
  by (induction xs) (simp_all add: sort_by_def)

lemma sorted_insert_by:
  assumes le: "total_preorder le" and "sorted_wrt le xs"
  shows "sorted_wrt le (insert_by le x xs)"
  using assms(2)
proof (induction xs)
  case Nil
  then show ?case by simp
next
  case (Cons y ys)
  have "set (insert_by le x ys) = insert x (set ys)"
    by (metis mset_insert_by set_mset_add_mset_insert set_mset_mset)
  then show ?case
    using Cons total_preorderD [OF le] by (auto; blast)
qed

lemma sorted_sort_by: "total_preorder le \<Longrightarrow> sorted_wrt le (sort_by le xs)"
  by (induction xs) (simp_all add: sort_by_def sorted_insert_by)

section \<open>Tables\<close>

definition fresh_key :: "('e \<Rightarrow> string option) \<Rightarrow> 'e list \<Rightarrow> string" where
  "fresh_key k rows =
     replicate (Suc (sum_list (map (\<lambda>r. case k r of None \<Rightarrow> 0 | Some i \<Rightarrow> length i) rows))) CHR ''x''"

lemma fresh_key_fresh: "r \<in> set rows \<Longrightarrow> k r \<noteq> Some (fresh_key k rows)"
proof
  let ?n = "\<lambda>r. case k r of None \<Rightarrow> 0 | Some i \<Rightarrow> length i"
  assume r: "r \<in> set rows" and eq: "k r = Some (fresh_key k rows)"
  have "?n r \<le> sum_list (map ?n rows)"
    using r by (simp add: member_le_sum_list)
  with eq show False by (simp add: fresh_key_def)
qed

definition take_from :: "jsnum option \<Rightarrow> 'a list \<Rightarrow> 'a list" where
  "take_from t xs = (case t of Some (Fin r) \<Rightarrow> take (nat \<lfloor>r\<rfloor>) xs | _ \<Rightarrow> xs)"

definition skip_from :: "jsnum option \<Rightarrow> 'a list \<Rightarrow> 'a list" where
  "skip_from t xs = (case t of Some (Fin r) \<Rightarrow> drop (nat \<lfloor>r\<rfloor>) xs | _ \<Rightarrow> xs)"

definition selected :: "('w \<Rightarrow> 'e \<Rightarrow> bool) \<Rightarrow> ((string \<times> string) list \<Rightarrow> 'e \<Rightarrow> 'e \<Rightarrow> bool) \<Rightarrow>
    'w find_options \<Rightarrow> 'e list \<Rightarrow> 'e list" where
  "selected m ord q rows = sort_by (ord (fo_order q)) (filter (selects m q) rows)"

definition table_save :: "('e \<Rightarrow> string option) \<Rightarrow> (string \<Rightarrow> int \<Rightarrow> 'e \<Rightarrow> 'e) \<Rightarrow> ('e \<Rightarrow> 'e \<Rightarrow> 'e) \<Rightarrow>
    ('e list \<Rightarrow> bool) \<Rightarrow> int \<Rightarrow> 'e \<Rightarrow> 'e list \<Rightarrow> string + 'e \<times> 'e list" where
  "table_save k fill mrg ok now e rows =
     (let e' = (if k e = None then fill (fresh_key k rows) now e else e);
          rows' = (if k e = None then rows @ [e']
                   else map (\<lambda>r. if k r = k e then mrg r e else r) rows)
      in if ok rows' then Inr (e', rows')
         else Inl ''duplicate key value violates unique constraint'')"

definition table :: "('w \<Rightarrow> 'e \<Rightarrow> bool) \<Rightarrow> (string list option \<Rightarrow> 'e \<Rightarrow> 'e) \<Rightarrow>
    ((string \<times> string) list \<Rightarrow> 'e \<Rightarrow> 'e \<Rightarrow> bool) \<Rightarrow> ('e \<Rightarrow> string option) \<Rightarrow>
    (string \<Rightarrow> int \<Rightarrow> 'e \<Rightarrow> 'e) \<Rightarrow> ('e \<Rightarrow> 'e \<Rightarrow> 'e) \<Rightarrow> ('e list \<Rightarrow> bool) \<Rightarrow> ('w, 'e) repository_ops" where
  "table m vw ord k fill mrg ok =
     \<lparr>findOne = (\<lambda>q rows. Inr (map_option (vw (fo_select q)) (List.find (selects m q) rows))),
      findMany = (\<lambda>q rows. Inr (map (vw (fo_select q))
         (take_from (fo_take q) (skip_from (fo_skip q) (selected m ord q rows))))),
      findAndCount = (\<lambda>q rows. Inr (map (vw (fo_select q))
         (take_from (fo_take q) (skip_from (fo_skip q) (selected m ord q rows))),
         length (filter (selects m q) rows))),
      countRows = (\<lambda>q rows. Inr (length (filter (selects m q) rows))),
      saveRow = table_save k fill mrg ok,
      updateRows = (\<lambda>q f rows.
         (let rows' = map (\<lambda>r. if selects m q r then f r else r) rows
          in if ok rows' then Inr rows' else Inl ''duplicate key value violates unique constraint''))\<rparr>"

lemma table_repository:
  assumes ord: "\<And>os. total_preorder (ord os)"
    and key: "\<And>rows. ok rows \<Longrightarrow> keyed k rows"
  shows "repository (table m vw ord k fill mrg ok) m vw ord k fill mrg st ok"
proof (unfold_locales, goal_cases)
  case (1 q rows e)
  then show ?case by (auto simp: table_def dest: find_Some_iff_first)
next
  case (2 q rows r)
  then show ?case by (auto simp: table_def find_None_all)
next
  case (3 q rows es)
  then show ?case
    using sorted_sort_by [OF ord]
    by (intro exI [of _ "selected m ord q rows"])
      (auto simp: table_def selected_def take_from_def skip_from_def)
next
  case (4 q rows es n j l)
  have "length (selected m ord q rows) = length (filter (selects m q) rows)"
    unfolding selected_def by (metis mset_sort_by size_mset)
  with 4 show ?case
    using sorted_sort_by [OF ord]
    by (intro exI [of _ "selected m ord q rows"])
      (auto simp: table_def selected_def take_from_def skip_from_def)
next
  case (5 q rows n)
  then show ?case by (simp add: table_def size_filter_mset_length)
next
  case (6 now e rows e' rows')
  then show ?case
    using fresh_key_fresh [of _ rows k]
    by (intro exI [of _ "fresh_key k rows"])
      (auto simp: table_def table_save_def Let_def split: if_splits)
next
  case (7 now e rows e' rows' r i)
  have rows: "distinct (map k rows)" using key [OF 7(2)] by (simp add: keyed_def)
  have "mset (map (\<lambda>x. if k x = k r then mrg x e else x) rows) = add_mset (mrg r e) (mset rows - {#r#})"
    by (rule map_upd_by_key_mset [OF rows 7(3)])
  with 7 show ?case by (auto simp: table_def table_save_def Let_def split: if_splits)
next
  case (8 now e rows e' rows')
  then show ?case by (auto simp: table_def table_save_def Let_def split: if_splits)
next
  case (9 q f rows rows')
  then show ?case by (auto simp: table_def Let_def split: if_splits)
next
  case (10 q f rows rows')
  then show ?case by (auto simp: table_def Let_def split: if_splits)
next
  case (11 q rows es l)
  then show ?case
    using sorted_sort_by [OF ord]
    by (intro exI [of _ "selected m ord q rows"])
      (auto simp: table_def selected_def take_from_def skip_from_def)
qed

lemma table_available:
  assumes ord: "\<And>os. total_preorder (ord os)"
    and key: "\<And>rows. ok rows \<Longrightarrow> keyed k rows"
    and ins: "\<And>rows e i now. ok rows \<Longrightarrow> k e = None \<Longrightarrow> ins rows e \<Longrightarrow>
      \<forall>r\<in>set rows. k r \<noteq> Some i \<Longrightarrow> ok (rows @ [fill i now e])"
  shows "available_repository (table m vw ord k fill mrg ok) m vw ord k fill mrg st ok ins"
proof (intro available_repository.intro available_repository_axioms.intro, goal_cases)
  case 1
  show ?case by (rule table_repository [OF ord key])
next
  case (6 rows e now)
  then have "ok (rows @ [fill (fresh_key k rows) now e])"
    using ins fresh_key_fresh [of _ rows k] by blast
  with 6 show ?case by (simp add: table_def table_save_def Let_def)
qed (simp_all add: table_def)

section \<open>The tables of the entities\<close>

definition users_table :: "(user_where, user) repository_ops" where
  "users_table = table user_matches user_view any_order u_id user_fill user_merge users_ok"

definition tips_table :: "(tip_where, tip) repository_ops" where
  "tips_table = table tip_matches view_all (order_by tip_col_le) t_id tip_fill tip_merge tips_ok"

definition notifications_table :: "(notification_where, notification) repository_ops" where
  "notifications_table = table notification_matches view_all (order_by notification_col_le) n_id
     notification_fill notification_merge notifications_ok"

definition tokens_table :: "(token_where, refresh_token) repository_ops" where
  "tokens_table = table token_matches view_all any_order r_id refresh_token_fill token_merge
     refresh_tokens_ok"

abbreviation users_contract :: "(user_where, user) repository_ops \<Rightarrow> bool" where
  "users_contract R \<equiv> repository R user_matches user_view any_order u_id user_fill user_merge
     (\<lambda>_. True) users_ok"

abbreviation tips_contract :: "(tip_where, tip) repository_ops \<Rightarrow> bool" where
  "tips_contract R \<equiv> repository R tip_matches view_all (order_by tip_col_le) t_id tip_fill tip_merge
     (\<lambda>t. fits_decimal (t_amount t)) tips_ok"

abbreviation notifications_contract :: "(notification_where, notification) repository_ops \<Rightarrow> bool" where
  "notifications_contract R \<equiv> repository R notification_matches view_all
     (order_by notification_col_le) n_id notification_fill notification_merge (\<lambda>_. True) notifications_ok"

abbreviation tokens_contract :: "(token_where, refresh_token) repository_ops \<Rightarrow> bool" where
  "tokens_contract R \<equiv> repository R token_matches view_all any_order r_id refresh_token_fill
     token_merge (\<lambda>r. r_expiresAt r \<noteq> None) refresh_tokens_ok"

text \<open>No stored row has the new row's value in a unique column.\<close>

definition no_clash :: "('e \<Rightarrow> string option) \<Rightarrow> 'e list \<Rightarrow> 'e \<Rightarrow> bool" where
  "no_clash c rows e \<longleftrightarrow> c e = None \<or> list_all (\<lambda>r. c r \<noteq> c e) rows"

definition user_insertable :: "user list \<Rightarrow> user \<Rightarrow> bool" where
  "user_insertable rows u \<longleftrightarrow> no_clash u_username rows u \<and> no_clash u_email rows u
     \<and> no_clash u_walletAddress rows u"

definition tip_insertable :: "tip list \<Rightarrow> tip \<Rightarrow> bool" where
  "tip_insertable rows t \<longleftrightarrow> no_clash t_transactionHash rows t
     \<and> no_clash t_withdrawalTransactionHash rows t"

definition token_insertable :: "refresh_token list \<Rightarrow> refresh_token \<Rightarrow> bool" where
  "token_insertable rows r \<longleftrightarrow> no_clash (\<lambda>r. Some (r_token r)) rows r"

abbreviation users_available :: "(user_where, user) repository_ops \<Rightarrow> bool" where
  "users_available R \<equiv> available_repository R user_matches user_view any_order u_id user_fill
     user_merge (\<lambda>_. True) users_ok user_insertable"

abbreviation tips_available :: "(tip_where, tip) repository_ops \<Rightarrow> bool" where
  "tips_available R \<equiv> available_repository R tip_matches view_all (order_by tip_col_le) t_id tip_fill
     tip_merge (\<lambda>t. fits_decimal (t_amount t)) tips_ok tip_insertable"

abbreviation notifications_available :: "(notification_where, notification) repository_ops \<Rightarrow> bool" where
  "notifications_available R \<equiv> available_repository R notification_matches view_all
     (order_by notification_col_le) n_id notification_fill notification_merge (\<lambda>_. True)
     notifications_ok (\<lambda>_ _. True)"

abbreviation tokens_available :: "(token_where, refresh_token) repository_ops \<Rightarrow> bool" where
  "tokens_available R \<equiv> available_repository R token_matches view_all any_order r_id
     refresh_token_fill token_merge (\<lambda>r. r_expiresAt r \<noteq> None) refresh_tokens_ok token_insertable"

lemma unique_col_snoc:
  "unique_col c rows \<Longrightarrow> no_clash c rows e \<Longrightarrow> c e' = c e \<Longrightarrow> unique_col c (rows @ [e'])"
  by (auto simp: unique_col_def no_clash_def list_all_iff)

lemma keyed_snoc:
  "keyed k rows \<Longrightarrow> k e' = Some i \<Longrightarrow> \<forall>r\<in>set rows. k r \<noteq> Some i \<Longrightarrow> keyed k (rows @ [e'])"
  by (auto simp: keyed_def)

interpretation users_tbl: available_repository users_table user_matches user_view any_order u_id
  user_fill user_merge "\<lambda>_. True" users_ok user_insertable
  unfolding users_table_def
  by (rule table_available)
    (auto simp: total_preorder_any users_ok_def user_insertable_def user_fill_def
      intro: keyed_snoc unique_col_snoc)

interpretation tips_tbl: available_repository tips_table tip_matches view_all
  "order_by tip_col_le" t_id tip_fill tip_merge "\<lambda>t. fits_decimal (t_amount t)" tips_ok tip_insertable
  unfolding tips_table_def
  by (rule table_available)
    (auto simp: total_preorder_tip tips_ok_def tip_insertable_def tip_fill_def
      intro: keyed_snoc unique_col_snoc)

interpretation notifications_tbl: available_repository notifications_table notification_matches
  view_all "order_by notification_col_le" n_id notification_fill notification_merge "\<lambda>_. True"
  notifications_ok "\<lambda>_ _. True"
  unfolding notifications_table_def
  by (rule table_available)
    (auto simp: total_preorder_notification notifications_ok_def notification_fill_def
      intro: keyed_snoc)

interpretation tokens_tbl: available_repository tokens_table token_matches view_all any_order r_id
  refresh_token_fill token_merge "\<lambda>r. r_expiresAt r \<noteq> None" refresh_tokens_ok token_insertable
  unfolding tokens_table_def
  by (rule table_available)
    (auto simp: total_preorder_any refresh_tokens_ok_def token_insertable_def refresh_token_fill_def
      intro: keyed_snoc unique_col_snoc)

text \<open>The contracts as facts about the tables, for the witnesses of properties that assume them.\<close>

lemmas table_contracts =
  users_tbl.repository_axioms tips_tbl.repository_axioms notifications_tbl.repository_axioms
  tokens_tbl.repository_axioms users_tbl.available_repository_axioms
  tips_tbl.available_repository_axioms notifications_tbl.available_repository_axioms
  tokens_tbl.available_repository_axioms

text \<open>Evaluation of a table's operations on concrete rows.\<close>

lemmas table_eval =
  users_table_def tips_table_def notifications_table_def tokens_table_def table_def table_save_def
  selected_def selects_def sort_by_def take_from_def skip_from_def fresh_key_def
  user_matches_def tip_matches_def notification_matches_def token_matches_def
  any_user_def any_tip_def any_notification_def any_token_def query_of_def
  user_view_def user_fill_def tip_fill_def notification_fill_def refresh_token_fill_def
  user_merge_def tip_merge_def notification_merge_def token_merge_def
  users_ok_def tips_ok_def notifications_ok_def refresh_tokens_ok_def keyed_def unique_col_def Let_def

end
