(* ===== verification/Database.thy ===== *)
theory Database
  imports Tables
begin

text \<open>
  The database as the services see it, one list of rows per table, and the steps by which a handler
  reads or writes one table through its repository. A rejected query leaves the rows as they are.
\<close>

record database =
  users_rows :: "user list"
  tips_rows :: "tip list"
  notifications_rows :: "notification list"
  tokens_rows :: "refresh_token list"

definition read_users :: "(user list \<Rightarrow> string + 'a) \<Rightarrow> ('z database_scheme, 'a) op" where
  "read_users f = (\<lambda>s. (from_db (f (users_rows s)), s))"

definition read_tips :: "(tip list \<Rightarrow> string + 'a) \<Rightarrow> ('z database_scheme, 'a) op" where
  "read_tips f = (\<lambda>s. (from_db (f (tips_rows s)), s))"

definition read_notifications :: "(notification list \<Rightarrow> string + 'a) \<Rightarrow> ('z database_scheme, 'a) op" where
  "read_notifications f = (\<lambda>s. (from_db (f (notifications_rows s)), s))"

definition read_tokens :: "(refresh_token list \<Rightarrow> string + 'a) \<Rightarrow> ('z database_scheme, 'a) op" where
  "read_tokens f = (\<lambda>s. (from_db (f (tokens_rows s)), s))"

definition write_users :: "(user list \<Rightarrow> string + 'a \<times> user list) \<Rightarrow> ('z database_scheme, 'a) op" where
  "write_users f = (\<lambda>s. case f (users_rows s) of
      Inl m \<Rightarrow> (Inl (JsError m), s) | Inr (x, rows) \<Rightarrow> (Inr x, s\<lparr>users_rows := rows\<rparr>))"

definition write_tips :: "(tip list \<Rightarrow> string + 'a \<times> tip list) \<Rightarrow> ('z database_scheme, 'a) op" where
  "write_tips f = (\<lambda>s. case f (tips_rows s) of
      Inl m \<Rightarrow> (Inl (JsError m), s) | Inr (x, rows) \<Rightarrow> (Inr x, s\<lparr>tips_rows := rows\<rparr>))"

definition write_notifications :: "(notification list \<Rightarrow> string + 'a \<times> notification list) \<Rightarrow> ('z database_scheme, 'a) op" where
  "write_notifications f = (\<lambda>s. case f (notifications_rows s) of
      Inl m \<Rightarrow> (Inl (JsError m), s) | Inr (x, rows) \<Rightarrow> (Inr x, s\<lparr>notifications_rows := rows\<rparr>))"

definition write_tokens :: "(refresh_token list \<Rightarrow> string + 'a \<times> refresh_token list) \<Rightarrow> ('z database_scheme, 'a) op" where
  "write_tokens f = (\<lambda>s. case f (tokens_rows s) of
      Inl m \<Rightarrow> (Inl (JsError m), s) | Inr (x, rows) \<Rightarrow> (Inr x, s\<lparr>tokens_rows := rows\<rparr>))"

text \<open>An \<open>update\<close> returns no row.\<close>

definition no_result :: "('e list \<Rightarrow> string + 'e list) \<Rightarrow> 'e list \<Rightarrow> string + unit \<times> 'e list" where
  "no_result f rows = map_sum id (Pair ()) (f rows)"

lemma no_result_Inr_iff [simp]: "no_result f rows = Inr (x, rows') \<longleftrightarrow> f rows = Inr rows'"
  by (cases "f rows") (auto simp: no_result_def)

lemma read_apply [op_simps]:
  "read_users fu s = (from_db (fu (users_rows s)), s)"
  "read_tips ft s = (from_db (ft (tips_rows s)), s)"
  "read_notifications fn s = (from_db (fn (notifications_rows s)), s)"
  "read_tokens fr s = (from_db (fr (tokens_rows s)), s)"
  by (simp_all add: read_users_def read_tips_def read_notifications_def read_tokens_def)

lemma andThen_read [op_simps]:
  "andThen (read_users fu) g s =
     (case fu (users_rows s) of Inl m \<Rightarrow> (Inl (JsError m), s) | Inr x \<Rightarrow> g x s)"
  "andThen (read_tips ft) h s =
     (case ft (tips_rows s) of Inl m \<Rightarrow> (Inl (JsError m), s) | Inr x \<Rightarrow> h x s)"
  "andThen (read_notifications fn) i s =
     (case fn (notifications_rows s) of Inl m \<Rightarrow> (Inl (JsError m), s) | Inr x \<Rightarrow> i x s)"
  "andThen (read_tokens fr) j s =
     (case fr (tokens_rows s) of Inl m \<Rightarrow> (Inl (JsError m), s) | Inr x \<Rightarrow> j x s)"
  by (simp_all add: andThen_def op_simps split: sum.splits)

lemma write_users_Inr_iff:
  "write_users f s = (Inr x, s') \<longleftrightarrow>
     (\<exists>rows. f (users_rows s) = Inr (x, rows) \<and> s' = s\<lparr>users_rows := rows\<rparr>)"
  by (auto simp: write_users_def split: sum.splits)

lemma write_tips_Inr_iff:
  "write_tips f s = (Inr x, s') \<longleftrightarrow>
     (\<exists>rows. f (tips_rows s) = Inr (x, rows) \<and> s' = s\<lparr>tips_rows := rows\<rparr>)"
  by (auto simp: write_tips_def split: sum.splits)

lemma write_notifications_Inr_iff:
  "write_notifications f s = (Inr x, s') \<longleftrightarrow>
     (\<exists>rows. f (notifications_rows s) = Inr (x, rows) \<and> s' = s\<lparr>notifications_rows := rows\<rparr>)"
  by (auto simp: write_notifications_def split: sum.splits)

lemma write_tokens_Inr_iff:
  "write_tokens f s = (Inr x, s') \<longleftrightarrow>
     (\<exists>rows. f (tokens_rows s) = Inr (x, rows) \<and> s' = s\<lparr>tokens_rows := rows\<rparr>)"
  by (auto simp: write_tokens_def split: sum.splits)

lemmas write_Inr_iff =
  write_users_Inr_iff write_tips_Inr_iff write_notifications_Inr_iff write_tokens_Inr_iff

lemma write_Inl:
  "write_users fu s = (Inl e, s') \<Longrightarrow> s' = s"
  "write_tips ft s = (Inl e, s') \<Longrightarrow> s' = s"
  "write_notifications fn s = (Inl e, s') \<Longrightarrow> s' = s"
  "write_tokens fr s = (Inl e, s') \<Longrightarrow> s' = s"
  by (auto simp: write_users_def write_tips_def write_notifications_def write_tokens_def
      split: sum.splits)

lemmas write_defs = write_users_def write_tips_def write_notifications_def write_tokens_def

lemma preserves_read [preserves_intros]:
  "preserves I (read_users fu)" "preserves I (read_tips ft)"
  "preserves I (read_notifications fn)" "preserves I (read_tokens fr)"
  by (simp_all add: preserves_def op_simps)

lemma advances_read [advances_intros]:
  "preorder_rel R \<Longrightarrow> advances R (read_users fu)" "preorder_rel R \<Longrightarrow> advances R (read_tips ft)"
  "preorder_rel R \<Longrightarrow> advances R (read_notifications fn)" "preorder_rel R \<Longrightarrow> advances R (read_tokens fr)"
  by (simp_all add: advances_def preorder_rel_def reflp_def op_simps)

lemma advances_write:
  "preorder_rel R \<Longrightarrow> (\<And>s x rows. fu (users_rows s) = Inr (x, rows) \<Longrightarrow> R s (s\<lparr>users_rows := rows\<rparr>)) \<Longrightarrow>
   advances R (write_users fu)"
  "preorder_rel R \<Longrightarrow> (\<And>s x rows. ft (tips_rows s) = Inr (x, rows) \<Longrightarrow> R s (s\<lparr>tips_rows := rows\<rparr>)) \<Longrightarrow>
   advances R (write_tips ft)"
  "preorder_rel R \<Longrightarrow> (\<And>s x rows. fn (notifications_rows s) = Inr (x, rows) \<Longrightarrow>
     R s (s\<lparr>notifications_rows := rows\<rparr>)) \<Longrightarrow> advances R (write_notifications fn)"
  "preorder_rel R \<Longrightarrow> (\<And>s x rows. fr (tokens_rows s) = Inr (x, rows) \<Longrightarrow> R s (s\<lparr>tokens_rows := rows\<rparr>)) \<Longrightarrow>
   advances R (write_tokens fr)"
  by (auto simp: advances_def preorder_rel_def reflp_def write_defs split: sum.splits)

text \<open>What a write changes: its own table, by a successful query, or nothing.\<close>

lemma preserves_write_users:
  "(\<And>s x rows. I s \<Longrightarrow> f (users_rows s) = Inr (x, rows) \<Longrightarrow> I (s\<lparr>users_rows := rows\<rparr>)) \<Longrightarrow>
   preserves I (write_users f)"
  by (auto simp: preserves_def write_users_def split: sum.splits)

lemma preserves_write_tips:
  "(\<And>s x rows. I s \<Longrightarrow> f (tips_rows s) = Inr (x, rows) \<Longrightarrow> I (s\<lparr>tips_rows := rows\<rparr>)) \<Longrightarrow>
   preserves I (write_tips f)"
  by (auto simp: preserves_def write_tips_def split: sum.splits)

lemma preserves_write_notifications:
  "(\<And>s x rows. I s \<Longrightarrow> f (notifications_rows s) = Inr (x, rows) \<Longrightarrow> I (s\<lparr>notifications_rows := rows\<rparr>)) \<Longrightarrow>
   preserves I (write_notifications f)"
  by (auto simp: preserves_def write_notifications_def split: sum.splits)

lemma preserves_write_tokens:
  "(\<And>s x rows. I s \<Longrightarrow> f (tokens_rows s) = Inr (x, rows) \<Longrightarrow> I (s\<lparr>tokens_rows := rows\<rparr>)) \<Longrightarrow>
   preserves I (write_tokens f)"
  by (auto simp: preserves_def write_tokens_def split: sum.splits)

text \<open>\<open>usersRepository.findOne({ where })\<close>, which the services share.\<close>

definition find_user :: "(user_where, user) repository_ops \<Rightarrow> user_where \<Rightarrow> ('z database_scheme, user option) op" where
  "find_user UR w = read_users (findOne UR (query_of [w]))"

lemma selects_user:
  "user_matches (any_user\<lparr>uw_id := Some i\<rparr>) u \<longleftrightarrow> u_id u = Some i"
  "user_matches (any_user\<lparr>uw_email := Some e\<rparr>) u \<longleftrightarrow> u_email u = Some e"
  "user_matches (any_user\<lparr>uw_username := Some n\<rparr>) u \<longleftrightarrow> u_username u = Some n"
  "user_matches (any_user\<lparr>uw_walletAddress := Some w\<rparr>) u \<longleftrightarrow> u_walletAddress u = Some w"
  "selects user_matches ((query_of [any_user\<lparr>uw_email := Some e\<rparr>])\<lparr>fo_select := c\<rparr>) u \<longleftrightarrow> u_email u = Some e"
  by (auto simp: user_matches_def any_user_def selects_def)

text \<open>Every table satisfies its constraints.\<close>

definition database_ok :: "'z database_scheme \<Rightarrow> bool" where
  "database_ok s \<longleftrightarrow> users_ok (users_rows s) \<and> tips_ok (tips_rows s)
     \<and> notifications_ok (notifications_rows s) \<and> refresh_tokens_ok (tokens_rows s)"

definition empty_database :: database where
  "empty_database = \<lparr>users_rows = [], tips_rows = [], notifications_rows = [], tokens_rows = []\<rparr>"

lemma database_ok_empty: "database_ok empty_database"
  by (simp add: database_ok_def empty_database_def table_eval)

lemma database_ok_write_users:
  "users_contract UR \<Longrightarrow> preserves database_ok (write_users (saveRow UR now u))"
  by (rule preserves_write_users) (auto simp: database_ok_def dest: repository.save_constraint)

lemma database_ok_write_tips:
  "tips_contract TR \<Longrightarrow> preserves database_ok (write_tips (saveRow TR now t))"
  by (rule preserves_write_tips) (auto simp: database_ok_def dest: repository.save_constraint)

lemma database_ok_write_notifications:
  "notifications_contract NR \<Longrightarrow> preserves database_ok (write_notifications (saveRow NR now n))"
  by (rule preserves_write_notifications) (auto simp: database_ok_def dest: repository.save_constraint)

lemma database_ok_write_tokens:
  "tokens_contract RR \<Longrightarrow> preserves database_ok (write_tokens (saveRow RR now r))"
  by (rule preserves_write_tokens) (auto simp: database_ok_def dest: repository.save_constraint)

lemma database_ok_update_tokens:
  "tokens_contract RR \<Longrightarrow> preserves database_ok (write_tokens (no_result (updateRows RR q f)))"
  by (rule preserves_write_tokens) (auto simp: database_ok_def dest: repository.update_constraint)

end
