(* ===== verification/Auth.thy ===== *)
theory Auth
  imports Database
begin

text \<open>
  Authentication (\<open>src/src/auth\<close>): \<open>AuthService\<close>, its controller, the two Passport strategies
  and \<open>RolesGuard\<close>, on a repository \<open>UR\<close> of users and a repository \<open>RR\<close> of refresh tokens.
  Signing of access tokens, the password hash and its comparison, and the random bytes are
  arguments; a handler reads the clock once, \<open>now\<close> in milliseconds, and runs in UTC.
\<close>

section \<open>Configuration and tokens\<close>

record auth_config =
  accessTokenExpiresIn :: string
  refreshTokenExpiresInDays :: jsnum

text \<open>The constructor: the two environment variables with their defaults.\<close>

definition auth_config_of :: "string option \<Rightarrow> string option \<Rightarrow> auth_config" where
  "auth_config_of access_expiration refresh_days =
     \<lparr>accessTokenExpiresIn = str_or access_expiration ''15m'',
      refreshTokenExpiresInDays = parseInt (str_or refresh_days ''30'')\<rparr>"

text \<open>The match of \<open>/^(\d+)([smhd])$/\<close>, split into its two groups.\<close>

definition match_expiry :: "string \<Rightarrow> (string \<times> char) option" where
  "match_expiry e =
     (let ds = takeWhile is_digit e
      in case dropWhile is_digit e of
          [c] \<Rightarrow> if ds \<noteq> '''' \<and> c \<in> {CHR ''s'', CHR ''m'', CHR ''h'', CHR ''d''} then Some (ds, c) else None
        | _ \<Rightarrow> None)"

definition parseExpiresIn :: "string \<Rightarrow> jsnum" where
  "parseExpiresIn expiresIn =
     (case match_expiry expiresIn of
        None \<Rightarrow> Fin 900
      | Some (digits, unit) \<Rightarrow>
          (let v = parseInt digits
           in if unit = CHR ''s'' then v
              else if unit = CHR ''m'' then js_mul v (Fin 60)
              else if unit = CHR ''h'' then js_mul v (Fin 3600)
              else if unit = CHR ''d'' then js_mul v (Fin 86400)
              else Fin 900))"

text \<open>The payload of an access token.\<close>

record claims =
  c_sub :: "string option"
  c_role :: "user_role option"
  c_authMethod :: "auth_method option"

type_synonym signer = "claims \<Rightarrow> string \<Rightarrow> string + string"

record auth_response =
  access_token :: string
  refresh_token :: string
  expires_in :: jsnum
  response_user :: jsval

definition opt_value :: "string option \<Rightarrow> jsval" where
  "opt_value x = (case x of None \<Rightarrow> JNull | Some v \<Rightarrow> JString v)"

definition createRefreshToken :: "(token_where, refresh_token) repository_ops \<Rightarrow> auth_config \<Rightarrow> int \<Rightarrow>
    string \<Rightarrow> string option \<Rightarrow> ('z database_scheme, string) op" where
  "createRefreshToken RR cfg now random_hex userId =
     (let expiresAt = add_days now (refreshTokenExpiresInDays cfg)
      in case userId of
          None \<Rightarrow> throw (JsError ''null value in column user_id violates not-null constraint'')
        | Some u \<Rightarrow> andThen
            (write_tokens (saveRow RR now \<lparr>r_id = None, r_userId = u, r_token = random_hex,
               r_expiresAt = expiresAt, r_isRevoked = None, r_createdAt = None\<rparr>))
            (\<lambda>_. return_op random_hex))"

section \<open>AuthService\<close>

text \<open>\<open>save\<close> of a user runs its \<open>BeforeInsert\<close> hook first.\<close>

definition save_user :: "(user_where, user) repository_ops \<Rightarrow> int \<Rightarrow> user \<Rightarrow> ('z database_scheme, user) op" where
  "save_user UR now u =
     andThen (lift_result (validateAuthMethod u)) (\<lambda>_. write_users (saveRow UR now u))"

text \<open>The entity a first wallet login creates.\<close>

definition stellar_user :: "string \<Rightarrow> user" where
  "stellar_user walletAddress = new_user
     \<lparr>u_walletAddress := Some walletAddress,
      u_username := Some (''stellar_'' @ toLowerCase (slice_last 8 walletAddress)),
      u_displayName := Some (''Stellar User '' @ slice_last 4 walletAddress),
      u_authMethod := Some STELLAR, u_isActive := Some True\<rparr>"

definition validateStellarUser :: "(user_where, user) repository_ops \<Rightarrow> int \<Rightarrow> string \<Rightarrow>
    ('z database_scheme, user) op" where
  "validateStellarUser UR now walletAddress =
     (if \<not> startsWith walletAddress ''G'' \<or> length walletAddress \<noteq> 56
      then throw (Unauthorized ''Invalid Stellar wallet address'')
      else andThen (find_user UR (any_user\<lparr>uw_walletAddress := Some walletAddress\<rparr>))
       (\<lambda>found. case found of
          Some user \<Rightarrow> return_op user
        | None \<Rightarrow> save_user UR now (stellar_user walletAddress)))"

lemma stellar_user_simps [simp]:
  "u_id (stellar_user w) = None" "u_walletAddress (stellar_user w) = Some w"
  "u_email (stellar_user w) = None"
  "u_username (stellar_user w) = Some (''stellar_'' @ toLowerCase (slice_last 8 w))"
  by (simp_all add: stellar_user_def new_user_def)

definition login :: "(token_where, refresh_token) repository_ops \<Rightarrow> signer \<Rightarrow> auth_config \<Rightarrow> int \<Rightarrow>
    string \<Rightarrow> user \<Rightarrow> ('z database_scheme, auth_response) op" where
  "login RR sign cfg now random_hex user =
     andThen (lift_result (from_db (sign
        \<lparr>c_sub = u_id user, c_role = u_role user, c_authMethod = u_authMethod user\<rparr>
        (accessTokenExpiresIn cfg))))
     (\<lambda>accessToken. andThen (createRefreshToken RR cfg now random_hex (u_id user))
     (\<lambda>refreshToken. return_op
       \<lparr>access_token = accessToken, refresh_token = refreshToken,
        expires_in = parseExpiresIn (accessTokenExpiresIn cfg),
        response_user = JObject
          [(''id'', opt_value (u_id user)), (''username'', opt_value (u_username user)),
           (''displayName'', opt_value (u_displayName user)),
           (''walletAddress'', opt_value (u_walletAddress user)),
           (''authMethod'', opt_value (map_option auth_method_value (u_authMethod user))),
           (''role'', opt_value (map_option role_value (u_role user)))]\<rparr>))"

text \<open>The end \<open>signup\<close> and \<open>loginWithEmail\<close> share: the two tokens and the public fields.\<close>

definition email_session :: "(token_where, refresh_token) repository_ops \<Rightarrow> signer \<Rightarrow> auth_config \<Rightarrow> int \<Rightarrow>
    string \<Rightarrow> user \<Rightarrow> ('z database_scheme, auth_response) op" where
  "email_session RR sign cfg now random_hex user =
     andThen (lift_result (from_db (sign
        \<lparr>c_sub = u_id user, c_role = u_role user, c_authMethod = None\<rparr> (accessTokenExpiresIn cfg))))
     (\<lambda>accessToken. andThen (createRefreshToken RR cfg now random_hex (u_id user))
     (\<lambda>refreshToken. return_op
       \<lparr>access_token = accessToken, refresh_token = refreshToken,
        expires_in = parseExpiresIn (accessTokenExpiresIn cfg),
        response_user = JObject
          [(''id'', opt_value (u_id user)), (''username'', opt_value (u_username user)),
           (''displayName'', opt_value (u_displayName user)), (''email'', opt_value (u_email user)),
           (''role'', opt_value (map_option role_value (u_role user)))]\<rparr>))"

definition signup :: "(user_where, user) repository_ops \<Rightarrow> (token_where, refresh_token) repository_ops \<Rightarrow>
    (string \<Rightarrow> nat \<Rightarrow> string) \<Rightarrow> signer \<Rightarrow> auth_config \<Rightarrow> int \<Rightarrow> string \<Rightarrow>
    string \<Rightarrow> string \<Rightarrow> string \<Rightarrow> string option \<Rightarrow> ('z database_scheme, auth_response) op" where
  "signup UR RR bcrypt_hash sign cfg now random_hex email password username displayName =
     andThen (find_user UR (any_user\<lparr>uw_email := Some email\<rparr>))
     (\<lambda>existingEmail. andThen (throw_if (existingEmail \<noteq> None) (Conflict ''Email already in use''))
     (\<lambda>_. andThen (find_user UR (any_user\<lparr>uw_username := Some username\<rparr>))
     (\<lambda>existingUsername. andThen (throw_if (existingUsername \<noteq> None) (Conflict ''Username already taken''))
     (\<lambda>_. andThen (save_user UR now (new_user
        \<lparr>u_email := Some email, u_password := Some (bcrypt_hash password 10),
         u_username := Some username, u_displayName := Some (str_or displayName username),
         u_authMethod := Some EMAIL, u_role := Some USER, u_isActive := Some True\<rparr>))
     (\<lambda>user. email_session RR sign cfg now random_hex user)))))"

definition login_columns :: "string list" where
  "login_columns = [''id'', ''email'', ''password'', ''username'', ''displayName'', ''role'',
     ''authMethod'', ''isActive'']"

definition loginWithEmail :: "(user_where, user) repository_ops \<Rightarrow> (token_where, refresh_token) repository_ops \<Rightarrow>
    (string \<Rightarrow> string \<Rightarrow> bool) \<Rightarrow> signer \<Rightarrow> auth_config \<Rightarrow> int \<Rightarrow> string \<Rightarrow>
    string \<Rightarrow> string \<Rightarrow> ('z database_scheme, auth_response) op" where
  "loginWithEmail UR RR bcrypt_compare sign cfg now random_hex email password =
     andThen (read_users (findOne UR
        ((query_of [any_user\<lparr>uw_email := Some email\<rparr>])\<lparr>fo_select := Some login_columns\<rparr>)))
     (\<lambda>found. case found of
        None \<Rightarrow> throw (Unauthorized ''Invalid credentials'')
      | Some user \<Rightarrow> (case or_null (u_password user) of
          None \<Rightarrow> throw (Unauthorized ''Invalid credentials'')
        | Some hashed \<Rightarrow>
            andThen (throw_if (\<not> bcrypt_compare password hashed) (Unauthorized ''Invalid credentials''))
            (\<lambda>_. andThen (throw_if (u_isActive user \<noteq> Some True) (Unauthorized ''Account is deactivated''))
            (\<lambda>_. email_session RR sign cfg now random_hex user))))"

text \<open>
  \<open>refreshToken\<close>, in the two halves a second request can run between: the lookup with its
  checks (\<open>relations: ['user']\<close> loads the row of the user's key), and the rotation.
\<close>

definition refresh_lookup :: "(user_where, user) repository_ops \<Rightarrow> (token_where, refresh_token) repository_ops \<Rightarrow>
    int \<Rightarrow> string \<Rightarrow> ('z database_scheme, refresh_token \<times> user) op" where
  "refresh_lookup UR RR now token =
     andThen (read_tokens (findOne RR
        (query_of [any_token\<lparr>rw_token := Some token, rw_isRevoked := Some False\<rparr>])))
     (\<lambda>found. case found of
        None \<Rightarrow> throw (Unauthorized ''Invalid refresh token'')
      | Some row \<Rightarrow> andThen (find_user UR (any_user\<lparr>uw_id := Some (r_userId row)\<rparr>))
         (\<lambda>owner. andThen (throw_if (case r_expiresAt row of None \<Rightarrow> False | Some t \<Rightarrow> now > t)
            (Unauthorized ''Refresh token has expired''))
         (\<lambda>_. case owner of
            None \<Rightarrow> throw (JsError ''Cannot read properties of null'')
          | Some user \<Rightarrow> andThen (throw_if (u_isActive user \<noteq> Some True)
              (Unauthorized ''Account is deactivated''))
            (\<lambda>_. return_op (row, user)))))"

definition refresh_rotate :: "(token_where, refresh_token) repository_ops \<Rightarrow> signer \<Rightarrow> auth_config \<Rightarrow> int \<Rightarrow>
    string \<Rightarrow> refresh_token \<times> user \<Rightarrow> ('z database_scheme, auth_response) op" where
  "refresh_rotate RR sign cfg now random_hex = (\<lambda>(row, user).
     case r_id row of
       None \<Rightarrow> throw (JsError ''Empty criteria(s) are not allowed for the update method.'')
     | Some i \<Rightarrow>
         andThen (write_tokens (no_result (updateRows RR (query_of [any_token\<lparr>rw_id := Some i\<rparr>])
            (\<lambda>r. r\<lparr>r_isRevoked := Some True\<rparr>))))
         (\<lambda>_. andThen (lift_result (from_db (sign
            \<lparr>c_sub = u_id user, c_role = u_role user, c_authMethod = None\<rparr> (accessTokenExpiresIn cfg))))
         (\<lambda>newAccessToken. andThen (createRefreshToken RR cfg now random_hex (u_id user))
         (\<lambda>newRefreshToken. return_op
           \<lparr>access_token = newAccessToken, refresh_token = newRefreshToken,
            expires_in = parseExpiresIn (accessTokenExpiresIn cfg), response_user = JUndefined\<rparr>))))"

definition refreshToken :: "(user_where, user) repository_ops \<Rightarrow> (token_where, refresh_token) repository_ops \<Rightarrow>
    signer \<Rightarrow> auth_config \<Rightarrow> int \<Rightarrow> string \<Rightarrow> string \<Rightarrow> ('z database_scheme, auth_response) op" where
  "refreshToken UR RR sign cfg now random_hex token =
     andThen (refresh_lookup UR RR now token) (refresh_rotate RR sign cfg now random_hex)"

definition revokeUserRefreshTokens :: "(token_where, refresh_token) repository_ops \<Rightarrow> string \<Rightarrow>
    ('z database_scheme, unit) op" where
  "revokeUserRefreshTokens RR userId =
     write_tokens (no_result (updateRows RR
       (query_of [any_token\<lparr>rw_userId := Some userId, rw_isRevoked := Some False\<rparr>])
       (\<lambda>r. r\<lparr>r_isRevoked := Some True\<rparr>)))"

text \<open>\<open>random\<close> is the result of \<open>Math.random()\<close>, in \<open>[0, 1)\<close>.\<close>

definition newline :: string where
  "newline = [char_of (10 :: nat)]"

definition getNonce :: "rat \<Rightarrow> string \<Rightarrow> string \<times> string" where
  "getNonce random walletAddress =
     (let nonce = show_nat (nat \<lfloor>random * 1000000\<rfloor>)
      in (nonce, ''StellarTip Authentication'' @ newline @ newline @ ''Wallet: '' @ walletAddress
           @ newline @ ''Nonce: '' @ nonce @ newline @ newline
           @ ''Sign this message to authenticate with StellarTip.''))"

section \<open>AuthController\<close>

definition loginStellar :: "(user_where, user) repository_ops \<Rightarrow> (token_where, refresh_token) repository_ops \<Rightarrow>
    signer \<Rightarrow> auth_config \<Rightarrow> int \<Rightarrow> string \<Rightarrow> jsval \<Rightarrow> ('z database_scheme, auth_response) op" where
  "loginStellar UR RR sign cfg now random_hex walletAddress =
     (case walletAddress of
        JString w \<Rightarrow>
          if w = '''' then throw (HttpError 400 ''walletAddress is required'')
          else (let normalized = trim w
            in if \<not> startsWith normalized ''G'' \<or> length normalized < 56
               then throw (HttpError 400 ''Invalid Stellar wallet address format'')
               else andThen (validateStellarUser UR now normalized) (login RR sign cfg now random_hex))
      | _ \<Rightarrow> throw (HttpError 400 ''walletAddress is required''))"

definition getNonce_route :: "rat \<Rightarrow> string option \<Rightarrow> ('s, string \<times> string) op" where
  "getNonce_route random walletAddress =
     (case or_null walletAddress of
        None \<Rightarrow> throw (HttpError 400 ''walletAddress is required'')
      | Some w \<Rightarrow> return_op (getNonce random w))"

definition signup_route :: "(user_where, user) repository_ops \<Rightarrow> (token_where, refresh_token) repository_ops \<Rightarrow>
    (string \<Rightarrow> nat \<Rightarrow> string) \<Rightarrow> signer \<Rightarrow> auth_config \<Rightarrow> int \<Rightarrow> string \<Rightarrow>
    string \<Rightarrow> string \<Rightarrow> string \<Rightarrow> string option \<Rightarrow> ('z database_scheme, auth_response) op" where
  "signup_route = signup"

definition login_route :: "(user_where, user) repository_ops \<Rightarrow> (token_where, refresh_token) repository_ops \<Rightarrow>
    (string \<Rightarrow> string \<Rightarrow> bool) \<Rightarrow> signer \<Rightarrow> auth_config \<Rightarrow> int \<Rightarrow> string \<Rightarrow>
    string \<Rightarrow> string \<Rightarrow> ('z database_scheme, auth_response) op" where
  "login_route = loginWithEmail"

definition refresh_route :: "(user_where, user) repository_ops \<Rightarrow> (token_where, refresh_token) repository_ops \<Rightarrow>
    signer \<Rightarrow> auth_config \<Rightarrow> int \<Rightarrow> string \<Rightarrow> string option \<Rightarrow> ('z database_scheme, auth_response) op" where
  "refresh_route UR RR sign cfg now random_hex token =
     (case or_null token of
        None \<Rightarrow> throw (HttpError 400 ''refresh_token is required'')
      | Some t \<Rightarrow> refreshToken UR RR sign cfg now random_hex t)"

section \<open>Strategies and the roles guard\<close>

text \<open>\<open>JwtStrategy.validate\<close>, on the payload of a token whose signature and expiry Passport checked.\<close>

definition jwt_validate :: "(user_where, user) repository_ops \<Rightarrow> claims \<Rightarrow> ('z database_scheme, user) op" where
  "jwt_validate UR payload =
     andThen (find_user UR (any_user\<lparr>uw_id := c_sub payload\<rparr>))
     (\<lambda>found. case found of
        None \<Rightarrow> throw (Unauthorized ''Unauthorized'')
      | Some user \<Rightarrow> andThen (throw_if (u_isActive user \<noteq> Some True) (Unauthorized ''Unauthorized''))
          (\<lambda>_. return_op user))"

text \<open>
  \<open>StellarStrategy\<close>: \<open>keypair_verify address message signature\<close> is the SDK's verification, which
  throws (\<open>Inl\<close>) on an address it cannot decode.
\<close>

definition verifyStellarSignature :: "(string \<Rightarrow> string \<Rightarrow> string \<Rightarrow> string + bool) \<Rightarrow> string \<Rightarrow> string \<Rightarrow>
    string \<Rightarrow> bool" where
  "verifyStellarSignature keypair_verify address message signature =
     (if signature = '''' then False
      else case keypair_verify address message signature of Inl _ \<Rightarrow> False | Inr b \<Rightarrow> b)"

definition stellar_validate :: "(user_where, user) repository_ops \<Rightarrow>
    (string \<Rightarrow> string \<Rightarrow> string \<Rightarrow> string + bool) \<Rightarrow> int \<Rightarrow> string option \<Rightarrow> string option \<Rightarrow>
    string option \<Rightarrow> ('z database_scheme, user) op" where
  "stellar_validate UR keypair_verify now walletAddress message signature =
     (case (or_null walletAddress, or_null message, or_null signature) of
        (Some w, Some m, Some sig) \<Rightarrow>
          andThen (throw_if (\<not> verifyStellarSignature keypair_verify w m sig)
             (Unauthorized ''Invalid signature''))
          (\<lambda>_. validateStellarUser UR now w)
      | _ \<Rightarrow> throw (Unauthorized ''Missing required fields''))"

text \<open>\<open>RolesGuard.canActivate\<close>, from the roles the route is decorated with and the request's user.\<close>

definition canActivate :: "string list option \<Rightarrow> user option \<Rightarrow> bool result" where
  "canActivate requiredRoles request_user =
     (case requiredRoles of
        None \<Rightarrow> Inr True
      | Some roles \<Rightarrow>
          if roles = [] then Inr True
          else (case request_user of
              None \<Rightarrow> Inl (Forbidden ''You do not have permission to access this resource'')
            | Some user \<Rightarrow>
                if \<not> (case u_role user of None \<Rightarrow> False | Some r \<Rightarrow> role_value r \<in> set roles)
                then Inl (Forbidden ''You do not have permission to access this resource'')
                else Inr True))"

end
