(* ===== verification/Sessions.thy ===== *)
theory Sessions
  imports Auth
begin

text \<open>
  The life of refresh tokens: what issuing, rotating and revoking do to the table, the contract
  \<open>token_issuer\<close> of the three ways to open a session, the step relation of all of them, and the
  properties of \<open>AuthService\<close> and its guards.
\<close>

section \<open>How the token table evolves\<close>

text \<open>No row disappears or changes identity, and a revoked row stays revoked.\<close>

definition tokens_evolve :: "'z database_scheme \<Rightarrow> 'z database_scheme \<Rightarrow> bool" where
  "tokens_evolve s s' \<longleftrightarrow> (\<forall>r\<in>set (tokens_rows s). \<exists>r'\<in>set (tokens_rows s').
     r_id r' = r_id r \<and> r_token r' = r_token r \<and> r_userId r' = r_userId r
     \<and> r_expiresAt r' = r_expiresAt r \<and> (r_isRevoked r = Some True \<longrightarrow> r_isRevoked r' = Some True))"

lemma tokens_evolve_preorder [simp]: "preorder_rel tokens_evolve"
proof -
  have "tokens_evolve a c" if ab: "tokens_evolve a b" and bc: "tokens_evolve b c" for a b c :: "'z database_scheme"
    unfolding tokens_evolve_def
  proof
    fix r assume "r \<in> set (tokens_rows a)"
    then obtain r1 where r1: "r1 \<in> set (tokens_rows b)" "r_id r1 = r_id r" "r_token r1 = r_token r"
      "r_userId r1 = r_userId r" "r_expiresAt r1 = r_expiresAt r"
      "r_isRevoked r = Some True \<longrightarrow> r_isRevoked r1 = Some True"
      using ab by (auto simp: tokens_evolve_def)
    then show "\<exists>r'\<in>set (tokens_rows c). r_id r' = r_id r \<and> r_token r' = r_token r \<and> r_userId r' = r_userId r
     \<and> r_expiresAt r' = r_expiresAt r \<and> (r_isRevoked r = Some True \<longrightarrow> r_isRevoked r' = Some True)"
      using bc unfolding tokens_evolve_def by (metis r1)
  qed
  then show ?thesis
    by (auto simp: preorder_rel_def tokens_evolve_def [of s s for s] intro!: reflpI transpI)
qed

lemma tokens_evolve_same: "tokens_rows s' = tokens_rows s \<Longrightarrow> tokens_evolve s s'"
  by (auto simp: tokens_evolve_def)

lemma tokens_evolve_grow: "set (tokens_rows s) \<subseteq> set (tokens_rows s') \<Longrightarrow> tokens_evolve s s'"
  by (auto simp: tokens_evolve_def)

lemma tokens_evolve_revoke:
  assumes "mset rows = image_mset (\<lambda>r. if P r then r\<lparr>r_isRevoked := Some True\<rparr> else r) (mset (tokens_rows s))"
  shows "tokens_evolve s (s\<lparr>tokens_rows := rows\<rparr>)"
proof -
  have rows: "set rows = (\<lambda>r. if P r then r\<lparr>r_isRevoked := Some True\<rparr> else r) ` set (tokens_rows s)"
    using mset_eq_setD [OF assms [folded mset_map]] by simp
  show ?thesis unfolding tokens_evolve_def
  proof
    fix r assume "r \<in> set (tokens_rows s)"
    then have "(if P r then r\<lparr>r_isRevoked := Some True\<rparr> else r) \<in> set rows"
      unfolding rows by (rule imageI)
    then show "\<exists>r'\<in>set (tokens_rows (s\<lparr>tokens_rows := rows\<rparr>)). r_id r' = r_id r
      \<and> r_token r' = r_token r \<and> r_userId r' = r_userId r
      \<and> r_expiresAt r' = r_expiresAt r \<and> (r_isRevoked r = Some True \<longrightarrow> r_isRevoked r' = Some True)"
      by (intro bexI [of _ "if P r then r\<lparr>r_isRevoked := Some True\<rparr> else r"]) simp_all
  qed
qed

section \<open>Issuing a token\<close>

text \<open>
  What the sessions rely on: issuing adds one unrevoked row for the user, with the token that is
  returned, or fails and changes nothing.
\<close>

locale token_issuer =
  fixes issue :: "string option \<Rightarrow> ('z database_scheme, string) op"
  assumes issue_Inr: "issue u s = (Inr t, s') \<Longrightarrow> \<exists>v rows r. u = Some v
      \<and> s' = s\<lparr>tokens_rows := rows\<rparr> \<and> mset rows = add_mset r (mset (tokens_rows s))
      \<and> r_userId r = v \<and> r_token r = t \<and> r_isRevoked r = Some False"
    and issue_Inl: "issue u s = (Inl e, s') \<Longrightarrow> s' = s"
    and issue_constraint: "issue u s = (r, s') \<Longrightarrow> refresh_tokens_ok (tokens_rows s) \<Longrightarrow>
      refresh_tokens_ok (tokens_rows s')"
begin

lemma issue_evolves: "advances tokens_evolve (issue u)"
proof (rule advancesI)
  fix s r s' assume run: "issue u s = (r, s')"
  show "tokens_evolve s s'"
  proof (cases r)
    case (Inl e)
    with run have "s' = s" by (auto dest: issue_Inl)
    then show ?thesis by (auto intro: tokens_evolve_same)
  next
    case (Inr t)
    then obtain rows r' where s': "s' = s\<lparr>tokens_rows := rows\<rparr>"
      and "mset rows = add_mset r' (mset (tokens_rows s))"
      using issue_Inr run by blast
    from mset_eq_setD [of rows "r' # tokens_rows s"] this(2)
    show ?thesis unfolding s' by (intro tokens_evolve_grow) auto
  qed
qed

lemma issue_ok: "preserves database_ok (issue u)"
proof (rule preservesI)
  fix s r s' assume ok: "database_ok s" and run: "issue u s = (r, s')"
  have "users_rows s' = users_rows s \<and> tips_rows s' = tips_rows s
    \<and> notifications_rows s' = notifications_rows s"
    using run by (cases r) (auto dest!: issue_Inr issue_Inl)
  then show "database_ok s'"
    using ok issue_constraint [OF run] by (simp add: database_ok_def)
qed

text \<open>The issued token is found by the lookup of the next refresh, and by nothing before it.\<close>

lemma issue_active:
  assumes "issue u s = (Inr t, s')"
  shows "\<exists>r\<in>set (tokens_rows s'). u = Some (r_userId r) \<and> r_token r = t \<and> r_isRevoked r = Some False"
proof -
  obtain v rows r where "u = Some v" "s' = s\<lparr>tokens_rows := rows\<rparr>"
    and m: "mset rows = add_mset r (mset (tokens_rows s))"
    and "r_userId r = v" "r_token r = t" "r_isRevoked r = Some False"
    using issue_Inr [OF assms] by blast
  moreover have "r \<in> set rows" using mset_eq_setD [of rows "r # tokens_rows s"] m by simp
  ultimately show ?thesis by auto
qed

end

locale auth_store =
    users: repository UR user_matches user_view any_order u_id user_fill user_merge "\<lambda>_. True" users_ok
  + tokens: repository RR token_matches view_all any_order r_id refresh_token_fill token_merge
      "\<lambda>r. r_expiresAt r \<noteq> None" refresh_tokens_ok
  for UR :: "(user_where, user) repository_ops" and RR :: "(token_where, refresh_token) repository_ops"
begin

lemma issues:
  assumes valid: "add_days now (refreshTokenExpiresInDays cfg) \<noteq> None"
  shows "token_issuer (createRefreshToken RR cfg now rnd)"
proof
  fix u s t and s' :: "'z database_scheme"
  assume run: "createRefreshToken RR cfg now rnd u s = (Inr t, s')"
  let ?r = "\<lambda>v. \<lparr>r_id = None, r_userId = v, r_token = rnd,
    r_expiresAt = add_days now (refreshTokenExpiresInDays cfg), r_isRevoked = None, r_createdAt = None\<rparr>"
  obtain v r rows where u: "u = Some v" and t: "t = rnd"
    and sv: "saveRow RR now (?r v) (tokens_rows s) = Inr (r, rows)" and s': "s' = s\<lparr>tokens_rows := rows\<rparr>"
    using run by (auto simp: createRefreshToken_def Let_def throw_apply return_op_apply write_Inr_iff
        split: option.splits elim!: andThen_InrE)
  obtain i where "r = refresh_token_fill i now (?r v)" and "mset rows = add_mset r (mset (tokens_rows s))"
    using tokens.save_insert [OF sv] valid by auto
  then show "\<exists>v rows r. u = Some v \<and> s' = s\<lparr>tokens_rows := rows\<rparr>
      \<and> mset rows = add_mset r (mset (tokens_rows s))
      \<and> r_userId r = v \<and> r_token r = t \<and> r_isRevoked r = Some False"
    using u t s' by (auto simp: refresh_token_fill_def)
next
  fix u s e and s' :: "'z database_scheme"
  assume "createRefreshToken RR cfg now rnd u s = (Inl e, s')"
  then show "s' = s"
    by (auto simp: createRefreshToken_def Let_def throw_apply return_op_apply write_Inl
        split: option.splits elim!: andThen_InlE)
next
  fix u s r and s' :: "'z database_scheme"
  assume "createRefreshToken RR cfg now rnd u s = (r, s')" and "refresh_tokens_ok (tokens_rows s)"
  then show "refresh_tokens_ok (tokens_rows s')"
    using tokens.save_constraint
    by (auto simp: createRefreshToken_def Let_def throw_apply andThen_def return_op_apply write_defs
        split: option.splits sum.splits prod.splits)
qed

end

interpretation auth_db: auth_store users_table tokens_table
  by unfold_locales

lemma default_lifetime: "add_days 1700000000000 (refreshTokenExpiresInDays (auth_config_of None None)) \<noteq> None"
proof -
  have "parseInt ''30'' = Fin 30"
    by (simp add: parseInt_def scan_sign_def trim_start_def is_space_def is_digit_def char_code_def
        digits_value_def digit_value_def to_number_small)
  then show ?thesis by (simp add: auth_config_of_def add_days_def)
qed

text \<open>The issuer of the default configuration, at an instant of 2023.\<close>

interpretation default_issuer: token_issuer
  "createRefreshToken tokens_table (auth_config_of None None) 1700000000000 rnd" for rnd
  by (rule auth_db.issues [OF default_lifetime])

section \<open>Looking a token up and rotating it\<close>

definition active_row :: "string \<Rightarrow> 'z database_scheme \<Rightarrow> bool" where
  "active_row t s \<longleftrightarrow> (\<exists>r\<in>set (tokens_rows s). r_token r = t \<and> r_isRevoked r = Some False)"

lemma selects_token:
  "token_matches (any_token\<lparr>rw_token := Some t, rw_isRevoked := Some False\<rparr>) r
     \<longleftrightarrow> r_token r = t \<and> r_isRevoked r = Some False"
  "token_matches (any_token\<lparr>rw_id := Some i\<rparr>) r \<longleftrightarrow> r_id r = Some i"
  "token_matches (any_token\<lparr>rw_userId := Some u, rw_isRevoked := Some False\<rparr>) r
     \<longleftrightarrow> r_userId r = u \<and> r_isRevoked r = Some False"
  by (auto simp: token_matches_def any_token_def)

lemma refresh_lookup_state: "refresh_lookup UR RR now t s = (r, s') \<Longrightarrow> s' = s"
  by (auto simp: refresh_lookup_def find_user_def op_simps split: sum.splits option.splits if_splits)

context auth_store
begin

lemma lookup_Inr:
  assumes "refresh_lookup UR RR now t s = (Inr (row, user), s')"
  shows "row \<in> set (tokens_rows s) \<and> r_token row = t \<and> r_isRevoked row = Some False
    \<and> (\<forall>x. r_expiresAt row = Some x \<longrightarrow> now \<le> x) \<and> u_id user = Some (r_userId row)
    \<and> u_isActive user = Some True
    \<and> (\<exists>u\<in>set (users_rows s). u_id u = Some (r_userId row) \<and> u_isActive u = Some True) \<and> s' = s"
proof -
  have f: "findOne RR (query_of [any_token\<lparr>rw_token := Some t, rw_isRevoked := Some False\<rparr>])
        (tokens_rows s) = Inr (Some row)"
    and g: "findOne UR (query_of [any_user\<lparr>uw_id := Some (r_userId row)\<rparr>]) (users_rows s) = Inr (Some user)"
    and "\<forall>x. r_expiresAt row = Some x \<longrightarrow> now \<le> x" "u_isActive user = Some True" "s' = s"
    using assms
    by (auto simp: refresh_lookup_def find_user_def op_simps split: sum.splits option.splits if_splits)
  moreover have "row \<in> set (tokens_rows s)" "r_token row = t" "r_isRevoked row = Some False"
    using tokens.find_one_Some [OF f] by (auto simp: selects_token)
  moreover obtain u where "u \<in> set (users_rows s)" "u_id u = Some (r_userId row)" "user = user_view None u"
    using users.find_one_Some [OF g] by (auto simp: selects_user)
  ultimately show ?thesis by (auto simp: user_view_def)
qed

text \<open>A token no unrevoked row has is not refreshed.\<close>

lemma lookup_inactive:
  assumes "\<not> active_row t s"
  shows "\<exists>e. refresh_lookup UR RR now t s = (Inl e, s)"
    and "\<exists>x. findOne RR (query_of [any_token\<lparr>rw_token := Some t, rw_isRevoked := Some False\<rparr>])
      (tokens_rows s) = Inr x \<Longrightarrow>
      refresh_lookup UR RR now t s = (Inl (Unauthorized ''Invalid refresh token''), s)"
proof -
  let ?f = "findOne RR (query_of [any_token\<lparr>rw_token := Some t, rw_isRevoked := Some False\<rparr>]) (tokens_rows s)"
  have "?f \<noteq> Inr (Some r)" for r
  proof
    assume "?f = Inr (Some r)"
    from tokens.find_one_Some [OF this] show False
      using assms by (auto simp: active_row_def selects_token)
  qed
  then show "\<exists>e. refresh_lookup UR RR now t s = (Inl e, s)"
    and "\<exists>x. ?f = Inr x \<Longrightarrow>
      refresh_lookup UR RR now t s = (Inl (Unauthorized ''Invalid refresh token''), s)"
    by (cases ?f; auto simp: refresh_lookup_def op_simps split: option.splits)+
qed

lemma revoke_row:
  assumes up: "updateRows RR (query_of [any_token\<lparr>rw_id := Some i\<rparr>])
      (\<lambda>r. r\<lparr>r_isRevoked := Some True\<rparr>) (tokens_rows s) = Inr rows"
    and ok: "refresh_tokens_ok (tokens_rows s)" and row: "row \<in> set (tokens_rows s)" "r_id row = Some i"
  shows "mset rows = add_mset (row\<lparr>r_isRevoked := Some True\<rparr>) (mset (tokens_rows s) - {#row#})"
    and "refresh_tokens_ok rows"
proof -
  have d: "distinct (map r_id (tokens_rows s))" using ok by (simp add: refresh_tokens_ok_def keyed_def)
  have "mset rows = image_mset (\<lambda>r. if r_id r = r_id row then r\<lparr>r_isRevoked := Some True\<rparr> else r)
      (mset (tokens_rows s))"
    using tokens.update_rows [OF up] row(2) by (simp add: selects_token)
  then show "mset rows = add_mset (row\<lparr>r_isRevoked := Some True\<rparr>) (mset (tokens_rows s) - {#row#})"
    using map_upd_by_key_mset [OF d row(1), of "\<lambda>r. r\<lparr>r_isRevoked := Some True\<rparr>"] by simp
  show "refresh_tokens_ok rows" using up ok by (rule tokens.update_constraint)
qed

lemma rotate_Inr:
  assumes run: "refresh_rotate RR sign cfg now rnd (row, user) s = (Inr resp, s')"
    and ok: "refresh_tokens_ok (tokens_rows s)" and row: "row \<in> set (tokens_rows s)"
    and valid: "add_days now (refreshTokenExpiresInDays cfg) \<noteq> None"
  shows "\<exists>rows new. s' = s\<lparr>tokens_rows := rows\<rparr>
    \<and> mset rows = add_mset new (add_mset (row\<lparr>r_isRevoked := Some True\<rparr>) (mset (tokens_rows s) - {#row#}))
    \<and> Some (r_userId new) = u_id user \<and> r_token new = rnd \<and> r_isRevoked new = Some False
    \<and> refresh_token resp = rnd \<and> refresh_tokens_ok rows"
proof -
  obtain i rows1 tok where i: "r_id row = Some i"
    and up: "updateRows RR (query_of [any_token\<lparr>rw_id := Some i\<rparr>])
      (\<lambda>r. r\<lparr>r_isRevoked := Some True\<rparr>) (tokens_rows s) = Inr rows1"
    and iss: "createRefreshToken RR cfg now rnd (u_id user) (s\<lparr>tokens_rows := rows1\<rparr>) = (Inr tok, s')"
    and resp: "refresh_token resp = tok"
    using run by (auto simp: refresh_rotate_def throw_apply return_op_apply lift_result_apply
        write_Inr_iff split: option.splits elim!: andThen_InrE)
  note rows1 = revoke_row [OF up ok row i]
  have "tok = rnd"
    using iss by (auto simp: createRefreshToken_def Let_def throw_apply return_op_apply
        split: option.splits elim!: andThen_InrE)
  moreover obtain v rows new where "u_id user = Some v" "s' = (s\<lparr>tokens_rows := rows1\<rparr>)\<lparr>tokens_rows := rows\<rparr>"
    "mset rows = add_mset new (mset rows1)" "r_userId new = v" "r_token new = tok" "r_isRevoked new = Some False"
    using token_issuer.issue_Inr [OF issues [OF valid] iss] by auto
  moreover have "refresh_tokens_ok (tokens_rows s')"
    using token_issuer.issue_constraint [OF issues [OF valid] iss] rows1(2) by simp
  ultimately show ?thesis using rows1(1) resp by (intro exI [of _ rows] exI [of _ new]) simp
qed

text \<open>After a rotation no unrevoked row carries the token presented.\<close>

lemma refresh_Inr:
  assumes run: "refreshToken UR RR sign cfg now rnd t s = (Inr resp, s')"
    and ok: "refresh_tokens_ok (tokens_rows s)"
    and valid: "add_days now (refreshTokenExpiresInDays cfg) \<noteq> None"
  obtains row new rows where "row \<in> set (tokens_rows s)" and "r_token row = t"
    and "r_isRevoked row = Some False" and "\<forall>x. r_expiresAt row = Some x \<longrightarrow> now \<le> x"
    and "\<exists>u\<in>set (users_rows s). u_id u = Some (r_userId row) \<and> u_isActive u = Some True"
    and "s' = s\<lparr>tokens_rows := rows\<rparr>"
    and "mset rows = add_mset new (add_mset (row\<lparr>r_isRevoked := Some True\<rparr>) (mset (tokens_rows s) - {#row#}))"
    and "r_userId new = r_userId row" and "r_token new = rnd" and "r_isRevoked new = Some False"
    and "refresh_token resp = rnd" and "refresh_tokens_ok rows"
proof -
  obtain row user s1 where l: "refresh_lookup UR RR now t s = (Inr (row, user), s1)"
    and r: "refresh_rotate RR sign cfg now rnd (row, user) s1 = (Inr resp, s')"
    using run unfolding refreshToken_def by (elim andThen_InrE) auto
  note row = lookup_Inr [OF l]
  then have r': "refresh_rotate RR sign cfg now rnd (row, user) s = (Inr resp, s')" using r by simp
  obtain rows new where
    "s' = s\<lparr>tokens_rows := rows\<rparr>"
    "mset rows = add_mset new (add_mset (row\<lparr>r_isRevoked := Some True\<rparr>) (mset (tokens_rows s) - {#row#}))"
    "Some (r_userId new) = u_id user" "r_token new = rnd" "r_isRevoked new = Some False"
    "refresh_token resp = rnd" "refresh_tokens_ok rows"
    using rotate_Inr [OF r' ok _ valid] row by blast
  with that [of row rows new] row show thesis by auto
qed

end

section \<open>Every way a session is opened\<close>

context auth_store
begin

lemma save_user_advances: "advances tokens_evolve (save_user UR now u)"
  unfolding save_user_def
  by (intro advances_intros advances_write tokens_evolve_preorder tokens_evolve_same) simp_all

lemma save_user_ok: "preserves database_ok (save_user UR now u)"
  unfolding save_user_def
  by (intro preserves_intros database_ok_write_users users.repository_axioms)

lemma find_user_advances: "advances tokens_evolve (find_user UR w)"
  unfolding find_user_def by (intro advances_intros tokens_evolve_preorder)

lemma find_user_ok: "preserves database_ok (find_user UR w)"
  unfolding find_user_def by (intro preserves_intros)

lemma revoke_advances:
  "advances tokens_evolve (write_tokens (no_result (updateRows RR q (\<lambda>r. r\<lparr>r_isRevoked := Some True\<rparr>))))"
  by (rule advances_write(4))
    (auto intro!: tokens_evolve_revoke dest: tokens.update_rows)

lemma revoke_ok: "preserves database_ok (write_tokens (no_result (updateRows RR q f)))"
  by (rule database_ok_update_tokens [OF tokens.repository_axioms])

lemma refresh_lookup_advances: "advances tokens_evolve (refresh_lookup UR RR now t)"
  by (rule advancesI) (auto dest: refresh_lookup_state intro: tokens_evolve_same)

lemma refresh_lookup_ok: "preserves database_ok (refresh_lookup UR RR now t)"
  by (rule preservesI) (auto dest: refresh_lookup_state)

end

text \<open>The handlers that open a session, at an instant whose expiry dates are representable.\<close>

locale session_service = auth_store UR RR
  for UR :: "(user_where, user) repository_ops" and RR :: "(token_where, refresh_token) repository_ops" +
  fixes cfg :: auth_config and now :: int
  assumes valid_expiry: "add_days now (refreshTokenExpiresInDays cfg) \<noteq> None"
begin

lemmas issuer = issues [OF valid_expiry]

lemmas session_advances = advances_intros tokens_evolve_preorder token_issuer.issue_evolves [OF issuer]
  save_user_advances find_user_advances revoke_advances refresh_lookup_advances

lemmas session_ok = preserves_intros token_issuer.issue_ok [OF issuer]
  save_user_ok find_user_ok revoke_ok refresh_lookup_ok

lemma validate_advances: "advances tokens_evolve (validateStellarUser UR now w)"
  unfolding validateStellarUser_def by (intro session_advances)

lemma validate_ok: "preserves database_ok (validateStellarUser UR now w)"
  unfolding validateStellarUser_def by (intro session_ok)

lemma login_advances: "advances tokens_evolve (login RR sign cfg now rnd user)"
  unfolding login_def by (intro session_advances)

lemma login_ok: "preserves database_ok (login RR sign cfg now rnd user)"
  unfolding login_def by (intro session_ok)

lemma email_session_advances: "advances tokens_evolve (email_session RR sign cfg now rnd user)"
  unfolding email_session_def by (intro session_advances)

lemma email_session_ok: "preserves database_ok (email_session RR sign cfg now rnd user)"
  unfolding email_session_def by (intro session_ok)

lemma loginStellar_advances: "advances tokens_evolve (loginStellar UR RR sign cfg now rnd w)"
  unfolding loginStellar_def Let_def
  by (cases w; simp only: jsval.case; intro session_advances validate_advances login_advances)

lemma loginStellar_ok: "preserves database_ok (loginStellar UR RR sign cfg now rnd w)"
  unfolding loginStellar_def Let_def
  by (cases w; simp only: jsval.case; intro session_ok validate_ok login_ok)

lemma signup_advances: "advances tokens_evolve (signup UR RR hash sign cfg now rnd e p n d)"
  unfolding signup_def by (intro session_advances email_session_advances)

lemma signup_ok: "preserves database_ok (signup UR RR hash sign cfg now rnd e p n d)"
  unfolding signup_def by (intro session_ok email_session_ok)

lemma loginWithEmail_advances: "advances tokens_evolve (loginWithEmail UR RR cmp sign cfg now rnd e p)"
  unfolding loginWithEmail_def by (intro session_advances email_session_advances)

lemma loginWithEmail_ok: "preserves database_ok (loginWithEmail UR RR cmp sign cfg now rnd e p)"
  unfolding loginWithEmail_def by (intro session_ok email_session_ok)

lemma refresh_advances: "advances tokens_evolve (refreshToken UR RR sign cfg now rnd t)"
  unfolding refreshToken_def refresh_rotate_def by (intro session_advances)

lemma refresh_ok: "preserves database_ok (refreshToken UR RR sign cfg now rnd t)"
  unfolding refreshToken_def refresh_rotate_def
  by (intro session_ok) (simp add: split_def; intro session_ok)

end

interpretation default_sessions: session_service users_table tokens_table
  "auth_config_of None None" 1700000000000
  by unfold_locales (rule default_lifetime)

section \<open>The sessions as a step relation\<close>

text \<open>
  One request that opens, refreshes or revokes sessions, whatever it answers; the hash, its
  comparison, the signer and the configuration are those of the deployment.
\<close>

inductive auth_step :: "(user_where, user) repository_ops \<Rightarrow> (token_where, refresh_token) repository_ops \<Rightarrow>
    (string \<Rightarrow> nat \<Rightarrow> string) \<Rightarrow> (string \<Rightarrow> string \<Rightarrow> bool) \<Rightarrow> signer \<Rightarrow> auth_config \<Rightarrow>
    'z database_scheme \<Rightarrow> 'z database_scheme \<Rightarrow> bool"
  for UR RR hash cmp sign cfg where
  step_refresh: "add_days now (refreshTokenExpiresInDays cfg) \<noteq> None \<Longrightarrow>
    refresh_route UR RR sign cfg now rnd t s = (r, s') \<Longrightarrow> auth_step UR RR hash cmp sign cfg s s'"
| step_wallet: "add_days now (refreshTokenExpiresInDays cfg) \<noteq> None \<Longrightarrow>
    loginStellar UR RR sign cfg now rnd w s = (r, s') \<Longrightarrow> auth_step UR RR hash cmp sign cfg s s'"
| step_signup: "add_days now (refreshTokenExpiresInDays cfg) \<noteq> None \<Longrightarrow>
    signup_route UR RR hash sign cfg now rnd e p n d s = (r, s') \<Longrightarrow> auth_step UR RR hash cmp sign cfg s s'"
| step_login: "add_days now (refreshTokenExpiresInDays cfg) \<noteq> None \<Longrightarrow>
    login_route UR RR cmp sign cfg now rnd e p s = (r, s') \<Longrightarrow> auth_step UR RR hash cmp sign cfg s s'"
| step_revoke: "revokeUserRefreshTokens RR u s = (r, s') \<Longrightarrow> auth_step UR RR hash cmp sign cfg s s'"

inductive_cases auth_stepE: "auth_step UR RR hash cmp sign cfg s s'"

text \<open>
  Between a request of interest and a later one the database takes any number of these steps.
\<close>

definition auth_reaches :: "(user_where, user) repository_ops \<Rightarrow> (token_where, refresh_token) repository_ops \<Rightarrow>
    (string \<Rightarrow> nat \<Rightarrow> string) \<Rightarrow> (string \<Rightarrow> string \<Rightarrow> bool) \<Rightarrow> signer \<Rightarrow> auth_config \<Rightarrow>
    'z database_scheme \<Rightarrow> 'z database_scheme \<Rightarrow> bool" where
  "auth_reaches UR RR hash cmp sign cfg = (auth_step UR RR hash cmp sign cfg)\<^sup>*\<^sup>*"

context auth_store
begin

lemma step_evolves_ok:
  assumes "auth_step UR RR hash cmp sign cfg s s'" and "database_ok s"
  shows "tokens_evolve s s' \<and> database_ok s'"
  using assms(1)
proof cases
  case (step_refresh now rnd t r)
  have srv: "session_service UR RR cfg now" by unfold_locales (rule step_refresh(1))
  have "(r, s') = refreshToken UR RR sign cfg now rnd (the (or_null t)) s \<or> s' = s"
    using step_refresh(2) by (auto simp: refresh_route_def op_simps split: option.splits)
  then show ?thesis
    using advancesD [OF session_service.refresh_advances [OF srv]]
      preservesD [OF session_service.refresh_ok [OF srv]] assms(2) tokens_evolve_same by metis
next
  case (step_wallet now rnd w r)
  have srv: "session_service UR RR cfg now" by unfold_locales (rule step_wallet(1))
  show ?thesis
    using advancesD [OF session_service.loginStellar_advances [OF srv] step_wallet(2)]
      preservesD [OF session_service.loginStellar_ok [OF srv] step_wallet(2) assms(2)] by simp
next
  case (step_signup now rnd e p n d r)
  have srv: "session_service UR RR cfg now" by unfold_locales (rule step_signup(1))
  show ?thesis
    using advancesD [OF session_service.signup_advances [OF srv] step_signup(2) [unfolded signup_route_def]]
      preservesD [OF session_service.signup_ok [OF srv] step_signup(2) [unfolded signup_route_def] assms(2)]
    by simp
next
  case (step_login now rnd e p r)
  have srv: "session_service UR RR cfg now" by unfold_locales (rule step_login(1))
  show ?thesis
    using advancesD [OF session_service.loginWithEmail_advances [OF srv] step_login(2) [unfolded login_route_def]]
      preservesD [OF session_service.loginWithEmail_ok [OF srv] step_login(2) [unfolded login_route_def] assms(2)]
    by simp
next
  case (step_revoke u r)
  then show ?thesis
    using advancesD [OF revoke_advances step_revoke [unfolded revokeUserRefreshTokens_def]]
      preservesD [OF revoke_ok step_revoke [unfolded revokeUserRefreshTokens_def] assms(2)] by simp
qed

lemma reaches_evolves_ok:
  assumes "auth_reaches UR RR hash cmp sign cfg s s'" and "database_ok s"
  shows "tokens_evolve s s' \<and> database_ok s'"
  using assms(1) unfolding auth_reaches_def
proof (induction rule: rtranclp_induct)
  case base
  show ?case using assms(2) tokens_evolve_same by blast
next
  case (step s1 s2)
  then have "tokens_evolve s1 s2 \<and> database_ok s2" using step_evolves_ok by blast
  with step show ?case
    using tokens_evolve_preorder by (metis preorder_rel_def transpE)
qed

text \<open>A token revoked once is never active again.\<close>

lemma revoked_for_good:
  assumes "tokens_evolve s s'" and "refresh_tokens_ok (tokens_rows s')"
    and "r \<in> set (tokens_rows s)" and "r_isRevoked r = Some True"
  shows "\<not> active_row (r_token r) s'"
proof
  assume "active_row (r_token r) s'"
  then obtain a where a: "a \<in> set (tokens_rows s')" "r_token a = r_token r" "r_isRevoked a = Some False"
    by (auto simp: active_row_def)
  obtain r' where r': "r' \<in> set (tokens_rows s')" "r_token r' = r_token r" "r_isRevoked r' = Some True"
    using assms by (auto simp: tokens_evolve_def)
  have "unique_col (\<lambda>r. Some (r_token r)) (tokens_rows s')"
    using assms(2) by (simp add: refresh_tokens_ok_def)
  then have "a = r'"
    using a(1) r'(1) by (rule unique_colD [where v = "r_token r"]) (simp_all add: a(2) r'(2))
  with a(3) r'(3) show False by simp
qed

end

section \<open>When the database answers\<close>

locale available_auth_store =
    au: available_repository UR user_matches user_view any_order u_id user_fill user_merge "\<lambda>_. True"
      users_ok user_insertable
  + at: available_repository RR token_matches view_all any_order r_id refresh_token_fill token_merge
      "\<lambda>r. r_expiresAt r \<noteq> None" refresh_tokens_ok token_insertable
  for UR :: "(user_where, user) repository_ops" and RR :: "(token_where, refresh_token) repository_ops"

sublocale available_auth_store \<subseteq> auth_store UR RR
  by unfold_locales

interpretation available_auth_db: available_auth_store users_table tokens_table
  by unfold_locales

context available_auth_store
begin

text \<open>A lookup by a unique column finds the row that has the value.\<close>

lemma find_user_unique:
  assumes u: "u \<in> set (users_rows s)" and w: "\<And>v. v \<in> set (users_rows s) \<Longrightarrow> user_matches w v \<longleftrightarrow> v = u"
  shows "find_user UR w s = (Inr (Some (user_view None u)), s)"
proof -
  obtain e r' where "findOne UR (query_of [w]) (users_rows s) = Inr (Some e)" "r' \<in> set (users_rows s)"
    "user_matches w r'" "e = user_view None r'"
    using au.find_one_hit [OF u, of "query_of [w]"] w [OF u] by (metis query_of_simps(2) selects_query_of)
  then show ?thesis using w by (auto simp: find_user_def op_simps)
qed

lemma find_user_none:
  assumes "\<And>v. v \<in> set (users_rows s) \<Longrightarrow> \<not> user_matches w v"
  shows "find_user UR w s = (Inr None, s)"
  using au.find_one_miss [of "users_rows s" "query_of [w]"] assms
  by (simp add: find_user_def op_simps)

lemma find_token_active:
  assumes ok: "refresh_tokens_ok (tokens_rows s)" and r: "r \<in> set (tokens_rows s)"
    and t: "r_token r = t" and a: "r_isRevoked r = Some False"
  shows "findOne RR (query_of [any_token\<lparr>rw_token := Some t, rw_isRevoked := Some False\<rparr>]) (tokens_rows s)
    = Inr (Some r)"
proof -
  let ?q = "query_of [any_token\<lparr>rw_token := Some t, rw_isRevoked := Some False\<rparr>]"
  have "selects token_matches ?q r" using t a by (simp add: selects_token)
  then obtain e r' where f: "findOne RR ?q (tokens_rows s) = Inr (Some e)"
    and r': "r' \<in> set (tokens_rows s)" "selects token_matches ?q r'" "e = r'"
    using at.find_one_hit [OF r] by (metis view_all_id)
  have u: "unique_col (\<lambda>r. Some (r_token r)) (tokens_rows s)"
    using ok by (simp add: refresh_tokens_ok_def)
  have "r_token r' = t" using r'(2) by (simp add: selects_token)
  then have "r' = r" by (intro unique_colD [OF u r'(1) r, of t]) (simp_all add: t)
  with f r'(3) show ?thesis by simp
qed

lemma issue_succeeds:
  assumes valid: "add_days now (refreshTokenExpiresInDays cfg) \<noteq> None"
    and ok: "refresh_tokens_ok (tokens_rows s)" and fresh: "\<forall>r\<in>set (tokens_rows s). r_token r \<noteq> rnd"
  shows "\<exists>rows. createRefreshToken RR cfg now rnd (Some v) s = (Inr rnd, s\<lparr>tokens_rows := rows\<rparr>)
    \<and> set (tokens_rows s) \<subseteq> set rows \<and> r_token ` set rows = insert rnd (r_token ` set (tokens_rows s))
    \<and> refresh_tokens_ok rows"
proof -
  let ?r = "\<lparr>r_id = None, r_userId = v, r_token = rnd, r_expiresAt = add_days now (refreshTokenExpiresInDays cfg),
    r_isRevoked = None, r_createdAt = None\<rparr>"
  have "token_insertable (tokens_rows s) ?r"
    using fresh by (simp add: token_insertable_def no_clash_def list_all_iff)
  then obtain e rows where sv: "saveRow RR now ?r (tokens_rows s) = Inr (e, rows)"
    using at.insert_available [OF ok] valid by fastforce
  have "set rows = insert e (set (tokens_rows s))"
    using at.save_insert_set(1) [OF sv] valid by simp
  moreover have "r_token e = rnd"
    using at.save_insert [OF sv] valid by (auto simp: refresh_token_fill_def)
  moreover have "refresh_tokens_ok rows" using at.save_constraint [OF sv ok] .
  ultimately show ?thesis
    using sv by (intro exI [of _ rows])
      (auto simp: createRefreshToken_def Let_def andThen_def write_tokens_def return_op_def)
qed

lemma email_session_succeeds:
  assumes "add_days now (refreshTokenExpiresInDays cfg) \<noteq> None"
    and "refresh_tokens_ok (tokens_rows s)" and "\<forall>r\<in>set (tokens_rows s). r_token r \<noteq> rnd"
    and "\<exists>j. sign \<lparr>c_sub = u_id user, c_role = u_role user, c_authMethod = None\<rparr> (accessTokenExpiresIn cfg) = Inr j"
    and "u_id user = Some i"
  shows "\<exists>resp rows. email_session RR sign cfg now rnd user s = (Inr resp, s\<lparr>tokens_rows := rows\<rparr>)
    \<and> refresh_token resp = rnd \<and> get_prop (response_user resp) ''id'' = JString i
    \<and> r_token ` set rows = insert rnd (r_token ` set (tokens_rows s)) \<and> refresh_tokens_ok rows"
proof -
  obtain rows where "createRefreshToken RR cfg now rnd (u_id user) s = (Inr rnd, s\<lparr>tokens_rows := rows\<rparr>)"
    "r_token ` set rows = insert rnd (r_token ` set (tokens_rows s))" "refresh_tokens_ok rows"
    using issue_succeeds [OF assms(1-3)] assms(5) by metis
  moreover obtain j where "sign \<lparr>c_sub = u_id user, c_role = u_role user, c_authMethod = None\<rparr>
      (accessTokenExpiresIn cfg) = Inr j"
    using assms(4) by blast
  ultimately show ?thesis
    using assms(5) by (intro exI conjI) (auto simp: email_session_def op_simps opt_value_def)
qed

lemma save_new_user_succeeds:
  assumes ok: "users_ok (users_rows s)" and hook: "validateAuthMethod u = Inr ()" and new: "u_id u = None"
    and ins: "user_insertable (users_rows s) u"
  shows "\<exists>i rows. save_user UR now u s = (Inr (user_fill i now u), s\<lparr>users_rows := rows\<rparr>)
    \<and> mset rows = add_mset (user_fill i now u) (mset (users_rows s)) \<and> users_ok rows"
proof -
  obtain e rows where sv: "saveRow UR now u (users_rows s) = Inr (e, rows)"
    using au.insert_available [OF ok new _ ins] by blast
  obtain i where "e = user_fill i now u" "mset rows = add_mset e (mset (users_rows s))"
    using au.save_insert [OF sv new] by auto
  moreover have "users_ok rows" using au.save_constraint [OF sv ok] .
  ultimately show ?thesis
    using sv hook by (auto simp: save_user_def op_simps write_users_def)
qed

end

end
