(* ===== verification/Auth_Properties.thy ===== *)
theory Auth_Properties
  imports Sessions
begin

text \<open>
  The properties of the authentication component: rotation and revocation of refresh tokens,
  accounts, wallet logins, the guards, and their witnesses on the tables of the entities.
\<close>

section \<open>A sample deployment\<close>

definition sample_cfg :: auth_config where
  "sample_cfg = \<lparr>accessTokenExpiresIn = ''15m'', refreshTokenExpiresInDays = Fin 30\<rparr>"

definition sample_sign :: signer where
  "sample_sign c e = Inr ''jwt''"

definition alice :: user where
  "alice = new_user\<lparr>u_id := Some ''u1'', u_username := Some ''alice'', u_email := Some ''a@x.io'',
     u_password := Some ''#secret'', u_authMethod := Some EMAIL, u_role := Some USER,
     u_isActive := Some True, u_createdAt := Some 0\<rparr>"

definition wallet_a :: string where
  "wallet_a = ''GAAAAAAAAAAAAAAAAAAAAAAAAAAAAAAAAAAAAAAAAAAAAAAAAAAAAWHF''"

definition bob :: user where
  "bob = new_user\<lparr>u_id := Some ''u2'', u_username := Some ''bob'', u_walletAddress := Some wallet_a,
     u_authMethod := Some STELLAR, u_role := Some USER, u_isActive := Some False, u_createdAt := Some 0\<rparr>"

definition alice_token :: refresh_token where
  "alice_token = \<lparr>r_id = Some ''r1'', r_userId = ''u1'', r_token = ''t1'', r_expiresAt = Some 9000,
     r_isRevoked = Some False, r_createdAt = Some 0\<rparr>"

definition bob_token :: refresh_token where
  "bob_token = \<lparr>r_id = Some ''r2'', r_userId = ''u2'', r_token = ''t2'', r_expiresAt = Some 9000,
     r_isRevoked = Some False, r_createdAt = Some 0\<rparr>"

definition sample_db :: database where
  "sample_db = empty_database\<lparr>users_rows := [alice, bob], tokens_rows := [alice_token, bob_token]\<rparr>"

lemmas sample_defs = sample_db_def alice_def bob_def alice_token_def bob_token_def sample_cfg_def
  sample_sign_def empty_database_def new_user_def wallet_a_def

lemmas auth_eval = sample_defs table_eval op_simps write_defs no_result_def find_user_def
  refreshToken_def refresh_lookup_def refresh_rotate_def createRefreshToken_def add_days_def

lemma sample_ok: "database_ok sample_db"
  by (simp add: database_ok_def auth_eval)

lemma sample_lifetime: "now = 1000 \<Longrightarrow> add_days now (refreshTokenExpiresInDays sample_cfg) \<noteq> None"
  by (simp add: sample_cfg_def add_days_def)

lemma sample_refresh:
  "\<exists>resp s1. refreshToken users_table tokens_table sample_sign sample_cfg 1000 ''t3'' ''t1'' sample_db = (Inr resp, s1)
    \<and> tokens_rows s1 = [alice_token\<lparr>r_isRevoked := Some True\<rparr>, bob_token,
       \<lparr>r_id = Some ''xxxxx'', r_userId = ''u1'', r_token = ''t3'', r_expiresAt = Some 2592001000,
        r_isRevoked = Some False, r_createdAt = Some 1000\<rparr>]"
  by (simp add: auth_eval)

lemma auth_storeI: "users_contract UR \<Longrightarrow> tokens_contract RR \<Longrightarrow> auth_store UR RR"
  by (simp add: auth_store_def)

lemma available_contract: "tokens_available RR \<Longrightarrow> tokens_contract RR"
  by (simp add: available_repository_def)

section \<open>Refresh tokens\<close>

text \<open>
  C6. A refresh token is single use: once a refresh with it has succeeded, then whatever requests
  (logins, sign-ups, other refreshes, revocations) are served after it, presenting the token again
  is answered with \<open>Invalid refresh token\<close> and changes nothing.
\<close>

theorem refresh_token_single_use:
  assumes "users_contract UR" and "tokens_available RR" and "database_ok s"
    and "add_days now (refreshTokenExpiresInDays cfg) \<noteq> None"
    and "refreshToken UR RR sign cfg now rnd t s = (Inr resp, s1)"
    and "auth_reaches UR RR hash cmp sign cfg s1 s2"
  shows "refreshToken UR RR sign cfg now' rnd' t s2 = (Inl (Unauthorized ''Invalid refresh token''), s2)"
proof -
  have st: "auth_store UR RR" using assms(1,2) by (intro auth_storeI available_contract)
  have srv: "session_service UR RR cfg now"
    using st assms(4) by (simp add: session_service_def session_service_axioms_def)
  have tok: "refresh_tokens_ok (tokens_rows s)" using assms(3) by (simp add: database_ok_def)
  obtain row new rows where row: "r_token row = t" and s1: "s1 = s\<lparr>tokens_rows := rows\<rparr>"
    and rows: "mset rows = add_mset new (add_mset (row\<lparr>r_isRevoked := Some True\<rparr>) (mset (tokens_rows s) - {#row#}))"
    by (rule auth_store.refresh_Inr [OF st assms(5) tok assms(4)])
  have rev: "row\<lparr>r_isRevoked := Some True\<rparr> \<in> set (tokens_rows s1)"
  proof -
    have "row\<lparr>r_isRevoked := Some True\<rparr> \<in># mset rows" unfolding rows by simp
    then show ?thesis by (simp add: s1)
  qed
  have "database_ok s1"
    using preservesD [OF session_service.refresh_ok [OF srv] assms(5) assms(3)] .
  then have "tokens_evolve s1 s2" "refresh_tokens_ok (tokens_rows s2)"
    using auth_store.reaches_evolves_ok [OF st assms(6)] by (auto simp: database_ok_def)
  then have "\<not> active_row t s2"
    using auth_store.revoked_for_good [OF st _ _ rev] row by simp
  then have "refresh_lookup UR RR now' t s2 = (Inl (Unauthorized ''Invalid refresh token''), s2)"
    by (rule auth_store.lookup_inactive(2) [OF st])
      (rule available_repository.find_one_available [OF assms(2)])
  then show ?thesis by (simp add: refreshToken_def op_simps)
qed

lemma refresh_token_single_use_witness:
  "\<exists>s1 :: database. r_isRevoked (tokens_rows s1 ! 0) = Some True
     \<and> refreshToken users_table tokens_table sample_sign sample_cfg 2000 ''t4'' ''t1'' s1
       = (Inl (Unauthorized ''Invalid refresh token''), s1)"
proof -
  obtain resp s1 where r: "refreshToken users_table tokens_table sample_sign sample_cfg 1000 ''t3'' ''t1'' sample_db = (Inr resp, s1)"
    and rev: "r_isRevoked (tokens_rows s1 ! 0) = Some True"
    using sample_refresh by auto
  have "auth_reaches users_table tokens_table (\<lambda>p n. ''h'') (\<lambda>p h. True) sample_sign sample_cfg s1 s1"
    by (simp add: auth_reaches_def)
  from refresh_token_single_use [OF users_tbl.repository_axioms tokens_tbl.available_repository_axioms
      sample_ok sample_lifetime [OF refl] r this]
  show ?thesis using rev by blast
qed

text \<open>
  C7. A successful refresh replaces one token by another: the token presented belonged to an
  unrevoked, unexpired row of an active user; that row, and no other, is revoked; exactly one row
  is added, unrevoked and for the same user, with the token that is returned.
\<close>

theorem refresh_rotates:
  assumes "users_contract UR" and "tokens_contract RR" and "refresh_tokens_ok (tokens_rows s)"
    and "add_days now (refreshTokenExpiresInDays cfg) \<noteq> None"
    and "refreshToken UR RR sign cfg now rnd t s = (Inr resp, s')"
  shows "\<exists>row new. row \<in> set (tokens_rows s) \<and> r_token row = t \<and> r_isRevoked row = Some False
    \<and> (\<forall>x. r_expiresAt row = Some x \<longrightarrow> now \<le> x)
    \<and> (\<exists>u\<in>set (users_rows s). u_id u = Some (r_userId row) \<and> u_isActive u = Some True)
    \<and> mset (tokens_rows s') = add_mset new
        (add_mset (row\<lparr>r_isRevoked := Some True\<rparr>) (mset (tokens_rows s) - {#row#}))
    \<and> r_userId new = r_userId row \<and> r_token new = refresh_token resp \<and> r_isRevoked new = Some False
    \<and> s' = s\<lparr>tokens_rows := tokens_rows s'\<rparr>"
proof (rule auth_store.refresh_Inr [OF auth_storeI [OF assms(1,2)] assms(5,3,4)], goal_cases)
  case (1 row new rows)
  then show ?thesis by (intro exI [of _ row] exI [of _ new]) simp
qed

lemma refresh_rotates_witness:
  "\<exists>resp s' row. refreshToken users_table tokens_table sample_sign sample_cfg 1000 ''t3'' ''t1'' sample_db
       = (Inr resp, s') \<and> row \<in> set (tokens_rows sample_db) \<and> r_token row = ''t1''"
proof -
  obtain resp s1 where r: "refreshToken users_table tokens_table sample_sign sample_cfg 1000 ''t3'' ''t1'' sample_db = (Inr resp, s1)"
    using sample_refresh by blast
  have "refresh_tokens_ok (tokens_rows sample_db)" using sample_ok by (simp add: database_ok_def)
  from refresh_rotates [OF users_tbl.repository_axioms tokens_tbl.repository_axioms this
      sample_lifetime [OF refl] r] r
  show ?thesis by blast
qed

text \<open>
  C8. The refusals of a refresh, in the order of the checks: a token no unrevoked row has is
  invalid; an expired one is refused as expired; the token of a deactivated account is refused;
  none of them changes the database.
\<close>

lemma available_authI: "users_available UR \<Longrightarrow> tokens_available RR \<Longrightarrow> available_auth_store UR RR"
  by (simp add: available_auth_store_def)

theorem refresh_refusals:
  assumes "users_available UR" and "tokens_available RR" and "database_ok s"
  shows "(\<not> active_row t s \<longrightarrow>
      refreshToken UR RR sign cfg now rnd t s = (Inl (Unauthorized ''Invalid refresh token''), s))
    \<and> (\<forall>r\<in>set (tokens_rows s). \<forall>u\<in>set (users_rows s).
         r_token r = t \<and> r_isRevoked r = Some False \<and> u_id u = Some (r_userId r) \<longrightarrow>
         (\<forall>x. r_expiresAt r = Some x \<and> x < now \<longrightarrow>
           refreshToken UR RR sign cfg now rnd t s = (Inl (Unauthorized ''Refresh token has expired''), s))
         \<and> (\<forall>x. r_expiresAt r = Some x \<and> now \<le> x \<and> u_isActive u = Some False \<longrightarrow>
           refreshToken UR RR sign cfg now rnd t s = (Inl (Unauthorized ''Account is deactivated''), s)))"
proof -
  note av = available_authI [OF assms(1,2)]
  have st: "auth_store UR RR"
    using assms(1,2) by (intro auth_storeI) (simp_all add: available_repository_def)
  have lift: "refreshToken UR RR sign cfg now rnd t s = (Inl e, s)"
    if "refresh_lookup UR RR now t s = (Inl e, s)" for e
    using that by (simp add: refreshToken_def op_simps)
  have unknown: "refresh_lookup UR RR now t s = (Inl (Unauthorized ''Invalid refresh token''), s)"
    if "\<not> active_row t s"
    by (rule auth_store.lookup_inactive(2) [OF st that])
      (rule available_repository.find_one_available [OF assms(2)])
  have refused: "refresh_lookup UR RR now t s = (Inl (Unauthorized
      (if x < now then ''Refresh token has expired'' else ''Account is deactivated'')), s)"
    if r: "r \<in> set (tokens_rows s)" "r_token r = t" "r_isRevoked r = Some False"
      and u: "u \<in> set (users_rows s)" "u_id u = Some (r_userId r)"
      and x: "r_expiresAt r = Some x" and bad: "x < now \<or> u_isActive u = Some False" for r u x
  proof -
    have "refresh_tokens_ok (tokens_rows s)" using assms(3) by (simp add: database_ok_def)
    note f = available_auth_store.find_token_active [OF av this r]
    have k: "keyed u_id (users_rows s)" using assms(3) by (simp add: database_ok_def users_ok_def)
    have g: "find_user UR (any_user\<lparr>uw_id := Some (r_userId r)\<rparr>) s = (Inr (Some (user_view None u)), s)"
    proof (rule available_auth_store.find_user_unique [OF av u(1)])
      fix v assume v: "v \<in> set (users_rows s)"
      show "user_matches (any_user\<lparr>uw_id := Some (r_userId r)\<rparr>) v \<longleftrightarrow> v = u"
        unfolding selects_user using keyedD [OF k v u(1)] u(2) by metis
    qed
    show ?thesis
      using f g x bad by (auto simp: refresh_lookup_def op_simps user_view_def)
  qed
  show ?thesis
  proof (intro conjI impI ballI allI; (elim conjE)?)
    assume "\<not> active_row t s"
    then show "refreshToken UR RR sign cfg now rnd t s = (Inl (Unauthorized ''Invalid refresh token''), s)"
      by (intro lift unknown)
  next
    fix r u x
    assume "r \<in> set (tokens_rows s)" "r_token r = t" "r_isRevoked r = Some False"
      "u \<in> set (users_rows s)" "u_id u = Some (r_userId r)" "r_expiresAt r = Some x"
    note c = refused [OF this]
    {
      assume "x < now"
      with c show "refreshToken UR RR sign cfg now rnd t s = (Inl (Unauthorized ''Refresh token has expired''), s)"
        by (intro lift) simp
    next
      assume "now \<le> x" "u_isActive u = Some False"
      with c show "refreshToken UR RR sign cfg now rnd t s = (Inl (Unauthorized ''Account is deactivated''), s)"
        by (intro lift) simp
    }
  qed
qed

lemma refresh_refusals_witness:
  "refreshToken users_table tokens_table sample_sign sample_cfg 10000 ''t9'' ''t1'' sample_db
     = (Inl (Unauthorized ''Refresh token has expired''), sample_db)
   \<and> refreshToken users_table tokens_table sample_sign sample_cfg 1000 ''t9'' ''t2'' sample_db
     = (Inl (Unauthorized ''Account is deactivated''), sample_db)"
proof -
  note r = refresh_refusals [OF users_tbl.available_repository_axioms tokens_tbl.available_repository_axioms
      sample_ok, of _ sample_sign sample_cfg, THEN conjunct2, THEN bspec, THEN bspec, THEN mp]
  have rows: "alice_token \<in> set (tokens_rows sample_db)" "bob_token \<in> set (tokens_rows sample_db)"
    "alice \<in> set (users_rows sample_db)" "bob \<in> set (users_rows sample_db)"
    by (simp_all add: sample_db_def)
  show ?thesis
    using r [OF rows(1,3), of "''t1''" 10000 "''t9''"] r [OF rows(2,4), of "''t2''" 1000 "''t9''"]
    by (simp add: alice_token_def bob_token_def alice_def bob_def new_user_def)
qed



text \<open>
  Revoking a user's sessions ends all of them and nobody else's: the row of every token of the
  user is revoked, the rows of the other users are the same, and no token of the user can be
  refreshed afterwards.
\<close>

theorem revoke_ends_sessions:
  assumes "users_contract UR" and "tokens_contract RR" and "database_ok s"
    and "\<forall>r\<in>set (tokens_rows s). r_isRevoked r \<noteq> None"
    and "revokeUserRefreshTokens RR u s = (Inr (), s')"
  shows "(\<forall>r\<in>set (tokens_rows s'). r_userId r = u \<longrightarrow> r_isRevoked r = Some True)
    \<and> filter_mset (\<lambda>r. r_userId r \<noteq> u) (mset (tokens_rows s'))
        = filter_mset (\<lambda>r. r_userId r \<noteq> u) (mset (tokens_rows s))
    \<and> (\<forall>r\<in>set (tokens_rows s). r_userId r = u \<longrightarrow>
        (\<exists>e. refreshToken UR RR sign cfg now rnd (r_token r) s' = (Inl e, s')))"
proof -
  note st = auth_storeI [OF assms(1,2)]
  obtain rows where s': "s' = s\<lparr>tokens_rows := rows\<rparr>"
    and up: "updateRows RR (query_of [any_token\<lparr>rw_userId := Some u, rw_isRevoked := Some False\<rparr>])
      (\<lambda>r. r\<lparr>r_isRevoked := Some True\<rparr>) (tokens_rows s) = Inr rows"
    using assms(5) by (auto simp: revokeUserRefreshTokens_def write_Inr_iff)
  let ?f = "\<lambda>r. if r_userId r = u \<and> r_isRevoked r = Some False then r\<lparr>r_isRevoked := Some True\<rparr> else r"
  have rows: "mset rows = image_mset ?f (mset (tokens_rows s))"
    using repository.update_rows [OF assms(2) up] by (simp add: selects_token)
  have set: "set rows = ?f ` set (tokens_rows s)"
    using mset_eq_setD [OF rows [folded mset_map]] by simp
  have revoked: "r_isRevoked (?f r) = Some True" if "r \<in> set (tokens_rows s)" "r_userId r = u" for r
    using assms(4) that by (cases "r_isRevoked r") auto
  have ok: "refresh_tokens_ok (tokens_rows s')"
    using repository.update_constraint [OF assms(2) up] assms(3) by (simp add: s' database_ok_def)
  have "\<exists>e. refreshToken UR RR sign cfg now rnd (r_token r) s' = (Inl e, s')"
    if r: "r \<in> set (tokens_rows s)" "r_userId r = u" for r
  proof -
    have "?f r \<in> set (tokens_rows s')" using r(1) by (simp add: s' set)
    then have "\<not> active_row (r_token (?f r)) s'"
      using auth_store.revoked_for_good [OF st _ ok] revoked [OF r] tokens_evolve_same by blast
    then have "\<not> active_row (r_token r) s'" by (simp split: if_splits)
    from auth_store.lookup_inactive(1) [OF st this, of now] show ?thesis
      by (auto simp: refreshToken_def op_simps)
  qed
  moreover have "filter_mset (\<lambda>r. r_userId r \<noteq> u) (mset rows)
      = filter_mset (\<lambda>r. r_userId r \<noteq> u) (mset (tokens_rows s))"
    unfolding rows by (rule filter_image_mset_same) auto
  moreover have "r_isRevoked r' = Some True" if r': "r' \<in> set (tokens_rows s')" "r_userId r' = u" for r'
  proof -
    have "r' \<in> ?f ` set (tokens_rows s)" using r'(1) set by (simp add: s')
    then obtain r where "r' = ?f r" and "r \<in> set (tokens_rows s)" by (rule imageE)
    moreover from this(1) r'(2) have "r_userId r = u" by (simp split: if_splits)
    ultimately show ?thesis using revoked by blast
  qed
  ultimately show ?thesis by (simp add: s')
qed

lemma revoke_ends_sessions_witness:
  "\<exists>s'. revokeUserRefreshTokens tokens_table ''u1'' sample_db = (Inr (), s')
    \<and> (\<exists>e. refreshToken users_table tokens_table sample_sign sample_cfg 1000 ''t3'' ''t1'' s' = (Inl e, s'))"
proof -
  have "fst (revokeUserRefreshTokens tokens_table ''u1'' sample_db) = Inr ()"
    by (simp add: revokeUserRefreshTokens_def auth_eval)
  then obtain s' where r: "revokeUserRefreshTokens tokens_table ''u1'' sample_db = (Inr (), s')"
    by (metis prod.collapse)
  have "\<forall>r\<in>set (tokens_rows sample_db). r_isRevoked r \<noteq> None" and "alice_token \<in> set (tokens_rows sample_db)"
    and "r_token alice_token = ''t1''" "r_userId alice_token = ''u1''"
    by (simp_all add: sample_db_def alice_token_def bob_token_def del: not_None_eq)
  with revoke_ends_sessions [OF users_tbl.repository_axioms tokens_tbl.repository_axioms sample_ok _ r,
      of sample_sign sample_cfg 1000 "''t3''"] r
  show ?thesis by metis
qed

section \<open>Accounts\<close>

text \<open>A sign-up with an unused email and user name succeeds, and this is what it leaves.\<close>

abbreviation signed_up :: "(string \<Rightarrow> nat \<Rightarrow> string) \<Rightarrow> string \<Rightarrow> string \<Rightarrow> string \<Rightarrow> string option \<Rightarrow> user" where
  "signed_up hash email password username name \<equiv> new_user\<lparr>u_email := Some email, u_password := Some (hash password 10),
    u_username := Some username, u_displayName := Some (str_or name username),
    u_authMethod := Some EMAIL, u_role := Some USER, u_isActive := Some True\<rparr>"

lemma signup_succeeds:
  assumes "users_available UR" and "tokens_available RR" and "database_ok s"
    and "add_days now (refreshTokenExpiresInDays cfg) \<noteq> None"
    and "\<forall>u\<in>set (users_rows s). u_email u \<noteq> Some email \<and> u_username u \<noteq> Some username"
    and "email \<noteq> ''''" and "\<forall>r\<in>set (tokens_rows s). r_token r \<noteq> rnd"
    and "\<And>c. \<exists>j. sign c (accessTokenExpiresIn cfg) = Inr j"
  obtains i resp s1 where
    "signup UR RR hash sign cfg now rnd email password username name s = (Inr resp, s1)"
    "get_prop (response_user resp) ''id'' = JString i"
    "user_fill i now (signed_up hash email password username name) \<in> set (users_rows s1)"
    "length (users_rows s1) = Suc (length (users_rows s))" "users_ok (users_rows s1)" "refresh_tokens_ok (tokens_rows s1)"
    "r_token ` set (tokens_rows s1) = insert rnd (r_token ` set (tokens_rows s))"
proof -
  note av = available_authI [OF assms(1,2)]
  let ?new = "signed_up hash email password username name"
  have uok: "users_ok (users_rows s)" and tok: "refresh_tokens_ok (tokens_rows s)"
    using assms(3) by (simp_all add: database_ok_def)
  have f1: "find_user UR (any_user\<lparr>uw_email := Some email\<rparr>) s = (Inr None, s)"
    and f2: "find_user UR (any_user\<lparr>uw_username := Some username\<rparr>) s = (Inr None, s)"
    using assms(5) by (auto intro!: available_auth_store.find_user_none [OF av] simp: selects_user)
  have "user_insertable (users_rows s) ?new"
    using assms(5) by (auto simp: user_insertable_def no_clash_def list_all_iff new_user_def)
  moreover have "validateAuthMethod ?new = Inr ()" "u_id ?new = None"
    using assms(6) by (simp_all add: validateAuthMethod_def new_user_def)
  ultimately obtain i rows where
    sv: "save_user UR now ?new s = (Inr (user_fill i now ?new), s\<lparr>users_rows := rows\<rparr>)"
    and rows: "mset rows = add_mset (user_fill i now ?new) (mset (users_rows s))" and rok: "users_ok rows"
    using available_auth_store.save_new_user_succeeds [OF av uok] by blast
  define u where "u = user_fill i now ?new"
  define s0 where "s0 = s\<lparr>users_rows := rows\<rparr>"
  have u: "u_id u = Some i" "u_email u = Some email" "u_password u = Some (hash password 10)"
    "u_isActive u = Some True"
    by (simp_all add: u_def user_fill_def)
  have tok0: "refresh_tokens_ok (tokens_rows s0)" "\<forall>r\<in>set (tokens_rows s0). r_token r \<noteq> rnd"
    using tok assms(7) by (simp_all add: s0_def)
  obtain resp trows where es: "email_session RR sign cfg now rnd u s0 = (Inr resp, s0\<lparr>tokens_rows := trows\<rparr>)"
    and resp: "get_prop (response_user resp) ''id'' = JString i"
    and tk: "r_token ` set trows = insert rnd (r_token ` set (tokens_rows s0))" "refresh_tokens_ok trows"
    using available_auth_store.email_session_succeeds [OF av assms(4) tok0 _ u(1), of sign] assms(8) by blast
  define s1 where "s1 = s0\<lparr>tokens_rows := trows\<rparr>"
  have signup: "signup UR RR hash sign cfg now rnd email password username name s = (Inr resp, s1)"
    using f1 f2 sv es by (simp add: signup_def op_simps u_def s0_def s1_def)
  have mem: "u \<in> set (users_rows s1)"
    using mset_eq_setD [of rows "u # users_rows s"] rows by (simp add: u_def s1_def s0_def)
  have "length rows = Suc (length (users_rows s))" using rows by (metis size_add_mset size_mset)
  then show thesis
    by (intro that [OF signup resp]) (use mem rok tk in \<open>simp_all add: u_def s1_def s0_def\<close>)
qed



text \<open>
  C40. One account per wallet: whether the first wallet login finds the account or creates it, the
  next one with the same wallet finds that account and creates nothing.
\<close>

theorem wallet_login_idempotent:
  assumes "users_available UR" and "users_ok (users_rows s)"
    and "validateStellarUser UR now w s = (Inr u, s1)"
  shows "u_walletAddress u = Some w \<and> length (users_rows s1) \<le> Suc (length (users_rows s))
    \<and> validateStellarUser UR now' w s1 = (Inr (user_view None u), s1)"
proof -
  note con = available_repository.axioms(1) [OF assms(1)]
  let ?w = "any_user\<lparr>uw_walletAddress := Some w\<rparr>"
  have again: "validateStellarUser UR now' w s' = (Inr (user_view None v), s')"
    if ok: "users_ok (users_rows s')" and v: "v \<in> set (users_rows s')" "u_walletAddress v = Some w"
      and len: "startsWith w ''G''" "length w = 56" for s' and v :: user
  proof -
    have "selects user_matches (query_of [?w]) v" using v(2) by (simp add: selects_user)
    then obtain e v' where e: "findOne UR (query_of [?w]) (users_rows s') = Inr (Some e)"
      "v' \<in> set (users_rows s')" "selects user_matches (query_of [?w]) v'" "e = user_view None v'"
      using available_repository.find_one_hit [OF assms(1) v(1)] by (metis query_of_simps(2))
    have uc: "unique_col u_walletAddress (users_rows s')" using ok by (simp add: users_ok_def)
    have v': "u_walletAddress v' = Some w" using e(3) by (simp add: selects_user)
    have "v' = v" by (rule unique_colD [OF uc e(2) v(1) v' v(2)])
    with e len show ?thesis by (simp add: validateStellarUser_def find_user_def op_simps)
  qed
  have len: "startsWith w ''G''" "length w = 56"
    using assms(3) by (auto simp: validateStellarUser_def op_simps split: if_splits)
  obtain found where f: "findOne UR (query_of [?w]) (users_rows s) = Inr found"
    using available_repository.find_one_available [OF assms(1)] by blast
  then have rest: "(case found of Some user \<Rightarrow> return_op user
      | None \<Rightarrow> save_user UR now (stellar_user w)) s = (Inr u, s1)"
    using assms(3) len by (simp add: validateStellarUser_def find_user_def op_simps)
  show ?thesis
  proof (cases found)
    case (Some v)
    then have v: "v = u" "s1 = s" using rest by (simp_all add: return_op_apply)
    obtain r where r: "r \<in> set (users_rows s)" "u_walletAddress r = Some w" "v = user_view None r"
      using repository.find_one_Some [OF con f [unfolded Some]] by (auto simp: selects_user)
    then show ?thesis using again [OF assms(2) r(1,2) len] v by (simp add: user_view_def)
  next
    case None
    then obtain rows where sv: "saveRow UR now (stellar_user w) (users_rows s) = Inr (u, rows)"
      and s1: "s1 = s\<lparr>users_rows := rows\<rparr>"
      using rest by (auto simp: save_user_def lift_result_apply write_Inr_iff elim!: andThen_InrE)
    have "u_walletAddress u = Some w"
      using repository.save_insert [OF con sv] by (auto simp: user_fill_def)
    moreover have "u \<in> set (users_rows s1)" "length (users_rows s1) = Suc (length (users_rows s))"
      using repository.save_insert_set [OF con sv] by (simp_all add: s1)
    moreover have "users_ok (users_rows s1)"
      using repository.save_constraint [OF con sv assms(2)] by (simp add: s1)
    ultimately show ?thesis using again len by simp
  qed
qed

lemma wallet_login_idempotent_witness:
  "validateStellarUser users_table 8 wallet_a sample_db = (Inr bob, sample_db)"
proof -
  have 1: "validateStellarUser users_table 7 wallet_a sample_db = (Inr bob, sample_db)"
    by (simp add: validateStellarUser_def auth_eval startsWith_def)
  have "users_ok (users_rows sample_db)" using sample_ok by (simp add: database_ok_def)
  from wallet_login_idempotent [OF users_tbl.available_repository_axioms this 1, of 8]
  show ?thesis by (simp add: user_view_def bob_def new_user_def)
qed

text \<open>
  A wallet login asks for nothing but the address, and not for an active account: for any
  account with a well-formed wallet, the address alone opens a session, also when the account is
  deactivated; the guard of the protected routes then refuses the account, and so does a refresh.
\<close>

theorem wallet_login_of_deactivated:
  assumes "users_available UR" and "tokens_available RR" and "database_ok s"
    and "add_days now (refreshTokenExpiresInDays cfg) \<noteq> None"
    and "u \<in> set (users_rows s)" and "u_walletAddress u = Some w" and "u_isActive u = Some False"
    and "startsWith w ''G''" and "length w = 56" and "trim w = w"
    and "\<forall>r\<in>set (tokens_rows s). r_token r \<noteq> rnd"
    and "\<And>c. \<exists>j. sign c (accessTokenExpiresIn cfg) = Inr j"
  shows "\<exists>resp s1. loginStellar UR RR sign cfg now rnd (JString w) s = (Inr resp, s1)
    \<and> active_row (refresh_token resp) s1
    \<and> jwt_validate UR \<lparr>c_sub = u_id u, c_role = u_role u, c_authMethod = u_authMethod u\<rparr> s1
        = (Inl (Unauthorized ''Unauthorized''), s1)"
proof -
  note av = available_authI [OF assms(1,2)]
  have st: "auth_store UR RR"
    using assms(1,2) by (intro auth_storeI) (simp_all add: available_repository_def)
  have uk: "keyed u_id (users_rows s)" and uw: "unique_col u_walletAddress (users_rows s)"
    and tok: "refresh_tokens_ok (tokens_rows s)"
    using assms(3) by (simp_all add: database_ok_def users_ok_def)
  obtain i where i: "u_id u = Some i" using keyed_key [OF uk assms(5)] by blast
  have f: "find_user UR (any_user\<lparr>uw_walletAddress := Some w\<rparr>) s = (Inr (Some (user_view None u)), s)"
  proof (rule available_auth_store.find_user_unique [OF av assms(5)])
    fix v assume "v \<in> set (users_rows s)"
    then show "user_matches (any_user\<lparr>uw_walletAddress := Some w\<rparr>) v \<longleftrightarrow> v = u"
      unfolding selects_user using unique_colD [OF uw _ assms(5) _ assms(6)] assms(6) by metis
  qed
  then have user: "validateStellarUser UR now w s = (Inr (user_view None u), s)"
    using assms(8,9) by (simp add: validateStellarUser_def op_simps)
  obtain j where j: "sign \<lparr>c_sub = Some i, c_role = u_role u, c_authMethod = u_authMethod u\<rparr>
      (accessTokenExpiresIn cfg) = Inr j"
    using assms(12) by blast
  obtain rows where iss: "createRefreshToken RR cfg now rnd (Some i) s = (Inr rnd, s\<lparr>tokens_rows := rows\<rparr>)"
    using available_auth_store.issue_succeeds [OF av assms(4) tok assms(11)] by blast
  have "w \<noteq> ''''" using assms(9) by auto
  then have "\<exists>resp. loginStellar UR RR sign cfg now rnd (JString w) s = (Inr resp, s\<lparr>tokens_rows := rows\<rparr>)
      \<and> refresh_token resp = rnd"
    using user iss j i assms(8-10) by (simp add: loginStellar_def login_def op_simps user_view_def)
  moreover have "active_row rnd (s\<lparr>tokens_rows := rows\<rparr>)"
    using token_issuer.issue_active [OF auth_store.issues [OF st assms(4)] iss]
    by (auto simp: active_row_def)
  moreover have "find_user UR (any_user\<lparr>uw_id := u_id u\<rparr>) (s\<lparr>tokens_rows := rows\<rparr>)
      = (Inr (Some (user_view None u)), s\<lparr>tokens_rows := rows\<rparr>)"
  proof (rule available_auth_store.find_user_unique [OF av])
    show "u \<in> set (users_rows (s\<lparr>tokens_rows := rows\<rparr>))" using assms(5) by simp
    fix v assume "v \<in> set (users_rows (s\<lparr>tokens_rows := rows\<rparr>))"
    then have v: "v \<in> set (users_rows s)" by simp
    show "user_matches (any_user\<lparr>uw_id := u_id u\<rparr>) v \<longleftrightarrow> v = u"
      unfolding i selects_user using keyedD [OF uk v assms(5)] i by metis
  qed
  ultimately show ?thesis
    using assms(7) by (auto simp: jwt_validate_def op_simps user_view_def)
qed

lemma wallet_login_of_deactivated_witness:
  "\<exists>resp s1. loginStellar users_table tokens_table sample_sign sample_cfg 1000 ''t5'' (JString wallet_a) sample_db
     = (Inr resp, s1) \<and> active_row (refresh_token resp) s1"
proof -
  have "\<exists>resp s1. loginStellar users_table tokens_table sample_sign sample_cfg 1000 ''t5'' (JString wallet_a) sample_db
     = (Inr resp, s1) \<and> active_row (refresh_token resp) s1
    \<and> jwt_validate users_table \<lparr>c_sub = u_id bob, c_role = u_role bob, c_authMethod = u_authMethod bob\<rparr> s1
        = (Inl (Unauthorized ''Unauthorized''), s1)"
    by (rule wallet_login_of_deactivated [OF users_tbl.available_repository_axioms
          tokens_tbl.available_repository_axioms sample_ok sample_lifetime [OF refl]])
      (simp_all add: sample_defs startsWith_def trim_def trim_start_def trim_end_def is_space_def char_code_def)
  then show ?thesis by blast
qed

text \<open>
  The user name a wallet login generates can be taken by somebody else: while a user without
  this wallet holds \<open>stellar_\<close> followed by the last eight characters of the address in lower
  case, the owner of the wallet cannot log in, and every attempt leaves the users as they are.
\<close>

theorem wallet_login_blocked_by_username:
  assumes "users_contract UR" and "users_ok (users_rows s)"
    and "u \<in> set (users_rows s)"
    and "u_username u = Some (''stellar_'' @ toLowerCase (slice_last 8 w))"
    and "\<forall>v\<in>set (users_rows s). u_walletAddress v \<noteq> Some w"
  shows "\<exists>e. validateStellarUser UR now w s = (Inl e, s)"
proof (cases "validateStellarUser UR now w s")
  case (Pair r s1)
  show ?thesis
  proof (cases r)
    case (Inl e)
    have "s1 = s"
      using Pair Inl by (auto simp: validateStellarUser_def find_user_def save_user_def op_simps write_Inl
          split: if_splits sum.splits option.splits)
    with Pair Inl show ?thesis by blast
  next
    case (Inr v)
    have len: "startsWith w ''G''" "length w = 56"
      using Pair Inr by (auto simp: validateStellarUser_def op_simps split: if_splits)
    let ?w = "query_of [any_user\<lparr>uw_walletAddress := Some w\<rparr>]"
    have "findOne UR ?w (users_rows s) \<noteq> Inr (Some x)" for x
      using repository.find_one_Some [OF assms(1), of ?w "users_rows s" x] assms(5)
      by (auto simp: selects_user)
    then obtain rows where sv: "saveRow UR now (stellar_user w) (users_rows s) = Inr (v, rows)"
      using Pair Inr len by (auto simp: validateStellarUser_def find_user_def save_user_def op_simps
          write_Inr_iff split: sum.splits option.splits)
    have rows: "mset rows = add_mset v (mset (users_rows s))" and v: "u_username v = u_username u"
      using repository.save_insert [OF assms(1) sv] assms(4) by (auto simp: user_fill_def)
    have "users_ok rows" by (rule repository.save_constraint [OF assms(1) sv assms(2)])
    then have "unique_col u_username (v # users_rows s)"
      using unique_col_mset_eq [of rows "v # users_rows s"] rows by (simp add: users_ok_def)
    then have False using assms(3,4) v by (auto simp: unique_col_def image_iff)
    then show ?thesis ..
  qed
qed

lemma wallet_a_suffix: "toLowerCase (slice_last 8 wallet_a) = ''aaaaawhf''"
  by code_simp

lemma wallet_login_blocked_by_username_witness:
  "\<exists>e. validateStellarUser users_table 5 wallet_a
     (empty_database\<lparr>users_rows := [alice\<lparr>u_username := Some ''stellar_aaaaawhf''\<rparr>]\<rparr>)
     = (Inl e, empty_database\<lparr>users_rows := [alice\<lparr>u_username := Some ''stellar_aaaaawhf''\<rparr>]\<rparr>)"
  by (rule wallet_login_blocked_by_username [OF users_tbl.repository_axioms,
        of _ "alice\<lparr>u_username := Some ''stellar_aaaaawhf''\<rparr>"])
    (simp_all add: wallet_a_suffix alice_def new_user_def table_eval)

section \<open>Guards and lifetimes\<close>

text \<open>
  The roles guard admits a request exactly when the route names no role or the user carries one
  of the named roles, and answers every other request with the same \<open>Forbidden\<close>.
\<close>

theorem roles_guard_exact:
  "canActivate roles who =
     (if roles = None \<or> roles = Some []
        \<or> (\<exists>rs u r. roles = Some rs \<and> who = Some u \<and> u_role u = Some r \<and> role_value r \<in> set rs)
      then Inr True
      else Inl (Forbidden ''You do not have permission to access this resource''))"
  by (auto simp: canActivate_def split: option.splits)

text \<open>
  An access lifetime written as a number of seconds, minutes, hours or days is announced as that
  many seconds.
\<close>

lemma match_expiry_show:
  "c \<in> {CHR ''s'', CHR ''m'', CHR ''h'', CHR ''d''} \<Longrightarrow> match_expiry (show_nat n @ [c]) = Some (show_nat n, c)"
proof -
  assume c: "c \<in> {CHR ''s'', CHR ''m'', CHR ''h'', CHR ''d''}"
  then have "\<not> is_digit c" by (auto simp: is_digit_def char_code_def)
  then show ?thesis
    using c show_nat_digits [of n] by (auto simp: match_expiry_def Let_def takeWhile_append dropWhile_append)
qed

theorem parseExpiresIn_seconds:
  assumes "(of_nat n :: rat) * 86400 \<le> 10 ^ 30"
  shows "parseExpiresIn (show_nat n @ ''s'') = Fin (of_nat n)
    \<and> parseExpiresIn (show_nat n @ ''m'') = Fin (of_nat (n * 60))
    \<and> parseExpiresIn (show_nat n @ ''h'') = Fin (of_nat (n * 3600))
    \<and> parseExpiresIn (show_nat n @ ''d'') = Fin (of_nat (n * 86400))"
proof -
  have "(of_nat n :: rat) \<le> of_nat (10 ^ 30)" using assms by simp
  then have "n \<le> 10 ^ 30" by (simp only: of_nat_le_iff)
  then have p: "parseInt (show_nat n) = Fin (of_nat n)" by (rule parseInt_show_nat)
  have m: "js_mul (Fin (of_nat n)) (Fin k) = Fin (of_nat n * k)" if "0 \<le> k" "k \<le> 86400" for k
  proof -
    have "of_nat n * k \<le> of_nat n * 86400" using that by (intro mult_left_mono) simp_all
    then have "\<bar>of_nat n * k\<bar> \<le> 10 ^ 30" using assms that by (simp add: abs_mult)
    then show ?thesis by (simp only: js_mul.simps to_number_small)
  qed
  show ?thesis
    using m [of 60] m [of 3600] m [of 86400]
    by (simp add: parseExpiresIn_def match_expiry_show p)
qed

lemma parseExpiresIn_seconds_witness: "parseExpiresIn (show_nat 15 @ ''m'') = Fin 900"
  using parseExpiresIn_seconds [of 15] by simp

end
