(* ===== verification/Pagination.thy ===== *)
theory Pagination
  imports Database
begin

text \<open>
  The pages the tip and notification lists are served in (\<open>formatPaginatedResult\<close> of
  \<open>src/src/tips/tips.service.ts\<close> and the object \<open>getNotifications\<close> returns), and what a client that
  walks them relies on: pages of a fixed size are consecutive slices of one list, and
  \<open>hasNextPage\<close> is true exactly while rows are left.
\<close>

record 'e paginated =
  pg_data :: "'e list"
  pg_total :: nat
  pg_page :: jsnum
  pg_limit :: jsnum
  pg_totalPages :: jsnum
  pg_hasNextPage :: bool
  pg_hasPreviousPage :: bool

definition formatPaginatedResult :: "'e list \<Rightarrow> nat \<Rightarrow> jsnum \<Rightarrow> jsnum \<Rightarrow> 'e paginated" where
  "formatPaginatedResult rows nrows page limit =
     (let totalPages = js_ceil (js_div (Fin (of_nat nrows)) limit)
      in \<lparr>pg_data = rows, pg_total = nrows, pg_page = page, pg_limit = limit,
          pg_totalPages = totalPages, pg_hasNextPage = js_lt page totalPages,
          pg_hasPreviousPage = js_lt (Fin 1) page\<rparr>)"

section \<open>Page arithmetic\<close>

definition pages_of :: "nat \<Rightarrow> nat \<Rightarrow> nat" where
  "pages_of nrows l = (nrows + l - 1) div l"

lemma pages_of_less_iff: "0 < l \<Longrightarrow> p < pages_of nrows l \<longleftrightarrow> p * l < nrows"
proof -
  assume l: "0 < l"
  have "p < pages_of nrows l \<longleftrightarrow> Suc p * l \<le> nrows + l - 1"
    unfolding pages_of_def using l by (simp add: less_eq_div_iff_mult_less_eq Suc_le_eq [symmetric])
  also have "\<dots> \<longleftrightarrow> p * l < nrows" using l by auto
  finally show ?thesis .
qed

lemma ceiling_divide: "0 < l \<Longrightarrow> \<lceil>(of_nat n :: rat) / of_nat l\<rceil> = int (pages_of n l)"
proof -
  assume l: "0 < l"
  have bounds: "pages_of n l * l < n + l" "n \<le> pages_of n l * l"
    using pages_of_less_iff [OF l, of "pages_of n l" n] pages_of_less_iff [OF l, of "pages_of n l - 1" n] l
    by (cases "pages_of n l"; auto)+
  show ?thesis
  proof (rule ceiling_unique)
    have "(of_nat (pages_of n l * l) :: rat) < of_nat (n + l)" using bounds(1) by (simp only: of_nat_less_iff)
    then show "of_int (int (pages_of n l)) - 1 < (of_nat n :: rat) / of_nat l"
      using l by (simp add: field_simps)
    have "(of_nat n :: rat) \<le> of_nat (pages_of n l * l)" using bounds(2) by (simp only: of_nat_le_iff)
    then show "(of_nat n :: rat) / of_nat l \<le> of_int (int (pages_of n l))"
      using l by (simp add: field_simps)
  qed
qed

text \<open>\<open>Number.MAX_SAFE_INTEGER\<close>: up to it, the arithmetic of the source on integers is exact.\<close>

definition max_safe :: nat where
  "max_safe = 2 ^ 53 - 1"

lemma to_number_nonneg:
  assumes "0 \<le> r" and "r \<le> of_nat n" and "n \<le> max_safe"
  shows "to_number r = Fin r"
proof (rule to_number_small)
  have "max_safe \<le> 10 ^ 30" by (simp add: max_safe_def)
  then have "(of_nat max_safe :: rat) \<le> of_nat (10 ^ 30)" by (simp only: of_nat_le_iff)
  moreover have "(of_nat n :: rat) \<le> of_nat max_safe" using assms(3) by (simp only: of_nat_le_iff)
  ultimately show "\<bar>r\<bar> \<le> 10 ^ 30" using assms(1,2) by simp
qed

lemma of_nat_small: "n \<le> max_safe \<Longrightarrow> to_number (of_nat n) = Fin (of_nat n)"
  by (rule to_number_nonneg [of _ n]) simp_all

lemma total_pages:
  assumes l: "0 < l" and n: "n \<le> max_safe"
  shows "js_ceil (js_div (Fin (of_nat n)) (Fin (of_nat l))) = Fin (of_nat (pages_of n l))"
proof -
  have "(of_nat n :: rat) / of_nat l \<le> of_nat n"
    using l by (simp add: divide_le_eq mult_le_cancel_left1)
  then have "to_number ((of_nat n :: rat) / of_nat l) = Fin (of_nat n / of_nat l)"
    using n by (intro to_number_nonneg [of _ n]) simp_all
  then show ?thesis using l ceiling_divide [OF l, of n] by simp
qed

lemma page_skip:
  assumes "1 \<le> p" and "p * l \<le> max_safe" and "0 < l"
  shows "js_mul (js_sub (Fin (of_nat p)) (Fin 1)) (Fin (of_nat l)) = Fin (of_nat ((p - 1) * l))"
proof -
  have "p \<le> p * l" using assms(3) by simp
  then have p: "p - 1 \<le> max_safe" using assms(2) by linarith
  have eq: "(of_nat p :: rat) - 1 = of_nat (p - 1)" using assms(1) by (simp add: of_nat_diff)
  have "(p - 1) * l \<le> p * l" by (rule mult_right_mono) simp_all
  then have le: "(p - 1) * l \<le> max_safe" using assms(2) by linarith
  show ?thesis
    by (simp only: js_sub.simps eq of_nat_small [OF p] js_mul.simps of_nat_mult [symmetric]
        of_nat_small [OF le])
qed

section \<open>Walking the pages\<close>

text \<open>
  A list served in pages: \<open>fetch p\<close> is what the server answers for page \<open>p\<close> of size \<open>l\<close>, from
  the rows \<open>src\<close>.
\<close>

locale page_source =
  fixes fetch :: "nat \<Rightarrow> 'e paginated"
    and src :: "'e list"
    and l :: nat
  assumes page_size: "0 < l"
    and page_data: "1 \<le> p \<Longrightarrow> p * l \<le> max_safe \<Longrightarrow> pg_data (fetch p) = take l (drop ((p - 1) * l) src)"
    and page_next: "1 \<le> p \<Longrightarrow> p * l \<le> max_safe \<Longrightarrow> pg_hasNextPage (fetch p) \<longleftrightarrow> p * l < length src"
begin

lemma first_pages:
  "P * l \<le> max_safe \<Longrightarrow> concat (map (\<lambda>p. pg_data (fetch p)) [1..<Suc P]) = take (P * l) src"
proof (induction P)
  case 0
  then show ?case by simp
next
  case (Suc P)
  have le: "P * l \<le> max_safe" using Suc.prems by simp
  have "pg_data (fetch (Suc P)) = take l (drop (P * l) src)"
    using page_data [of "Suc P"] Suc.prems by simp
  then show ?case
    using Suc.IH [OF le] by (simp add: take_add [symmetric] add.commute)
qed

text \<open>The pages up to the first without a successor are all the rows, each once and in order.\<close>

lemma walk_complete:
  assumes "1 \<le> P" and "P * l \<le> max_safe" and "\<not> pg_hasNextPage (fetch P)"
  shows "concat (map (\<lambda>p. pg_data (fetch p)) [1..<Suc P]) = src"
  using first_pages [OF assms(2)] page_next [OF assms(1,2)] assms(3) by simp

lemma next_page_not_empty:
  assumes "1 \<le> p" and "Suc p * l \<le> max_safe"
  shows "pg_hasNextPage (fetch p) \<longleftrightarrow> pg_data (fetch (Suc p)) \<noteq> []"
proof -
  have "p * l \<le> Suc p * l" by simp
  then have p: "p * l \<le> max_safe" using assms(2) by linarith
  show ?thesis
    using page_next [OF assms(1) p] page_data [OF _ assms(2)] page_size by auto
qed

end

lemma format_has_next:
  assumes l: "0 < l" and p: "p * l \<le> max_safe"
  shows "pg_hasNextPage (formatPaginatedResult rows n (Fin (of_nat p)) (Fin (of_nat l))) \<longleftrightarrow> p * l < n"
proof (cases "(of_nat n :: rat) / of_nat l < overflow_bound")
  case True
  have pos: "0 \<le> (of_nat n :: rat) / of_nat l" by simp
  have "0 < overflow_bound" using overflow_bound_big by (rule less_le_trans [rotated]) simp
  with pos have "\<not> (of_nat n :: rat) / of_nat l \<le> - overflow_bound" by linarith
  with True have "to_number ((of_nat n :: rat) / of_nat l) = Fin (of_nat n / of_nat l)"
    by (simp add: to_number_def)
  then show ?thesis
    using l ceiling_divide [OF l, of n] pages_of_less_iff [OF l]
    by (simp add: formatPaginatedResult_def Let_def)
next
  case False
  have "p \<le> p * l" using l by simp
  with p have "p \<le> max_safe" by linarith
  then have "(of_nat p :: rat) \<le> of_nat max_safe" by (simp only: of_nat_le_iff)
  also have "\<dots> < overflow_bound" by (simp add: max_safe_def overflow_bound_def)
  finally have "(of_nat p :: rat) < of_nat n / of_nat l" using False by simp
  then have "(of_nat (p * l) :: rat) < of_nat n" using l by (simp add: field_simps)
  then have "p * l < n" by (simp only: of_nat_less_iff)
  then show ?thesis
    using l False by (simp add: formatPaginatedResult_def Let_def to_number_def)
qed

text \<open>
  The order by which the rows of a query are sorted decides their sequence when no two of them
  tie, so that every page is cut from the same list.
\<close>

lemma sorted_unique:
  assumes "mset xs = mset ys" and "sorted_wrt le xs" and "sorted_wrt le ys"
    and "\<And>a b. a \<in> set xs \<Longrightarrow> b \<in> set xs \<Longrightarrow> le a b \<Longrightarrow> le b a \<Longrightarrow> a = b"
  shows "xs = ys"
  using assms
proof (induction xs arbitrary: ys)
  case Nil
  then show ?case by simp
next
  case (Cons x xs)
  then obtain y ys' where ys: "ys = y # ys'" by (cases ys) auto
  have set: "insert x (set xs) = insert y (set ys')"
    using mset_eq_setD [OF Cons.prems(1)] ys by simp
  have "x = y"
  proof (rule ccontr)
    assume neq: "x \<noteq> y"
    with set have "y \<in> set xs" and "x \<in> set ys'" by auto
    then have "le x y" and "le y x" using Cons.prems(2,3) ys by auto
    with Cons.prems(4) [of x y] \<open>y \<in> set xs\<close> neq show False by simp
  qed
  moreover have "xs = ys'"
    using Cons.prems ys \<open>x = y\<close> by (intro Cons.IH) auto
  ultimately show ?case using ys by simp
qed

context repository
begin

text \<open>
  When no two of the selected rows tie, a page the database answers is the slice of one list that
  does not depend on the page.
\<close>

lemma page_slice:
  assumes f: "findAndCount R q rows = Inr (es, n)"
    and k: "fo_skip q = Some (Fin (of_nat k))" and m: "fo_take q = Some (Fin (of_nat m))" "0 < m"
    and ord: "total_preorder (ordered (fo_order q))"
    and ties: "\<And>a b. a \<in> set rows \<Longrightarrow> b \<in> set rows \<Longrightarrow> selects matches q a \<Longrightarrow> selects matches q b \<Longrightarrow>
      ordered (fo_order q) a b \<Longrightarrow> ordered (fo_order q) b a \<Longrightarrow> a = b"
  shows "es = map (view (fo_select q)) (take m (drop k (selected matches ordered q rows)))
    \<and> n = length (selected matches ordered q rows)"
proof -
  obtain ss where ss: "mset ss = filter_mset (selects matches q) (mset rows)"
    "sorted_wrt (ordered (fo_order q)) ss"
    and es: "es = map (view (fo_select q)) (take m (drop k ss))" "n = length ss"
    using find_and_count [OF f k m] by blast
  have "mset ss = mset (selected matches ordered q rows)" by (simp add: ss(1) selected_def)
  moreover have "sorted_wrt (ordered (fo_order q)) (selected matches ordered q rows)"
    unfolding selected_def by (rule sorted_sort_by [OF ord])
  moreover have "set ss = set (filter (selects matches q) rows)"
    using mset_eq_setD [OF ss(1) [folded mset_filter]] .
  ultimately have "ss = selected matches ordered q rows"
    using ss(2) ties by (intro sorted_unique [where le = "ordered (fo_order q)"]) auto
  with es show ?thesis by simp
qed

end

end
