(* ===== verification/Notifications.thy ===== *)
theory Notifications
  imports Pagination
begin

text \<open>
  \<open>NotificationsService\<close> and \<open>NotificationsController\<close> (\<open>src/src/notifications\<close>) on a
  repository \<open>NR\<close> of notifications: the operations, the contract \<open>notifier\<close> the tip and webhook
  services rely on, and the properties of reading, listing and marking notifications.
\<close>

section \<open>The service\<close>

definition createNotification :: "(notification_where, notification) repository_ops \<Rightarrow> int \<Rightarrow> string \<Rightarrow>
    notification_type \<Rightarrow> string \<Rightarrow> string \<Rightarrow> jsval option \<Rightarrow> ('z database_scheme, notification) op" where
  "createNotification NR now userId type title message metadata =
     write_notifications (saveRow NR now
       \<lparr>n_id = None, n_userId = userId, n_type = type, n_title = title, n_message = message,
        n_isRead = None, n_metadata = metadata, n_createdAt = None\<rparr>)"

definition getNotifications :: "(notification_where, notification) repository_ops \<Rightarrow> string \<Rightarrow>
    jsnum option \<Rightarrow> jsnum option \<Rightarrow> ('z database_scheme, notification paginated) op" where
  "getNotifications NR userId page_arg limit_arg =
     (let page = (case page_arg of None \<Rightarrow> Fin 1 | Some p \<Rightarrow> p);
          limit = (case limit_arg of None \<Rightarrow> Fin 20 | Some l \<Rightarrow> l)
      in andThen
        (read_notifications (findAndCount NR
           ((query_of [any_notification\<lparr>nw_userId := Some userId\<rparr>])
              \<lparr>fo_order := [(''createdAt'', ''DESC'')],
               fo_skip := Some (js_mul (js_sub page (Fin 1)) limit), fo_take := Some limit\<rparr>)))
        (\<lambda>(notifications, nrows). return_op
           \<lparr>pg_data = notifications, pg_total = nrows, pg_page = page, pg_limit = limit,
            pg_totalPages = js_ceil (js_div (Fin (of_nat nrows)) limit),
            pg_hasNextPage = js_lt page (js_ceil (js_div (Fin (of_nat nrows)) limit)),
            pg_hasPreviousPage = js_lt (Fin 1) page\<rparr>))"

definition markAsRead :: "(notification_where, notification) repository_ops \<Rightarrow> int \<Rightarrow> string \<Rightarrow> string \<Rightarrow>
    ('z database_scheme, notification) op" where
  "markAsRead NR now notificationId userId =
     andThen (read_notifications (findOne NR
        (query_of [any_notification\<lparr>nw_id := Some notificationId, nw_userId := Some userId\<rparr>])))
     (\<lambda>found. case found of
        None \<Rightarrow> throw (NotFound ''Notification not found'')
      | Some n \<Rightarrow> write_notifications (saveRow NR now (n\<lparr>n_isRead := Some True\<rparr>)))"

definition getUnreadCount :: "(notification_where, notification) repository_ops \<Rightarrow> string \<Rightarrow>
    ('z database_scheme, nat) op" where
  "getUnreadCount NR userId =
     read_notifications (countRows NR
       (query_of [any_notification\<lparr>nw_userId := Some userId, nw_isRead := Some False\<rparr>]))"

text \<open>\<open>show_num\<close> is how a number is rendered in a template literal.\<close>

definition notifyTipReceived :: "(notification_where, notification) repository_ops \<Rightarrow> (jsnum \<Rightarrow> string) \<Rightarrow>
    int \<Rightarrow> string \<Rightarrow> string \<Rightarrow> jsnum \<Rightarrow> string \<Rightarrow> ('z database_scheme, notification) op" where
  "notifyTipReceived NR show_num now creatorId senderWallet amount asset =
     createNotification NR now creatorId TIP_RECEIVED ''Tip Received''
       (''You received a tip of '' @ show_num amount @ '' '' @ asset)
       (Some (JObject [(''senderWallet'', JString senderWallet), (''amount'', JNumber amount),
          (''asset'', JString asset)]))"

definition notifyDiscrepancyDetected :: "(notification_where, notification) repository_ops \<Rightarrow> int \<Rightarrow>
    string \<Rightarrow> jsval \<Rightarrow> ('z database_scheme, notification) op" where
  "notifyDiscrepancyDetected NR now creatorId metadata =
     createNotification NR now creatorId DISCREPANCY_DETECTED ''On-chain discrepancy detected''
       ''A tip verification mismatch was detected between Horizon and the Soroban contract.''
       (Some metadata)"

section \<open>The controller\<close>

text \<open>
  The routes, behind \<open>JwtAuthGuard\<close>: the user's id is the one of the verified token. The query
  parameters are strings, \<open>None\<close> when absent.
\<close>

definition getNotifications_route :: "(notification_where, notification) repository_ops \<Rightarrow> string \<Rightarrow>
    string option \<Rightarrow> string option \<Rightarrow> ('z database_scheme, notification paginated) op" where
  "getNotifications_route NR user page limit =
     getNotifications NR user
       (Some (case page of None \<Rightarrow> Fin 1 | Some s \<Rightarrow> js_Number s))
       (Some (case limit of None \<Rightarrow> Fin 20 | Some s \<Rightarrow> js_Number s))"

definition getUnreadCount_route :: "(notification_where, notification) repository_ops \<Rightarrow> string \<Rightarrow>
    ('z database_scheme, nat) op" where
  "getUnreadCount_route NR user = getUnreadCount NR user"

definition markAsRead_route :: "(notification_where, notification) repository_ops \<Rightarrow> int \<Rightarrow> string \<Rightarrow>
    string \<Rightarrow> ('z database_scheme, notification) op" where
  "markAsRead_route NR now user i = markAsRead NR now i user"

section \<open>What the service does to the table\<close>

lemmas notification_route_defs =
  getNotifications_route_def getUnreadCount_route_def markAsRead_route_def

text \<open>The unread notifications of a user, which the count is specified by.\<close>

definition unread :: "string \<Rightarrow> notification list \<Rightarrow> notification multiset" where
  "unread userId rows = filter_mset (\<lambda>n. n_userId n = userId \<and> n_isRead n = Some False) (mset rows)"

locale notifications_service = repository NR notification_matches view_all
    "order_by notification_col_le" n_id notification_fill notification_merge "\<lambda>_. True" notifications_ok
  for NR :: "(notification_where, notification) repository_ops"
begin

lemma create_Inr:
  assumes "createNotification NR now u ty ti m md s = (Inr n, s')"
  shows "\<exists>rows i. s' = s\<lparr>notifications_rows := rows\<rparr>
    \<and> mset rows = add_mset n (mset (notifications_rows s))
    \<and> n = \<lparr>n_id = Some i, n_userId = u, n_type = ty, n_title = ti, n_message = m,
        n_isRead = Some False, n_metadata = md, n_createdAt = Some now\<rparr>"
  using assms unfolding createNotification_def write_Inr_iff
  by (auto dest!: save_insert simp: notification_fill_def)

lemma create_Inl:
  "createNotification NR now u ty ti m md s = (Inl e, s') \<Longrightarrow> s' = s"
  by (simp add: createNotification_def write_Inl)

lemma create_constraint:
  assumes "createNotification NR now u ty ti m md s = (r, s')" and "notifications_ok (notifications_rows s)"
  shows "notifications_ok (notifications_rows s')"
  using assms save_constraint unfolding createNotification_def write_defs
  by (auto split: sum.splits)

lemma unread_count:
  assumes "getUnreadCount NR u s = (Inr k, s')"
  shows "k = size (unread u (notifications_rows s)) \<and> s' = s"
proof -
  have "selects notification_matches
      (query_of [any_notification\<lparr>nw_userId := Some u, nw_isRead := Some False\<rparr>])
      = (\<lambda>n. n_userId n = u \<and> n_isRead n = Some False)"
    by (auto simp: fun_eq_iff notification_matches_def any_notification_def)
  moreover have "countRows NR (query_of [any_notification\<lparr>nw_userId := Some u, nw_isRead := Some False\<rparr>])
      (notifications_rows s) = Inr k" and "s' = s"
    using assms by (auto simp: getUnreadCount_def op_simps)
  ultimately show ?thesis using count_rows by (metis unread_def)
qed

text \<open>Marking finds one row of the user by its key and writes that row alone.\<close>

lemma mark_Inr:
  assumes run: "markAsRead NR now i u s = (Inr n, s')" and ok: "notifications_ok (notifications_rows s)"
  obtains r rows where "r \<in> set (notifications_rows s)" and "n_id r = Some i" and "n_userId r = u"
    and "n = r\<lparr>n_isRead := Some True\<rparr>" and "s' = s\<lparr>notifications_rows := rows\<rparr>"
    and "mset rows = add_mset n (mset (notifications_rows s) - {#r#})"
proof -
  let ?q = "query_of [any_notification\<lparr>nw_id := Some i, nw_userId := Some u\<rparr>]"
  obtain r rows where f: "findOne NR ?q (notifications_rows s) = Inr (Some r)"
    and sv: "saveRow NR now (r\<lparr>n_isRead := Some True\<rparr>) (notifications_rows s) = Inr (n, rows)"
    and s': "s' = s\<lparr>notifications_rows := rows\<rparr>"
    using run by (auto simp: markAsRead_def op_simps write_Inr_iff split: sum.splits option.splits)
  have r: "r \<in> set (notifications_rows s)" "n_id r = Some i" "n_userId r = u"
    using find_one_Some [OF f] by (auto simp: notification_matches_def any_notification_def)
  have "notification_merge r (r\<lparr>n_isRead := Some True\<rparr>) = r\<lparr>n_isRead := Some True\<rparr>"
    by (simp add: notification_merge_def)
  then have "n = r\<lparr>n_isRead := Some True\<rparr>"
    and "mset rows = add_mset n (mset (notifications_rows s) - {#r#})"
    using save_update [OF sv ok r(1,2)] r(2) by auto
  with that r s' show thesis by blast
qed

lemma mark_Inl: "markAsRead NR now i u s = (Inl e, s') \<Longrightarrow> s' = s"
  by (auto simp: markAsRead_def op_simps write_Inl split: sum.splits option.splits)

lemma mark_constraint:
  assumes "markAsRead NR now i u s = (Inr n, s')" and "notifications_ok (notifications_rows s)"
  shows "notifications_ok (notifications_rows s')"
  using assms save_constraint
  by (auto simp: markAsRead_def op_simps write_Inr_iff split: sum.splits option.splits)

lemma mark_foreign:
  assumes "\<And>r. r \<in> set (notifications_rows s) \<Longrightarrow> n_id r = Some i \<Longrightarrow> n_userId r \<noteq> u"
  shows "\<exists>e. markAsRead NR now i u s = (Inl e, s)"
proof -
  let ?f = "findOne NR (query_of [any_notification\<lparr>nw_id := Some i, nw_userId := Some u\<rparr>])
    (notifications_rows s)"
  have "?f \<noteq> Inr (Some a)" for a
    using assms find_one_Some by (force simp: notification_matches_def any_notification_def)
  then show ?thesis
    by (cases ?f) (auto simp: markAsRead_def op_simps split: option.splits)
qed

end

interpretation notifications_srv: notifications_service notifications_table
  by unfold_locales

section \<open>The contract the other services rely on\<close>

text \<open>
  \<open>notify\<close> stands for \<open>notifyTipReceived\<close> at a given instant: it adds one unread notification of
  the given user and touches nothing else, or fails and touches nothing.
\<close>

locale notifier =
  fixes notify :: "string \<Rightarrow> string \<Rightarrow> jsnum \<Rightarrow> string \<Rightarrow> ('z database_scheme, notification) op"
  assumes notify_Inr: "notify c w a x s = (Inr n, s') \<Longrightarrow> \<exists>rows. s' = s\<lparr>notifications_rows := rows\<rparr>
      \<and> mset rows = add_mset n (mset (notifications_rows s))
      \<and> n_userId n = c \<and> n_type n = TIP_RECEIVED \<and> n_isRead n = Some False"
    and notify_Inl: "notify c w a x s = (Inl e, s') \<Longrightarrow> s' = s"
    and notify_constraint: "notify c w a x s = (r, s') \<Longrightarrow> notifications_ok (notifications_rows s) \<Longrightarrow>
      notifications_ok (notifications_rows s')"
begin

lemma notify_unread:
  assumes "notify c w a x s = (Inr n, s')"
  shows "unread c (notifications_rows s') = add_mset n (unread c (notifications_rows s))"
    and "u \<noteq> c \<Longrightarrow> unread u (notifications_rows s') = unread u (notifications_rows s)"
  using notify_Inr [OF assms] by (auto simp: unread_def)

lemma notify_rest:
  assumes "notify c w a x s = (r, s')"
  shows "users_rows s' = users_rows s" and "tips_rows s' = tips_rows s"
    and "tokens_rows s' = tokens_rows s"
  using assms by (cases r; auto dest!: notify_Inr notify_Inl)+

lemma notify_length:
  assumes "notify c w a x s = (Inr n, s')"
  shows "length (notifications_rows s') = Suc (length (notifications_rows s))"
proof -
  obtain rows where "s' = s\<lparr>notifications_rows := rows\<rparr>"
    and "mset rows = add_mset n (mset (notifications_rows s))"
    using notify_Inr [OF assms] by blast
  moreover from this(2) have "length rows = Suc (length (notifications_rows s))"
    by (metis size_add_mset size_mset)
  ultimately show ?thesis by simp
qed

lemma notify_preserves_ok: "preserves database_ok (notify c w a x)"
  using notify_rest notify_constraint by (auto simp: database_ok_def intro!: preservesI)

end

context notifications_service
begin

lemma notifies: "notifier (notifyTipReceived NR show_num now)"
proof
  fix c w a x s n s'
  assume run: "notifyTipReceived NR show_num now c w a x s = (Inr n, s')"
  show "\<exists>rows. s' = s\<lparr>notifications_rows := rows\<rparr>
      \<and> mset rows = add_mset n (mset (notifications_rows s))
      \<and> n_userId n = c \<and> n_type n = TIP_RECEIVED \<and> n_isRead n = Some False"
    using create_Inr [OF run [unfolded notifyTipReceived_def]] by force
next
  fix c w a x s e s'
  assume "notifyTipReceived NR show_num now c w a x s = (Inl e, s')"
  then show "s' = s" unfolding notifyTipReceived_def by (rule create_Inl)
next
  fix c w a x s r s'
  assume "notifyTipReceived NR show_num now c w a x s = (r, s')"
    and "notifications_ok (notifications_rows s)"
  then show "notifications_ok (notifications_rows s')"
    unfolding notifyTipReceived_def by (rule create_constraint)
qed

end

sublocale notifications_service \<subseteq> tip_received: notifier "notifyTipReceived NR show_num now"
  for show_num now
  by (rule notifies)

interpretation tip_notifier: notifier "notifyTipReceived notifications_table show_num now"
  for show_num now
  by (rule notifications_srv.notifies)

lemma notifyTipReceived_notifier:
  "notifications_contract NR \<Longrightarrow> notifier (notifyTipReceived NR show_num now)"
  by (rule notifications_service.notifies) (simp add: notifications_service_def)

section \<open>Pages of notifications\<close>

definition page_of :: "'e paginated result \<times> 's \<Rightarrow> 'e paginated" where
  "page_of r = (case fst r of Inr p \<Rightarrow> p
     | Inl e \<Rightarrow> \<lparr>pg_data = [], pg_total = 0, pg_page = Fin 1, pg_limit = Fin 1, pg_totalPages = Fin 0,
         pg_hasNextPage = False, pg_hasPreviousPage = False\<rparr>)"

abbreviation notifications_page :: "(notification_where, notification) repository_ops \<Rightarrow> string \<Rightarrow> nat \<Rightarrow>
    nat \<Rightarrow> 'z database_scheme \<Rightarrow> notification paginated result \<times> 'z database_scheme" where
  "notifications_page NR u l p s \<equiv>
     getNotifications NR u (Some (Fin (of_nat p))) (Some (Fin (of_nat l))) s"

text \<open>The list the pages are cut from: the notifications of the user, newest first.\<close>

definition newest_first :: "string \<Rightarrow> notification list \<Rightarrow> notification list" where
  "newest_first u rows = sort_by (order_by notification_col_le [(''createdAt'', ''DESC'')])
     (filter (\<lambda>n. n_userId n = u) rows)"

lemma newest_first_set: "set (newest_first u rows) = {n \<in> set rows. n_userId n = u}"
proof -
  have "mset (newest_first u rows) = mset (filter (\<lambda>n. n_userId n = u) rows)"
    by (simp add: newest_first_def)
  from mset_eq_setD [OF this] show ?thesis by simp
qed

lemma newest_first_mset: "mset (newest_first u rows) = filter_mset (\<lambda>n. n_userId n = u) (mset rows)"
  by (simp add: newest_first_def)

lemma selects_of_user [simp]:
  "selects notification_matches ((query_of [any_notification\<lparr>nw_userId := Some u\<rparr>])
     \<lparr>fo_order := os, fo_skip := k, fo_take := t\<rparr>) = (\<lambda>n. n_userId n = u)"
  by (auto simp: fun_eq_iff selects_def notification_matches_def any_notification_def)

lemma getNotifications_format:
  "getNotifications NR u (Some p) (Some l) s =
     (case findAndCount NR ((query_of [any_notification\<lparr>nw_userId := Some u\<rparr>])
         \<lparr>fo_order := [(''createdAt'', ''DESC'')], fo_skip := Some (js_mul (js_sub p (Fin 1)) l),
          fo_take := Some l\<rparr>) (notifications_rows s) of
        Inl m \<Rightarrow> (Inl (JsError m), s)
      | Inr (es, n) \<Rightarrow> (Inr (formatPaginatedResult es n p l), s))"
  by (cases "findAndCount NR ((query_of [any_notification\<lparr>nw_userId := Some u\<rparr>])
      \<lparr>fo_order := [(''createdAt'', ''DESC'')], fo_skip := Some (js_mul (js_sub p (Fin 1)) l),
       fo_take := Some l\<rparr>) (notifications_rows s)")
    (simp_all add: getNotifications_def Let_def op_simps formatPaginatedResult_def split_def)

lemma order_by_createdAt_tie:
  assumes "order_by notification_col_le [(''createdAt'', ''DESC'')] a b"
    and "order_by notification_col_le [(''createdAt'', ''DESC'')] b a"
  shows "n_createdAt a = n_createdAt b"
  using assms by (simp add: notification_col_le_def)

context notifications_service
begin

text \<open>
  When no two notifications of the user were created at the same instant, a page the database
  answers is the slice of the one sorted list.
\<close>

lemma page_is_slice:
  assumes run: "fst (notifications_page NR u l p s) = Inr pg"
    and ties: "inj_on n_createdAt {n \<in> set (notifications_rows s). n_userId n = u}"
    and p: "1 \<le> p" "p * l \<le> max_safe" and l: "0 < l"
  shows "pg_data pg = take l (drop ((p - 1) * l) (newest_first u (notifications_rows s)))
    \<and> (pg_hasNextPage pg \<longleftrightarrow> p * l < length (newest_first u (notifications_rows s)))"
proof -
  let ?le = "order_by notification_col_le [(''createdAt'', ''DESC'')]"
  let ?q = "(query_of [any_notification\<lparr>nw_userId := Some u\<rparr>])\<lparr>fo_order := [(''createdAt'', ''DESC'')],
      fo_skip := Some (Fin (of_nat ((p - 1) * l))), fo_take := Some (Fin (of_nat l))\<rparr>"
  obtain es n where f: "findAndCount NR ?q (notifications_rows s) = Inr (es, n)"
    and pg: "pg = formatPaginatedResult es n (Fin (of_nat p)) (Fin (of_nat l))"
    using run unfolding getNotifications_format page_skip [OF p l]
    by (auto split: sum.splits)
  obtain ss where m: "mset ss = filter_mset (\<lambda>n. n_userId n = u) (mset (notifications_rows s))"
    and srt: "sorted_wrt ?le ss" and es: "es = take l (drop ((p - 1) * l) ss)" and n: "n = length ss"
    using find_and_count [OF f _ _ l, of "(p - 1) * l"]
    by (auto simp: view_all_def [abs_def] simp del: of_nat_mult order_by.simps)
  have "set ss = {n \<in> set (notifications_rows s). n_userId n = u}"
    using mset_eq_setD [OF m [folded mset_filter]] by auto
  then have distinct_times: "a = b" if "a \<in> set ss" "b \<in> set ss" "?le a b" "?le b a" for a b
    using ties order_by_createdAt_tie [OF that(3,4)] that(1,2) by (auto simp: inj_on_def)
  have "sorted_wrt ?le (newest_first u (notifications_rows s))"
    unfolding newest_first_def by (rule sorted_sort_by [OF total_preorder_notification])
  with m srt distinct_times have "ss = newest_first u (notifications_rows s)"
    by (intro sorted_unique [where le = ?le]) (simp_all add: newest_first_mset del: order_by.simps)
  then show ?thesis
    using pg es n format_has_next [OF l p(2)] by (simp add: formatPaginatedResult_def Let_def)
qed

end

lemma notifications_page_source:
  assumes NR: "notifications_available NR"
    and ties: "inj_on n_createdAt {n \<in> set (notifications_rows s). n_userId n = u}" and l: "0 < l"
  shows "page_source (\<lambda>p. page_of (notifications_page NR u l p s))
    (newest_first u (notifications_rows s)) l"
proof
  have answered: "\<exists>pg. fst (notifications_page NR u l p s) = Inr pg" for p
  proof -
    obtain es n where "findAndCount NR ((query_of [any_notification\<lparr>nw_userId := Some u\<rparr>])
      \<lparr>fo_order := [(''createdAt'', ''DESC'')],
       fo_skip := Some (js_mul (js_sub (Fin (of_nat p)) (Fin 1)) (Fin (of_nat l))),
       fo_take := Some (Fin (of_nat l))\<rparr>) (notifications_rows s) = Inr (es, n)"
      using available_repository.find_and_count_available [OF NR] by fast
    then show ?thesis by (simp add: getNotifications_format)
  qed
  fix p :: nat
  assume p: "1 \<le> p" "p * l \<le> max_safe"
  have srv: "notifications_service NR"
    using NR by (simp add: notifications_service_def available_repository_def)
  obtain pg where pg: "fst (notifications_page NR u l p s) = Inr pg"
    using answered by blast
  then have "page_of (notifications_page NR u l p s) = pg" by (simp add: page_of_def)
  then show "pg_data (page_of (notifications_page NR u l p s)) =
      take l (drop ((p - 1) * l) (newest_first u (notifications_rows s)))"
    and "pg_hasNextPage (page_of (notifications_page NR u l p s)) \<longleftrightarrow>
      p * l < length (newest_first u (notifications_rows s))"
    using notifications_service.page_is_slice [OF srv pg ties p l] by simp_all
qed (rule l)

text \<open>The sort of the table is deterministic, so that its pages are slices of one list in any case.\<close>

lemma table_page:
  assumes p: "1 \<le> p" "p * l \<le> max_safe" and l: "0 < l"
  shows "page_of (notifications_page notifications_table u l p s) =
    formatPaginatedResult (take l (drop ((p - 1) * l) (newest_first u (notifications_rows s))))
      (length (newest_first u (notifications_rows s))) (Fin (of_nat p)) (Fin (of_nat l))"
proof -
  have "length (newest_first u rows) = length (filter (\<lambda>n. n_userId n = u) rows)" for rows
    unfolding newest_first_def by (metis mset_sort_by size_mset)
  then show ?thesis
    unfolding getNotifications_format page_skip [OF p l]
    by (simp add: notifications_table_def table_def selected_def newest_first_def
        page_of_def take_from_def skip_from_def view_all_def [abs_def] del: of_nat_mult)
qed

interpretation notification_pages: page_source
  "\<lambda>p. page_of (notifications_page notifications_table u (Suc k) p s)"
  "newest_first u (notifications_rows s)" "Suc k" for u k s
proof
  fix p
  assume p: "1 \<le> p" "p * Suc k \<le> max_safe"
  show "pg_data (page_of (notifications_page notifications_table u (Suc k) p s)) =
      take (Suc k) (drop ((p - 1) * Suc k) (newest_first u (notifications_rows s)))"
    by (simp only: table_page [OF p zero_less_Suc]) (simp add: formatPaginatedResult_def Let_def)
  show "pg_hasNextPage (page_of (notifications_page notifications_table u (Suc k) p s)) \<longleftrightarrow>
      p * Suc k < length (newest_first u (notifications_rows s))"
    by (simp only: table_page [OF p zero_less_Suc] format_has_next [OF zero_less_Suc p(2)])
qed simp

section \<open>Properties\<close>

lemma selected_matches_user: "notifications_contract NR \<Longrightarrow> notifications_service NR"
  by (simp add: notifications_service_def)

text \<open>
  A user can mark only notifications of their own: for an id no notification of the user has,
  the request fails (with \<open>Notification not found\<close> when the database answers) and changes nothing.
\<close>

theorem markAsRead_owner_only:
  assumes "notifications_contract NR"
    and "\<forall>r\<in>set (notifications_rows s). n_id r = Some i \<longrightarrow> n_userId r \<noteq> u"
  shows "\<exists>e. markAsRead_route NR now u i s = (Inl e, s)"
  unfolding markAsRead_route_def
  by (rule notifications_service.mark_foreign [OF selected_matches_user [OF assms(1)]])
    (use assms(2) in blast)

definition sample_notification :: "string \<Rightarrow> string \<Rightarrow> int \<Rightarrow> notification" where
  "sample_notification i u t = \<lparr>n_id = Some i, n_userId = u, n_type = TIP_RECEIVED,
     n_title = ''Tip Received'', n_message = '''', n_isRead = Some False, n_metadata = None,
     n_createdAt = Some t\<rparr>"

definition sample_inbox :: database where
  "sample_inbox = empty_database\<lparr>notifications_rows :=
     [sample_notification ''n1'' ''alice'' 1, sample_notification ''n2'' ''bob'' 2,
      sample_notification ''n3'' ''alice'' 3]\<rparr>"

lemma markAsRead_owner_only_witness:
  "\<exists>e. markAsRead_route notifications_table 5 ''bob'' ''n1'' sample_inbox = (Inl e, sample_inbox)"
  by (rule markAsRead_owner_only [OF notifications_tbl.repository_axioms])
    (simp add: sample_inbox_def sample_notification_def)

text \<open>
  Marking a notification as read returns the stored notification with the flag set and rewrites
  that row alone: the set of unread notifications loses it, every other user's inbox and the other
  tables stay, and the table keeps its constraint.
\<close>

theorem markAsRead_effect:
  assumes "notifications_contract NR" and "notifications_ok (notifications_rows s)"
    and "markAsRead_route NR now u i s = (Inr n, s')"
  shows "\<exists>r\<in>set (notifications_rows s). n_id r = Some i \<and> n_userId r = u
    \<and> n = r\<lparr>n_isRead := Some True\<rparr>
    \<and> mset (notifications_rows s') = add_mset n (mset (notifications_rows s) - {#r#})
    \<and> unread u (notifications_rows s') = unread u (notifications_rows s) - {#r#}
    \<and> (\<forall>v. v \<noteq> u \<longrightarrow> unread v (notifications_rows s') = unread v (notifications_rows s))
    \<and> notifications_ok (notifications_rows s')
    \<and> s' = s\<lparr>notifications_rows := notifications_rows s'\<rparr>"
proof -
  note srv = selected_matches_user [OF assms(1)]
  note run = assms(3) [unfolded markAsRead_route_def]
  obtain r rows where r: "r \<in> set (notifications_rows s)" "n_id r = Some i" "n_userId r = u"
    and n: "n = r\<lparr>n_isRead := Some True\<rparr>" and s': "s' = s\<lparr>notifications_rows := rows\<rparr>"
    and rows: "mset rows = add_mset n (mset (notifications_rows s) - {#r#})"
    by (rule notifications_service.mark_Inr [OF srv run assms(2)])
  have "notifications_ok rows"
    using notifications_service.mark_constraint [OF srv run assms(2)] s' by simp
  moreover have "unread u rows = unread u (notifications_rows s) - {#r#}"
    using n r by (cases "n_isRead r = Some False") (auto simp: unread_def rows)
  moreover have "unread v rows = unread v (notifications_rows s)" if "v \<noteq> u" for v
    using n r that by (auto simp: unread_def rows)
  ultimately show ?thesis using r n rows s' by (intro bexI [of _ r]) auto
qed

lemma markAsRead_effect_witness:
  "\<exists>n s'. markAsRead_route notifications_table 5 ''alice'' ''n1'' sample_inbox = (Inr n, s')
     \<and> unread ''alice'' (notifications_rows s') = {#sample_notification ''n3'' ''alice'' 3#}"
proof -
  let ?s' = "empty_database\<lparr>notifications_rows :=
     [sample_notification ''n1'' ''alice'' 1\<lparr>n_isRead := Some True\<rparr>,
      sample_notification ''n2'' ''bob'' 2, sample_notification ''n3'' ''alice'' 3]\<rparr>"
  have run: "markAsRead_route notifications_table 5 ''alice'' ''n1'' sample_inbox =
      (Inr (sample_notification ''n1'' ''alice'' 1\<lparr>n_isRead := Some True\<rparr>), ?s')"
    by (simp add: markAsRead_route_def markAsRead_def op_simps write_defs table_eval
        sample_inbox_def sample_notification_def)
  have ok: "notifications_ok (notifications_rows sample_inbox)"
    by (simp add: table_eval sample_inbox_def sample_notification_def)
  have "unread ''alice'' (notifications_rows ?s') = {#sample_notification ''n3'' ''alice'' 3#}"
    using markAsRead_effect [OF notifications_tbl.repository_axioms ok run]
    by (simp add: unread_def sample_notification_def)
  with run show ?thesis by blast
qed

text \<open>
  A tip notification raises the creator's unread count by exactly one, and nobody else's: the
  counts the service reports before and after differ by the one row added.
\<close>

theorem notifyTipReceived_counts:
  assumes "notifications_contract NR"
    and "notifyTipReceived NR show_num now c w a x s = (Inr n, s')"
    and "getUnreadCount_route NR u s = (Inr before, s)"
    and "getUnreadCount_route NR u s' = (Inr after, s')"
  shows "after = before + (if u = c then 1 else 0) \<and> n_userId n = c \<and> n_type n = TIP_RECEIVED
    \<and> users_rows s' = users_rows s \<and> tips_rows s' = tips_rows s \<and> tokens_rows s' = tokens_rows s"
proof -
  note srv = selected_matches_user [OF assms(1)]
  note ntf = notifyTipReceived_notifier [OF assms(1)]
  have "before = size (unread u (notifications_rows s))" "after = size (unread u (notifications_rows s'))"
    using notifications_service.unread_count [OF srv] assms(3,4)
    by (auto simp: getUnreadCount_route_def)
  then show ?thesis
    using notifier.notify_unread [OF ntf assms(2)] notifier.notify_rest [OF ntf assms(2)]
      notifier.notify_Inr [OF ntf assms(2)] by auto
qed

lemma notifyTipReceived_counts_witness:
  "\<exists>n s'. notifyTipReceived notifications_table (\<lambda>_. ''5'') 9 ''alice'' ''W'' (Fin 5) ''XLM'' sample_inbox
       = (Inr n, s') \<and> n_userId n = ''alice''"
proof -
  let ?r = "notifyTipReceived notifications_table (\<lambda>_. ''5'') 9 ''alice'' ''W'' (Fin 5) ''XLM'' sample_inbox"
  have 1: "?r = (Inr (sum.projr (fst ?r)), snd ?r)"
    and 2: "getUnreadCount_route notifications_table ''alice'' sample_inbox = (Inr 2, sample_inbox)"
    and 3: "getUnreadCount_route notifications_table ''alice'' (snd ?r) = (Inr 3, snd ?r)"
    by (simp_all add: notifyTipReceived_def createNotification_def getUnreadCount_route_def
        getUnreadCount_def op_simps write_defs table_eval sample_inbox_def sample_notification_def)
  show ?thesis
    using notifyTipReceived_counts [OF notifications_tbl.repository_axioms 1 2 3] 1 by metis
qed

text \<open>
  Paging through the inbox is complete: when no two notifications of the user carry the same
  creation time, the pages from the first to the first without a next page are, put together,
  exactly the user's notifications, each once and newest first.
\<close>

theorem getNotifications_pages_complete:
  assumes "notifications_available NR"
    and "inj_on n_createdAt {n \<in> set (notifications_rows s). n_userId n = u}"
    and "0 < l" and "1 \<le> P" and "P * l \<le> max_safe"
    and "\<not> pg_hasNextPage (page_of (notifications_page NR u l P s))"
  shows "concat (map (\<lambda>p. pg_data (page_of (notifications_page NR u l p s))) [1..<Suc P])
    = newest_first u (notifications_rows s)"
  by (rule page_source.walk_complete [OF notifications_page_source [OF assms(1-3)] assms(4-6)])

lemma getNotifications_pages_complete_witness:
  "concat (map (\<lambda>p. pg_data (page_of (notifications_page notifications_table ''alice'' 1 p sample_inbox))) [1..<Suc 2])
    = newest_first ''alice'' (notifications_rows sample_inbox)"
proof (rule getNotifications_pages_complete [OF notifications_tbl.available_repository_axioms])
  show "inj_on n_createdAt {n \<in> set (notifications_rows sample_inbox). n_userId n = ''alice''}"
    by (auto simp: inj_on_def sample_inbox_def sample_notification_def)
  have l: "length (newest_first ''alice'' (notifications_rows sample_inbox)) = 2"
    by (simp add: newest_first_def sort_by_def sample_inbox_def sample_notification_def notification_col_le_def)
  show small: "2 * 1 \<le> max_safe" by (simp add: max_safe_def)
  show "\<not> pg_hasNextPage (page_of (notifications_page notifications_table ''alice'' 1 2 sample_inbox))"
    using notification_pages.page_next [of 2 0 "''alice''" sample_inbox] l small by simp
qed simp_all


end
