(* ===== verification/Chain.thy ===== *)
theory Chain
  imports Database
begin

text \<open>
  What \<open>StellarService\<close> (\<open>src/src/stellar/stellar.service.ts\<close>) reads from Horizon and from the
  Soroban contract: the normalisation of the replies, payment and contract lookups, balances and
  account data, the routes over them, and the health checks of \<open>src/src/health\<close> that use them.

  The replies are values of type \<open>unknown\<close>: each call of the SDK is a function argument, \<open>Inl\<close> when
  it throws. \<open>show_num\<close> renders a number and \<open>date_parse\<close> is \<open>Date.parse\<close>, \<open>None\<close> for an invalid
  date: JavaScript leaves what it accepts beyond ISO 8601 to the implementation.
\<close>

section \<open>Dates as text\<close>

definition pad :: "nat \<Rightarrow> int \<Rightarrow> string" where
  "pad w n = (let s = show_nat (nat \<bar>n\<bar>) in replicate (w - length s) CHR ''0'' @ s)"

text \<open>Year, month and day of a day counted from 1970-01-01, in the proleptic Gregorian calendar.\<close>

definition civil :: "int \<Rightarrow> int \<times> int \<times> int" where
  "civil days =
     (let z = days + 719468;
          era = z div 146097;
          doe = z mod 146097;
          yoe = (doe - doe div 1460 + doe div 36524 - doe div 146096) div 365;
          doy = doe - (365 * yoe + yoe div 4 - yoe div 100);
          mp = (5 * doy + 2) div 153;
          m = (if mp < 10 then mp + 3 else mp - 9)
      in (yoe + era * 400 + (if m \<le> 2 then 1 else 0), m, doy - (153 * mp + 2) div 5 + 1))"

definition toISOString :: "int \<Rightarrow> string" where
  "toISOString t =
     (let (y, m, d) = civil (t div 86400000);
          ms = t mod 86400000;
          year = (if 0 \<le> y \<and> y \<le> 9999 then pad 4 y
                  else (if y < 0 then ''-'' else ''+'') @ pad 6 y)
      in year @ ''-'' @ pad 2 m @ ''-'' @ pad 2 d @ ''T'' @ pad 2 (ms div 3600000) @ '':''
         @ pad 2 (ms div 60000 mod 60) @ '':'' @ pad 2 (ms div 1000 mod 60) @ ''.'' @ pad 3 (ms mod 1000)
         @ ''Z'')"

section \<open>Normalising replies\<close>

fun stringifyScalar :: "(jsnum \<Rightarrow> string) \<Rightarrow> jsval \<Rightarrow> string" where
  "stringifyScalar show_num (JString s) = s"
| "stringifyScalar show_num (JNumber n) = show_num n"
| "stringifyScalar show_num (JBigInt i) = show_int i"
| "stringifyScalar show_num (JBool b) = (if b then ''true'' else ''false'')"
| "stringifyScalar show_num _ = ''''"

definition toFiniteNumber :: "(jsnum \<Rightarrow> string) \<Rightarrow> jsval \<Rightarrow> jsnum" where
  "toFiniteNumber show_num v =
     (let parsed = (case v of JNumber n \<Rightarrow> n | JBigInt i \<Rightarrow> to_number (of_int i)
          | _ \<Rightarrow> parseFloat (stringifyScalar show_num v))
      in if is_finite parsed then parsed else Fin 0)"

definition normalizeTimestamp :: "(jsnum \<Rightarrow> string) \<Rightarrow> (string \<Rightarrow> int option) \<Rightarrow> jsval \<Rightarrow> string option" where
  "normalizeTimestamp show_num date_parse v =
     (let raw = stringifyScalar show_num v
      in if raw = '''' then None
         else case date_parse raw of None \<Rightarrow> Some raw | Some t \<Rightarrow> Some (toISOString t))"

text \<open>\<open>response && typeof response === 'object' && 'result' in response\<close>, then \<open>?? null\<close>.\<close>

definition extractResult :: "jsval \<Rightarrow> jsval" where
  "extractResult response =
     (case response of
        JObject fs \<Rightarrow> (case map_of fs ''result'' of Some v \<Rightarrow> nullish_or v JNull | None \<Rightarrow> response)
      | _ \<Rightarrow> nullish_or response JNull)"

record contract_tip =
  ct_exists :: bool
  ct_from :: string
  ct_to :: string
  ct_amount :: jsnum
  ct_timestamp :: "string option"

definition no_contract_tip :: contract_tip where
  "no_contract_tip = \<lparr>ct_exists = False, ct_from = '''', ct_to = '''', ct_amount = Fin 0, ct_timestamp = None\<rparr>"

definition normalizeContractTip :: "(jsnum \<Rightarrow> string) \<Rightarrow> (string \<Rightarrow> int option) \<Rightarrow> jsval \<Rightarrow> contract_tip" where
  "normalizeContractTip show_num date_parse v =
     (case v of
        JArray vs \<Rightarrow>
          \<lparr>ct_exists = True,
           ct_from = stringifyScalar show_num (elem vs 0),
           ct_to = stringifyScalar show_num (elem vs 1),
           ct_amount = toFiniteNumber show_num (elem vs 2),
           ct_timestamp = normalizeTimestamp show_num date_parse (elem vs 3)\<rparr>
      | JObject fs \<Rightarrow>
          \<lparr>ct_exists = (get_prop v ''exists'' \<noteq> JBool False),
           ct_from = stringifyScalar show_num (nullish_or (get_prop v ''from'') (get_prop v ''senderWallet'')),
           ct_to = stringifyScalar show_num (nullish_or (get_prop v ''to'') (get_prop v ''receiverWallet'')),
           ct_amount = toFiniteNumber show_num (get_prop v ''amount''),
           ct_timestamp = normalizeTimestamp show_num date_parse
             (nullish_or (get_prop v ''timestamp'') (get_prop v ''createdAt''))\<rparr>
      | _ \<Rightarrow> no_contract_tip)"

section \<open>The contract\<close>

text \<open>The generated contract client: three read calls, each of which may reject.\<close>

record contract_client =
  get_balance :: "string \<Rightarrow> string + jsval"
  get_tip_count :: "string \<Rightarrow> string + jsval"
  get_tip :: "string \<Rightarrow> int \<Rightarrow> string + jsval"

definition getContractClient :: "string option \<Rightarrow> (string \<Rightarrow> string + contract_client) \<Rightarrow> string + contract_client" where
  "getContractClient contractId connect =
     (case or_null contractId of
        None \<Rightarrow> Inl ''STELLAR_CONTRACT_ID is not configured''
      | Some i \<Rightarrow> connect i)"

text \<open>
  \<open>contract\<close> is the outcome of \<open>getContractClient\<close>; whatever rejects, the answer is the tip that does
  not exist.
\<close>

definition verifyTipOnContract :: "(jsnum \<Rightarrow> string) \<Rightarrow> (string \<Rightarrow> int option) \<Rightarrow> string + contract_client \<Rightarrow>
    string \<Rightarrow> int \<Rightarrow> contract_tip" where
  "verifyTipOnContract show_num date_parse contract creatorAddress tipIndex =
     (case contract of
        Inl _ \<Rightarrow> no_contract_tip
      | Inr client \<Rightarrow>
          (case (get_balance client creatorAddress, get_tip_count client creatorAddress,
              get_tip client creatorAddress tipIndex) of
            (Inr balanceResponse, Inr tipCountResponse, Inr tipResponse) \<Rightarrow>
              (let balance = toFiniteNumber show_num (extractResult balanceResponse);
                   tipCount = toFiniteNumber show_num (extractResult tipCountResponse);
                   tip = normalizeContractTip show_num date_parse (extractResult tipResponse)
               in \<lparr>ct_exists = (ct_exists tip \<and> tipIndex \<ge> 0 \<and> js_lt (Fin (of_int tipIndex)) tipCount
                     \<and> js_le (Fin 0) balance \<and> js_le (Fin 0) (ct_amount tip)),
                   ct_from = ct_from tip, ct_to = ct_to tip, ct_amount = ct_amount tip,
                   ct_timestamp = ct_timestamp tip\<rparr>)
          | _ \<Rightarrow> no_contract_tip))"

section \<open>Horizon\<close>

record payment =
  pv_verified :: bool
  pv_from :: "string option"
  pv_to :: "string option"
  pv_amount :: "jsnum option"
  pv_asset :: "string option"
  pv_timestamp :: "string option"

definition unverified :: payment where
  "unverified = \<lparr>pv_verified = False, pv_from = None, pv_to = None, pv_amount = None, pv_asset = None,
     pv_timestamp = None\<rparr>"

text \<open>\<open>v?.[0]\<close>, for a value that is an array or has no element 0.\<close>

definition first_element :: "jsval \<Rightarrow> jsval" where
  "first_element v = (case v of JArray vs \<Rightarrow> elem vs 0 | _ \<Rightarrow> JUndefined)"

text \<open>A property of string type in a template literal.\<close>

definition in_template :: "(jsnum \<Rightarrow> string) \<Rightarrow> jsval \<Rightarrow> string" where
  "in_template show_num v = (case v of JUndefined \<Rightarrow> ''undefined'' | JNull \<Rightarrow> ''null''
     | _ \<Rightarrow> stringifyScalar show_num v)"

definition or_text :: "string \<Rightarrow> string \<Rightarrow> string" where
  "or_text s d = (if s = '''' then d else s)"

definition verifyPayment :: "(jsnum \<Rightarrow> string) \<Rightarrow> (string \<Rightarrow> string + jsval) \<Rightarrow> string \<Rightarrow> payment" where
  "verifyPayment show_num horizon_transaction transactionHash =
     (case horizon_transaction transactionHash of
        Inl _ \<Rightarrow> unverified
      | Inr tx \<Rightarrow>
          if \<not> js_truthy tx then unverified
          else (let operation = first_element (get_prop tx ''operations'');
                    from = stringifyScalar show_num (get_prop tx ''source_account'');
                    raw = stringifyScalar show_num
                      (nullish_or (get_prop tx ''created_at'') (get_prop tx ''createdAt''));
                    timestamp = (if raw = '''' then None else Some raw)
            in if js_truthy operation
               then \<lparr>pv_verified = True, pv_from = Some from,
                  pv_to = Some (stringifyScalar show_num
                    (nullish_or (get_prop operation ''to'') (get_prop operation ''destination''))),
                  pv_amount = Some (parseFloat (or_text (stringifyScalar show_num
                    (nullish_or (get_prop operation ''amount'') (get_prop operation ''starting_balance''))) ''0'')),
                  pv_asset = Some (if get_prop operation ''asset_type'' = JString ''credit_alphanum4''
                    then in_template show_num (get_prop operation ''asset_code'') @ '':''
                      @ in_template show_num (get_prop operation ''asset_issuer'')
                    else ''XLM''),
                  pv_timestamp = timestamp\<rparr>
               else \<lparr>pv_verified = True, pv_from = Some from, pv_to = Some '''', pv_amount = Some (Fin 0),
                  pv_asset = Some ''XLM'', pv_timestamp = timestamp\<rparr>))"

text \<open>An account as \<open>loadAccount\<close> returns it.\<close>

record horizon_account =
  ha_balances :: "jsval list"
  ha_sequenceNumber :: string
  ha_subentry_count :: "jsnum option"

definition getAccountBalance :: "(jsnum \<Rightarrow> string) \<Rightarrow> (string \<Rightarrow> string + horizon_account) \<Rightarrow> string \<Rightarrow>
    (string \<times> jsval) list" where
  "getAccountBalance show_num loadAccount walletAddress =
     (case loadAccount walletAddress of
        Inl _ \<Rightarrow> []
      | Inr account \<Rightarrow>
          map (\<lambda>b. if get_prop b ''asset_type'' = JString ''native'' then (''XLM'', get_prop b ''balance'')
                    else (in_template show_num (get_prop b ''asset_code'') @ '':''
                            @ in_template show_num (get_prop b ''asset_issuer''), get_prop b ''balance''))
            (ha_balances account))"

record account_info =
  ai_address :: string
  ai_exists :: bool
  ai_sequenceNumber :: "string option"
  ai_subentryCount :: jsnum
  ai_network :: string

definition getAccountInfo :: "string \<Rightarrow> (string \<Rightarrow> string + horizon_account) \<Rightarrow> string \<Rightarrow> account_info" where
  "getAccountInfo network loadAccount walletAddress =
     (case loadAccount walletAddress of
        Inl _ \<Rightarrow> \<lparr>ai_address = walletAddress, ai_exists = False, ai_sequenceNumber = None,
          ai_subentryCount = Fin 0, ai_network = network\<rparr>
      | Inr account \<Rightarrow> \<lparr>ai_address = walletAddress, ai_exists = True,
          ai_sequenceNumber = Some (ha_sequenceNumber account),
          ai_subentryCount = num_or (ha_subentry_count account) (Fin 0), ai_network = network\<rparr>)"

text \<open>\<open>onModuleInit\<close>: the network the service reports, from the environment.\<close>

definition network_of :: "string option \<Rightarrow> string" where
  "network_of stellar_network = str_or stellar_network ''TESTNET''"

section \<open>Routes\<close>

definition getBalance_route :: "(jsnum \<Rightarrow> string) \<Rightarrow> (string \<Rightarrow> string + horizon_account) \<Rightarrow> string option \<Rightarrow>
    (string \<times> jsval) list result" where
  "getBalance_route show_num loadAccount walletAddress =
     (case or_null walletAddress of
        None \<Rightarrow> Inl (HttpError 400 ''walletAddress is required'')
      | Some w \<Rightarrow> Inr (getAccountBalance show_num loadAccount w))"

definition getAccount_route :: "string \<Rightarrow> (string \<Rightarrow> string + horizon_account) \<Rightarrow> string option \<Rightarrow>
    account_info result" where
  "getAccount_route network loadAccount walletAddress =
     (case or_null walletAddress of
        None \<Rightarrow> Inl (HttpError 400 ''walletAddress is required'')
      | Some w \<Rightarrow> Inr (getAccountInfo network loadAccount w))"

definition verifyPayment_route :: "(jsnum \<Rightarrow> string) \<Rightarrow> (string \<Rightarrow> string + jsval) \<Rightarrow> string option \<Rightarrow>
    payment result" where
  "verifyPayment_route show_num horizon_transaction transactionHash =
     (case or_null transactionHash of
        None \<Rightarrow> Inl (HttpError 400 ''transactionHash is required'')
      | Some h \<Rightarrow> Inr (verifyPayment show_num horizon_transaction h))"

section \<open>Health checks\<close>

record health_report =
  hr_status :: string
  hr_dependency :: string
  hr_network :: "string option"
  hr_timestamp :: string
  hr_message :: "string option"

definition getHealth :: "int \<Rightarrow> int \<Rightarrow> string option \<Rightarrow> string \<times> string \<times> int \<times> string" where
  "getHealth startTime now npm_package_version =
     (''ok'', toISOString now, (now - startTime) div 1000, str_or npm_package_version ''0.1.0'')"

text \<open>\<open>query\<close> is the outcome of \<open>SELECT 1\<close>.\<close>

definition getReadiness :: "int \<Rightarrow> string + unit \<Rightarrow> health_report" where
  "getReadiness now query =
     (case query of
        Inr _ \<Rightarrow> \<lparr>hr_status = ''ok'', hr_dependency = ''connected'', hr_network = None,
          hr_timestamp = toISOString now, hr_message = None\<rparr>
      | Inl _ \<Rightarrow> \<lparr>hr_status = ''error'', hr_dependency = ''disconnected'', hr_network = None,
          hr_timestamp = toISOString now, hr_message = Some ''Database connection failed''\<rparr>)"

text \<open>The \<open>catch\<close> of \<open>getRemoteHealth\<close> is never reached: \<open>getAccountInfo\<close> catches what the SDK throws.\<close>

definition getRemoteHealth :: "string \<Rightarrow> (string \<Rightarrow> string + horizon_account) \<Rightarrow> int \<Rightarrow> health_report" where
  "getRemoteHealth network loadAccount now =
     (let account = getAccountInfo network loadAccount
            ''GAAAAAAAAAAAAAAAAAAAAAAAAAAAAAAAAAAAAAAAAAAAAAAAAAAAAWHF''
      in \<lparr>hr_status = ''ok'', hr_dependency = (if ai_exists account then ''reachable'' else ''degraded''),
          hr_network = Some (ai_network account), hr_timestamp = toISOString now, hr_message = None\<rparr>)"

text \<open>The status code the health routes answer with.\<close>

definition health_status_code :: "health_report \<Rightarrow> nat" where
  "health_status_code r = (if hr_status r = ''ok'' then 200 else 503)"

end
