(* ===== verification/Tips.thy ===== *)
theory Tips
  imports Notifications Chain
begin

text \<open>
  \<open>TipsService\<close> and \<open>TipsController\<close> (\<open>src/src/tips\<close>): creating, listing, confirming and
  verifying tips, on repositories \<open>TR\<close> of tips, \<open>UR\<close> of users and \<open>NR\<close> of notifications. The
  verification results are kept in the in-memory cache the service uses when no \<open>REDIS_URL\<close> is set;
  \<open>Verification_Cache\<close> has the cache in Redis.
\<close>

section \<open>Filters\<close>

record tip_filter =
  tf_page :: "jsnum option"
  tf_limit :: "jsnum option"
  tf_startDate :: "string option"
  tf_endDate :: "string option"
  tf_asset :: "string option"
  tf_minAmount :: "jsnum option"
  tf_maxAmount :: "jsnum option"
  tf_sortBy :: "string option"
  tf_sortOrder :: "string option"

definition no_filter :: tip_filter where
  "no_filter = \<lparr>tf_page = None, tf_limit = None, tf_startDate = None, tf_endDate = None, tf_asset = None,
     tf_minAmount = None, tf_maxAmount = None, tf_sortBy = None, tf_sortOrder = None\<rparr>"

definition ALLOWED_SORT_BY :: "string list" where
  "ALLOWED_SORT_BY = [''createdAt'', ''amount'']"

definition ALLOWED_SORT_ORDER :: "string list" where
  "ALLOWED_SORT_ORDER = [''ASC'', ''DESC'']"

text \<open>The three filters \<open>buildFilterQuery\<close> puts into its \<open>where\<close>, in the order it checks them.\<close>

definition date_filter :: "(string \<Rightarrow> int option) \<Rightarrow> string option \<Rightarrow> string option \<Rightarrow> int find_op option result" where
  "date_filter date_parse startDate endDate =
     (case (or_null startDate, or_null endDate) of
        (Some a, Some b) \<Rightarrow>
          (case (date_parse a, date_parse b) of
             (Some x, Some y) \<Rightarrow> Inr (Some (Between x y))
           | _ \<Rightarrow> Inl (BadRequest ''Invalid date format. Use ISO 8601.''))
      | (Some a, None) \<Rightarrow>
          (case date_parse a of
             Some x \<Rightarrow> Inr (Some (MoreThanOrEqual x))
           | None \<Rightarrow> Inl (BadRequest ''Invalid startDate format. Use ISO 8601.''))
      | (None, Some b) \<Rightarrow>
          (case date_parse b of
             Some y \<Rightarrow> Inr (Some (LessThanOrEqual y))
           | None \<Rightarrow> Inl (BadRequest ''Invalid endDate format. Use ISO 8601.''))
      | (None, None) \<Rightarrow> Inr None)"

definition asset_filter :: "string option \<Rightarrow> string option result" where
  "asset_filter asset =
     (case or_null asset of
        None \<Rightarrow> Inr None
      | Some a \<Rightarrow>
          if toUpperCase a \<in> set asset_values then Inr (Some (toUpperCase a))
          else Inl (BadRequest (''Invalid asset: '' @ a @ ''. Supported: XLM, USDC'')))"

definition amount_filter :: "jsnum option \<Rightarrow> jsnum option \<Rightarrow> jsnum find_op option result" where
  "amount_filter minAmount maxAmount =
     (case (minAmount, maxAmount) of
        (Some a, Some b) \<Rightarrow>
          if js_lt a (Fin 0) \<or> js_lt b (Fin 0)
          then Inl (BadRequest ''Amount filters must be greater than or equal to 0'')
          else Inr (Some (Between a b))
      | (Some a, None) \<Rightarrow>
          if js_lt a (Fin 0) then Inl (BadRequest ''minAmount must be greater than or equal to 0'')
          else Inr (Some (MoreThanOrEqual a))
      | (None, Some b) \<Rightarrow>
          if js_lt b (Fin 0) then Inl (BadRequest ''maxAmount must be greater than or equal to 0'')
          else Inr (Some (LessThanOrEqual b))
      | (None, None) \<Rightarrow> Inr None)"

record filter_query =
  fq_createdAt :: "int find_op option"
  fq_asset :: "string option"
  fq_amount :: "jsnum find_op option"
  fq_order :: "(string \<times> string) list"
  fq_skip :: jsnum
  fq_take :: jsnum

definition buildFilterQuery :: "(string \<Rightarrow> int option) \<Rightarrow> tip_filter \<Rightarrow> filter_query result" where
  "buildFilterQuery date_parse f =
     (let page = num_or (tf_page f) (Fin 1);
          limit = num_or (tf_limit f) (Fin 20);
          sortBy = str_or (tf_sortBy f) ''createdAt'';
          sortOrder = str_or (tf_sortOrder f) ''DESC''
      in if js_lt page (Fin 1) then Inl (BadRequest ''Page must be greater than 0'')
         else if js_lt limit (Fin 1) \<or> js_lt (Fin 100) limit
         then Inl (BadRequest ''Limit must be between 1 and 100'')
         else if sortBy \<notin> set ALLOWED_SORT_BY
         then Inl (BadRequest (''Invalid sortBy: '' @ sortBy @ ''. Allowed values: createdAt, amount''))
         else if sortOrder \<notin> set ALLOWED_SORT_ORDER
         then Inl (BadRequest (''Invalid sortOrder: '' @ sortOrder @ ''. Allowed values: ASC, DESC''))
         else bind_result (date_filter date_parse (tf_startDate f) (tf_endDate f))
           (\<lambda>createdAt. bind_result (asset_filter (tf_asset f))
           (\<lambda>asset. bind_result (amount_filter (tf_minAmount f) (tf_maxAmount f))
           (\<lambda>amount. Inr \<lparr>fq_createdAt = createdAt, fq_asset = asset, fq_amount = amount,
              fq_order = [(sortBy, sortOrder)], fq_skip = js_mul (js_sub page (Fin 1)) limit,
              fq_take = limit\<rparr>))))"

text \<open>\<open>{ ...base, ...where }\<close>\<close>

definition with_filter :: "filter_query \<Rightarrow> tip_where \<Rightarrow> tip_where" where
  "with_filter q base = base\<lparr>tw_createdAt := fq_createdAt q, tw_asset := fq_asset q, tw_amount := fq_amount q\<rparr>"

section \<open>Creating and reading tips\<close>

record create_tip_dto =
  dto_receiverWallet :: string
  dto_senderWallet :: "string option"
  dto_amount :: rat
  dto_message :: "string option"
  dto_asset :: "string option"
  dto_assetIssuer :: "string option"
  dto_transactionHash :: "string option"

text \<open>The entity \<open>createTip\<close> fills in once its checks have passed.\<close>

definition tip_of_dto :: "string option \<Rightarrow> create_tip_dto \<Rightarrow> string option \<Rightarrow> string \<Rightarrow> string \<Rightarrow> tip" where
  "tip_of_dto usdcIssuer dto supporterId creatorId tipAsset =
     \<lparr>t_id = None, t_creatorId = creatorId, t_supporterId = or_null supporterId,
      t_senderWallet = str_or (dto_senderWallet dto) '''', t_receiverWallet = dto_receiverWallet dto,
      t_amount = dto_amount dto, t_asset = asset_of tipAsset,
      t_assetIssuer = (if tipAsset = ''USDC''
        then (if truthy (dto_assetIssuer dto) then dto_assetIssuer dto else usdcIssuer) else None),
      t_message = str_or (dto_message dto) '''', t_transactionHash = or_null (dto_transactionHash dto),
      t_status = (if truthy (dto_transactionHash dto) then COMPLETED else PENDING),
      t_withdrawalStatus = None, t_withdrawalTransactionHash = None, t_createdAt = None\<rparr>"

definition createTip :: "(tip_where, tip) repository_ops \<Rightarrow> (user_where, user) repository_ops \<Rightarrow>
    string option \<Rightarrow> int \<Rightarrow> create_tip_dto \<Rightarrow> string option \<Rightarrow> ('z database_scheme, tip) op" where
  "createTip TR UR usdc_env now dto supporterId =
     (let usdcIssuer = or_null usdc_env;
          tipAsset = str_or (dto_asset dto) ''XLM''
      in andThen (find_user UR (any_user\<lparr>uw_walletAddress := Some (dto_receiverWallet dto)\<rparr>))
      (\<lambda>creator. case creator of
         None \<Rightarrow> throw (NotFound ''Creator not found with this wallet address'')
       | Some c \<Rightarrow>
           andThen (throw_if (dto_amount dto \<le> 0) (BadRequest ''Tip amount must be greater than 0''))
           (\<lambda>_. andThen (throw_if (tipAsset = ''USDC'' \<and> usdcIssuer = None) (BadRequest
              ''USDC tipping is not configured. Please set the USDC_ISSUER environment variable.''))
           (\<lambda>_. andThen (throw_if (tipAsset \<notin> set asset_values) (BadRequest
              (''Unsupported asset type: '' @ tipAsset @ ''. Supported asset types are: XLM, USDC'')))
           (\<lambda>_. case u_id c of
              None \<Rightarrow> throw (JsError ''null value in column creator_id violates not-null constraint'')
            | Some creatorId \<Rightarrow>
                write_tips (saveRow TR now (tip_of_dto usdcIssuer dto supporterId creatorId tipAsset)))))))"

definition find_tip :: "(tip_where, tip) repository_ops \<Rightarrow> tip_where list \<Rightarrow> ('z database_scheme, tip option) op" where
  "find_tip TR ws = read_tips (findOne TR (query_of ws))"

text \<open>The \<open>creator\<close> and \<open>supporter\<close> relations: the users with the keys of the row.\<close>

definition load_user :: "(user_where, user) repository_ops \<Rightarrow> string option \<Rightarrow> ('z database_scheme, user option) op" where
  "load_user UR i = (case i of None \<Rightarrow> return_op None | Some k \<Rightarrow> find_user UR (any_user\<lparr>uw_id := Some k\<rparr>))"

definition getTipById :: "(tip_where, tip) repository_ops \<Rightarrow> (user_where, user) repository_ops \<Rightarrow> string \<Rightarrow>
    ('z database_scheme, tip \<times> user option \<times> user option) op" where
  "getTipById TR UR i =
     andThen (find_tip TR [any_tip\<lparr>tw_id := Some i\<rparr>])
     (\<lambda>found. case found of
        None \<Rightarrow> throw (NotFound ''Tip not found'')
      | Some tip \<Rightarrow> andThen (load_user UR (Some (t_creatorId tip)))
          (\<lambda>creator. andThen (load_user UR (t_supporterId tip))
          (\<lambda>supporter. return_op (tip, creator, supporter))))"

text \<open>The body the three lists share, from the alternatives of their \<open>where\<close>.\<close>

definition list_tips :: "(tip_where, tip) repository_ops \<Rightarrow> (string \<Rightarrow> int option) \<Rightarrow> tip_where list \<Rightarrow> tip_filter \<Rightarrow>
    ('z database_scheme, tip paginated) op" where
  "list_tips TR date_parse bases f =
     andThen (lift_result (buildFilterQuery date_parse f))
     (\<lambda>q. andThen (read_tips (findAndCount TR
        ((query_of (map (with_filter q) bases))
           \<lparr>fo_order := fq_order q, fo_skip := Some (fq_skip q), fo_take := Some (fq_take q)\<rparr>)))
     (\<lambda>(tips, nrows). return_op (formatPaginatedResult tips nrows
        (num_or (tf_page f) (Fin 1)) (num_or (tf_limit f) (Fin 20)))))"

definition getTipsByCreator :: "(tip_where, tip) repository_ops \<Rightarrow> (string \<Rightarrow> int option) \<Rightarrow> string \<Rightarrow> tip_filter \<Rightarrow>
    ('z database_scheme, tip paginated) op" where
  "getTipsByCreator TR date_parse creatorId f =
     list_tips TR date_parse [any_tip\<lparr>tw_creatorId := Some creatorId\<rparr>] f"

definition getTipsBySupporter :: "(tip_where, tip) repository_ops \<Rightarrow> (string \<Rightarrow> int option) \<Rightarrow> string \<Rightarrow> tip_filter \<Rightarrow>
    ('z database_scheme, tip paginated) op" where
  "getTipsBySupporter TR date_parse supporterId f =
     list_tips TR date_parse [any_tip\<lparr>tw_supporterId := Some supporterId\<rparr>] f"

definition getTipsByWallet :: "(tip_where, tip) repository_ops \<Rightarrow> (string \<Rightarrow> int option) \<Rightarrow> string \<Rightarrow> tip_filter \<Rightarrow>
    ('z database_scheme, tip paginated) op" where
  "getTipsByWallet TR date_parse walletAddress f =
     list_tips TR date_parse [any_tip\<lparr>tw_receiverWallet := Some walletAddress\<rparr>,
       any_tip\<lparr>tw_senderWallet := Some walletAddress\<rparr>] f"

text \<open>\<open>transactionHash\<close> is \<open>None\<close> when the body carries none.\<close>

definition confirmTip :: "(tip_where, tip) repository_ops \<Rightarrow> int \<Rightarrow> string \<Rightarrow> string option \<Rightarrow>
    ('z database_scheme, tip) op" where
  "confirmTip TR now i transactionHash =
     andThen (find_tip TR [any_tip\<lparr>tw_id := Some i\<rparr>])
     (\<lambda>found. case found of
        None \<Rightarrow> throw (NotFound ''Tip not found'')
      | Some tip \<Rightarrow> write_tips (saveRow TR now
          (tip\<lparr>t_transactionHash := transactionHash, t_status := COMPLETED\<rparr>)))"

section \<open>On-chain verification\<close>

record onchain_result =
  oc_tipId :: "string option"
  oc_tipIndex :: int
  oc_horizon :: payment
  oc_contract :: contract_tip
  oc_matches :: bool

text \<open>
  The service's state beside the tables: \<open>localVerificationCache\<close>, from keys to the expiry time
  and the payload. The payload is JSON, in which a number that is not finite becomes \<open>null\<close>.
\<close>

record tips_state = database +
  localVerificationCache :: "string \<Rightarrow> (int \<times> onchain_result) option"

definition json_round_trip :: "onchain_result \<Rightarrow> onchain_result" where
  "json_round_trip v = v\<lparr>oc_horizon := (oc_horizon v)\<lparr>pv_amount :=
     (case pv_amount (oc_horizon v) of Some (Fin r) \<Rightarrow> Some (Fin r) | _ \<Rightarrow> None)\<rparr>\<rparr>"

definition verificationCacheTtlMs :: int where
  "verificationCacheTtlMs = 60000"

definition getVerificationCacheKey :: "string \<Rightarrow> string" where
  "getVerificationCacheKey tipId = ''tips:verify-onchain:'' @ tipId"

definition readVerificationCache :: "int \<Rightarrow> string \<Rightarrow> ('z tips_state_scheme, onchain_result option) op" where
  "readVerificationCache now tipId = (\<lambda>s.
     let cacheKey = getVerificationCacheKey tipId
     in case localVerificationCache s cacheKey of
          None \<Rightarrow> (Inr None, s)
        | Some (expiresAt, payload) \<Rightarrow>
            if expiresAt \<le> now
            then (Inr None, s\<lparr>localVerificationCache := (localVerificationCache s)(cacheKey := None)\<rparr>)
            else (Inr (Some payload), s))"

definition writeVerificationCache :: "int \<Rightarrow> string \<Rightarrow> onchain_result \<Rightarrow> ('z tips_state_scheme, unit) op" where
  "writeVerificationCache now tipId v = (\<lambda>s.
     (Inr (), s\<lparr>localVerificationCache := (localVerificationCache s)
        (getVerificationCacheKey tipId \<mapsto> (now + verificationCacheTtlMs, json_round_trip v))\<rparr>))"

fun findIndex :: "('a \<Rightarrow> bool) \<Rightarrow> 'a list \<Rightarrow> int" where
  "findIndex P [] = -1"
| "findIndex P (x # xs) = (if P x then 0 else let i = findIndex P xs in if i < 0 then -1 else i + 1)"

definition getCreatorTipIndex :: "(tip_where, tip) repository_ops \<Rightarrow> tip \<Rightarrow> ('z database_scheme, int) op" where
  "getCreatorTipIndex TR tip =
     andThen (read_tips (findMany TR ((query_of [any_tip\<lparr>tw_creatorId := Some (t_creatorId tip)\<rparr>])
        \<lparr>fo_order := [(''createdAt'', ''ASC''), (''id'', ''ASC'')]\<rparr>)))
     (\<lambda>creatorTips. return_op (findIndex (\<lambda>candidate. t_id candidate = t_id tip) creatorTips))"

text \<open>
  What the verification needs from outside: number rendering, date parsing, the two chain clients,
  and the text in which the driver returns a decimal column.
\<close>

record chain_env =
  env_show_num :: "jsnum \<Rightarrow> string"
  env_date_parse :: "string \<Rightarrow> int option"
  env_horizon :: "string \<Rightarrow> string + jsval"
  env_contract :: "string + contract_client"
  env_decimal :: "rat \<Rightarrow> string"

text \<open>\<open>new Date(s).toISOString()\<close>, which throws on an invalid date.\<close>

definition iso_of :: "(string \<Rightarrow> int option) \<Rightarrow> string \<Rightarrow> string result" where
  "iso_of date_parse s = (case date_parse s of
      None \<Rightarrow> Inl (JsError ''Invalid time value'') | Some t \<Rightarrow> Inr (toISOString t))"

definition timestamp_match :: "(string \<Rightarrow> int option) \<Rightarrow> string option \<Rightarrow> string option \<Rightarrow> bool result" where
  "timestamp_match date_parse horizon contract =
     (case (or_null horizon, or_null contract) of
        (Some h, Some c) \<Rightarrow>
          bind_result (iso_of date_parse h) (\<lambda>a. bind_result (iso_of date_parse c) (\<lambda>b. Inr (a = b)))
      | _ \<Rightarrow> Inr True)"

definition onchain_matches :: "tip \<Rightarrow> payment \<Rightarrow> contract_tip \<Rightarrow> bool \<Rightarrow> bool" where
  "onchain_matches tip horizon contract timestampMatch \<longleftrightarrow>
     pv_verified horizon \<and> ct_exists contract
     \<and> pv_from horizon = Some (t_senderWallet tip) \<and> pv_to horizon = Some (t_receiverWallet tip)
     \<and> js_eq (case pv_amount horizon of None \<Rightarrow> Fin 0 | Some a \<Rightarrow> a) (Fin (t_amount tip))
     \<and> timestampMatch
     \<and> ct_from contract = t_senderWallet tip \<and> ct_to contract = t_receiverWallet tip
     \<and> js_eq (ct_amount contract) (Fin (t_amount tip))"

definition opt_json :: "('a \<Rightarrow> jsval) \<Rightarrow> 'a option \<Rightarrow> jsval" where
  "opt_json f x = (case x of None \<Rightarrow> JUndefined | Some v \<Rightarrow> f v)"

definition payment_json :: "payment \<Rightarrow> jsval" where
  "payment_json p = JObject [(''verified'', JBool (pv_verified p)), (''from'', opt_json JString (pv_from p)),
     (''to'', opt_json JString (pv_to p)), (''amount'', opt_json JNumber (pv_amount p)),
     (''asset'', opt_json JString (pv_asset p)), (''timestamp'', opt_json JString (pv_timestamp p))]"

definition contract_json :: "contract_tip \<Rightarrow> jsval" where
  "contract_json c = JObject [(''exists'', JBool (ct_exists c)), (''from'', JString (ct_from c)),
     (''to'', JString (ct_to c)), (''amount'', JNumber (ct_amount c)),
     (''timestamp'', case ct_timestamp c of None \<Rightarrow> JNull | Some t \<Rightarrow> JString t)]"

definition nullable :: "string option \<Rightarrow> jsval" where
  "nullable x = (case x of None \<Rightarrow> JNull | Some v \<Rightarrow> JString v)"

text \<open>
  The lookup and the comparison, then the notification of a mismatch, then the cache; \<open>now\<close> is read
  when the cache is, \<open>later\<close> when the result is written.
\<close>

definition verify_uncached :: "(tip_where, tip) repository_ops \<Rightarrow> (user_where, user) repository_ops \<Rightarrow>
    chain_env \<Rightarrow> string \<Rightarrow> ('z database_scheme, tip \<times> string \<times> onchain_result) op" where
  "verify_uncached TR UR env i =
     andThen (find_tip TR [any_tip\<lparr>tw_id := Some i\<rparr>])
     (\<lambda>found. case found of
        None \<Rightarrow> throw (NotFound ''Tip not found'')
      | Some tip \<Rightarrow> andThen (load_user UR (Some (t_creatorId tip)))
          (\<lambda>creator. andThen (getCreatorTipIndex TR tip)
          (\<lambda>tipIndex. andThen (throw_if (tipIndex < 0) (NotFound ''Tip not found in creator history''))
          (\<lambda>_. let creatorAddress = str_or (case creator of None \<Rightarrow> None | Some c \<Rightarrow> u_walletAddress c)
                      (t_receiverWallet tip);
                   horizon = (case or_null (t_transactionHash tip) of
                       Some h \<Rightarrow> verifyPayment (env_show_num env) (env_horizon env) h
                     | None \<Rightarrow> unverified);
                   contract = verifyTipOnContract (env_show_num env) (env_date_parse env)
                      (env_contract env) creatorAddress tipIndex
               in andThen (lift_result (timestamp_match (env_date_parse env)
                      (pv_timestamp horizon) (ct_timestamp contract)))
                  (\<lambda>timestampMatch. return_op (tip, creatorAddress,
                      \<lparr>oc_tipId = t_id tip, oc_tipIndex = tipIndex, oc_horizon = horizon,
                       oc_contract = contract,
                       oc_matches = onchain_matches tip horizon contract timestampMatch\<rparr>))))))"

definition discrepancy_metadata :: "chain_env \<Rightarrow> tip \<Rightarrow> string \<Rightarrow> onchain_result \<Rightarrow> jsval" where
  "discrepancy_metadata env tip creatorAddress v =
     JObject [(''tipId'', nullable (t_id tip)), (''tipIndex'', JNumber (Fin (of_int (oc_tipIndex v)))),
       (''creatorAddress'', JString creatorAddress), (''senderWallet'', JString (t_senderWallet tip)),
       (''receiverWallet'', JString (t_receiverWallet tip)),
       (''amount'', JString (env_decimal env (t_amount tip))), (''asset'', JString (asset_value (t_asset tip))),
       (''transactionHash'', nullable (t_transactionHash tip)),
       (''horizon'', payment_json (oc_horizon v)), (''contract'', contract_json (oc_contract v))]"

definition verifyTipOnChain :: "(tip_where, tip) repository_ops \<Rightarrow> (user_where, user) repository_ops \<Rightarrow>
    (notification_where, notification) repository_ops \<Rightarrow> chain_env \<Rightarrow> int \<Rightarrow> int \<Rightarrow> string \<Rightarrow>
    ('z tips_state_scheme, onchain_result) op" where
  "verifyTipOnChain TR UR NR env now later i =
     andThen (readVerificationCache now i)
     (\<lambda>cached. case cached of
        Some v \<Rightarrow> return_op v
      | None \<Rightarrow> andThen (verify_uncached TR UR env i)
          (\<lambda>(tip, creatorAddress, verification).
             andThen (if \<not> oc_matches verification
               then andThen (notifyDiscrepancyDetected NR later (t_creatorId tip)
                  (discrepancy_metadata env tip creatorAddress verification)) (\<lambda>_. return_op ())
               else return_op ())
             (\<lambda>_. andThen (writeVerificationCache later i verification)
             (\<lambda>_. return_op verification))))"

section \<open>TipsController\<close>

text \<open>
  The query string of the lists. The two amounts are declared as numbers, so that the validation
  pipe has converted them; the other parameters arrive as text.
\<close>

record tip_query =
  tq_page :: "string option"
  tq_limit :: "string option"
  tq_startDate :: "string option"
  tq_endDate :: "string option"
  tq_asset :: "string option"
  tq_minAmount :: "jsnum option"
  tq_maxAmount :: "jsnum option"
  tq_sortBy :: "string option"
  tq_sortOrder :: "string option"

definition truthy_number :: "jsnum option \<Rightarrow> jsnum option" where
  "truthy_number n = (case n of None \<Rightarrow> None | Some v \<Rightarrow> if num_truthy v then Some v else None)"

definition filter_of_query :: "tip_query \<Rightarrow> tip_filter" where
  "filter_of_query q =
     \<lparr>tf_page = Some (case tq_page q of None \<Rightarrow> Fin 1 | Some s \<Rightarrow> js_Number s),
      tf_limit = Some (case tq_limit q of None \<Rightarrow> Fin 20 | Some s \<Rightarrow> js_Number s),
      tf_startDate = tq_startDate q, tf_endDate = tq_endDate q, tf_asset = tq_asset q,
      tf_minAmount = truthy_number (tq_minAmount q), tf_maxAmount = truthy_number (tq_maxAmount q),
      tf_sortBy = tq_sortBy q, tf_sortOrder = tq_sortOrder q\<rparr>"

definition createTip_route :: "(tip_where, tip) repository_ops \<Rightarrow> (user_where, user) repository_ops \<Rightarrow>
    string option \<Rightarrow> int \<Rightarrow> create_tip_dto \<Rightarrow> ('z database_scheme, tip) op" where
  "createTip_route TR UR usdc_env now dto =
     andThen (throw_if (\<not> truthy (dto_senderWallet dto) \<and> \<not> truthy (dto_transactionHash dto))
        (BadRequest ''senderWallet is required when no transactionHash is provided''))
     (\<lambda>_. createTip TR UR usdc_env now dto None)"

definition getMyReceivedTips_route :: "(tip_where, tip) repository_ops \<Rightarrow> (string \<Rightarrow> int option) \<Rightarrow> string \<Rightarrow>
    tip_query \<Rightarrow> ('z database_scheme, tip paginated) op" where
  "getMyReceivedTips_route TR date_parse user q = getTipsByCreator TR date_parse user (filter_of_query q)"

definition getMySentTips_route :: "(tip_where, tip) repository_ops \<Rightarrow> (string \<Rightarrow> int option) \<Rightarrow> string \<Rightarrow>
    tip_query \<Rightarrow> ('z database_scheme, tip paginated) op" where
  "getMySentTips_route TR date_parse user q = getTipsBySupporter TR date_parse user (filter_of_query q)"

definition getTipsByWallet_route :: "(tip_where, tip) repository_ops \<Rightarrow> (string \<Rightarrow> int option) \<Rightarrow> string \<Rightarrow>
    tip_query \<Rightarrow> ('z database_scheme, tip paginated) op" where
  "getTipsByWallet_route TR date_parse walletAddress q =
     getTipsByWallet TR date_parse walletAddress (filter_of_query q)"

definition confirmTip_route :: "(tip_where, tip) repository_ops \<Rightarrow> int \<Rightarrow> string \<Rightarrow> string option \<Rightarrow>
    ('z database_scheme, tip) op" where
  "confirmTip_route TR now i transactionHash = confirmTip TR now i transactionHash"

definition getTip_route :: "(tip_where, tip) repository_ops \<Rightarrow> (user_where, user) repository_ops \<Rightarrow> string \<Rightarrow>
    ('z database_scheme, tip \<times> user option \<times> user option) op" where
  "getTip_route TR UR i = getTipById TR UR i"

definition verifyOnChain_route :: "(tip_where, tip) repository_ops \<Rightarrow> (user_where, user) repository_ops \<Rightarrow>
    (notification_where, notification) repository_ops \<Rightarrow> chain_env \<Rightarrow> int \<Rightarrow> int \<Rightarrow> string \<Rightarrow>
    ('z tips_state_scheme, onchain_result) op" where
  "verifyOnChain_route TR UR NR env now later i = verifyTipOnChain TR UR NR env now later i"

section \<open>Selecting tips by one column\<close>

lemma matches_base:
  "tip_matches (any_tip\<lparr>tw_creatorId := Some c\<rparr>) t \<longleftrightarrow> t_creatorId t = c"
  "tip_matches (any_tip\<lparr>tw_supporterId := Some c\<rparr>) t \<longleftrightarrow> t_supporterId t = Some c"
  "tip_matches (any_tip\<lparr>tw_receiverWallet := Some w\<rparr>) t \<longleftrightarrow> t_receiverWallet t = w"
  "tip_matches (any_tip\<lparr>tw_senderWallet := Some w\<rparr>) t \<longleftrightarrow> t_senderWallet t = w"
  "tip_matches (any_tip\<lparr>tw_id := Some i\<rparr>) t \<longleftrightarrow> t_id t = Some i"
  "tip_matches (any_tip\<lparr>tw_transactionHash := Some h\<rparr>) t \<longleftrightarrow> t_transactionHash t = Some h"
  "tip_matches (any_tip\<lparr>tw_withdrawalTransactionHash := Some h\<rparr>) t \<longleftrightarrow> t_withdrawalTransactionHash t = Some h"
  by (simp_all add: tip_matches_def any_tip_def)

end
