(* ===== verification/Tip_Properties.thy ===== *)
theory Tip_Properties
  imports Tips
begin

text \<open>
  The properties of the tips component: what a filter accepts and selects, the pages of the lists,
  creating and confirming tips, and the on-chain verification with its cache.
\<close>

section \<open>Filters\<close>

lemma buildFilterQuery_Inr:
  assumes "buildFilterQuery date_parse f = Inr q"
  shows "\<not> js_lt (num_or (tf_page f) (Fin 1)) (Fin 1)"
    and "\<not> js_lt (num_or (tf_limit f) (Fin 20)) (Fin 1)" and "\<not> js_lt (Fin 100) (num_or (tf_limit f) (Fin 20))"
    and "str_or (tf_sortBy f) ''createdAt'' \<in> set ALLOWED_SORT_BY"
    and "str_or (tf_sortOrder f) ''DESC'' \<in> set ALLOWED_SORT_ORDER"
    and "date_filter date_parse (tf_startDate f) (tf_endDate f) = Inr (fq_createdAt q)"
    and "asset_filter (tf_asset f) = Inr (fq_asset q)"
    and "amount_filter (tf_minAmount f) (tf_maxAmount f) = Inr (fq_amount q)"
    and "fq_order q = [(str_or (tf_sortBy f) ''createdAt'', str_or (tf_sortOrder f) ''DESC'')]"
    and "fq_skip q = js_mul (js_sub (num_or (tf_page f) (Fin 1)) (Fin 1)) (num_or (tf_limit f) (Fin 20))"
    and "fq_take q = num_or (tf_limit f) (Fin 20)"
  using assms by (auto simp: buildFilterQuery_def Let_def bind_result_Inr_iff split: if_splits)

lemma num_or_not_NaN: "d \<noteq> NaN \<Longrightarrow> num_or n d \<noteq> NaN"
  by (cases n) (auto simp: num_or_def)

lemma date_filter_error: "date_filter dp a b = Inl e \<Longrightarrow> \<exists>m. e = BadRequest m"
  by (auto simp: date_filter_def split: option.splits)

lemma asset_filter_error: "asset_filter a = Inl e \<Longrightarrow> \<exists>m. e = BadRequest m"
  by (auto simp: asset_filter_def split: option.splits if_splits)

lemma amount_filter_error: "amount_filter a b = Inl e \<Longrightarrow> \<exists>m. e = BadRequest m"
  by (auto simp: amount_filter_def split: option.splits if_splits)

text \<open>
  The bounds of a list query: a filter is refused with a \<open>BadRequest\<close>, or the page size is a
  number between 1 and 100, the offset is not negative, and the rows are sorted by creation time
  or amount in one of the two directions. No parameter can make it sort or limit otherwise.
\<close>

theorem filter_query_bounds:
  "case buildFilterQuery date_parse f of
     Inl e \<Rightarrow> \<exists>m. e = BadRequest m
   | Inr q \<Rightarrow> (\<exists>l. fq_take q = Fin l \<and> 1 \<le> l \<and> l \<le> 100) \<and> js_le (Fin 0) (fq_skip q)
       \<and> (\<exists>c d. fq_order q = [(c, d)] \<and> c \<in> {''createdAt'', ''amount''} \<and> d \<in> {''ASC'', ''DESC''})"
proof (cases "buildFilterQuery date_parse f")
  case (Inl e)
  then show ?thesis
    using date_filter_error asset_filter_error amount_filter_error
    by (auto simp: buildFilterQuery_def Let_def bind_result_def split: if_splits sum.splits)
next
  case (Inr q)
  note q = buildFilterQuery_Inr [OF Inr]
  have "num_or (tf_limit f) (Fin 20) \<noteq> NaN" by (rule num_or_not_NaN) simp
  then obtain l where l: "num_or (tf_limit f) (Fin 20) = Fin l" "1 \<le> l" "l \<le> 100"
    using q(2,3) by (cases "num_or (tf_limit f) (Fin 20)") auto
  have "num_or (tf_page f) (Fin 1) \<noteq> NaN" by (rule num_or_not_NaN) simp
  then consider "num_or (tf_page f) (Fin 1) = PosInf" | p where "num_or (tf_page f) (Fin 1) = Fin p" "1 \<le> p"
    using q(1) by (cases "num_or (tf_page f) (Fin 1)") auto
  then have "js_le (Fin 0) (fq_skip q)"
  proof cases
    case 1
    then show ?thesis using q(10) l by (simp add: inf_of_sign_def js_le_def)
  next
    case 2
    have nonneg: "js_le (Fin 0) (to_number r)" if "0 \<le> r" for r
      using that overflow_bound_big by (auto simp: to_number_def js_le_def js_eq_def)
    show ?thesis
    proof (cases "to_number (p - 1) = PosInf")
      case True
      then show ?thesis using q(10) l 2 by (simp add: inf_of_sign_def js_le_def)
    next
      case False
      then have "to_number (p - 1) = Fin (p - 1)"
        using 2 overflow_bound_big by (auto simp: to_number_def)
      then show ?thesis using q(10) l 2 nonneg [of "(p - 1) * l"] by simp
    qed
  qed
  then show ?thesis
    using q(4,5,9,11) l Inr by (auto simp: ALLOWED_SORT_BY_def ALLOWED_SORT_ORDER_def)
qed

text \<open>What the conditions of an accepted filter say of a tip.\<close>

definition satisfies_filter :: "(string \<Rightarrow> int option) \<Rightarrow> tip_filter \<Rightarrow> tip \<Rightarrow> bool" where
  "satisfies_filter date_parse f t \<longleftrightarrow>
     (\<forall>a x. or_null (tf_startDate f) = Some a \<longrightarrow> date_parse a = Some x \<longrightarrow> (\<exists>d. t_createdAt t = Some d \<and> x \<le> d))
   \<and> (\<forall>b y. or_null (tf_endDate f) = Some b \<longrightarrow> date_parse b = Some y \<longrightarrow> (\<exists>d. t_createdAt t = Some d \<and> d \<le> y))
   \<and> (\<forall>a. or_null (tf_asset f) = Some a \<longrightarrow> asset_value (t_asset t) = toUpperCase a)
   \<and> (\<forall>m. tf_minAmount f = Some (Fin m) \<longrightarrow> m \<le> t_amount t)
   \<and> (\<forall>m. tf_maxAmount f = Some (Fin m) \<longrightarrow> t_amount t \<le> m)"

lemma with_filter_matches:
  assumes q: "buildFilterQuery date_parse f = Inr q" and t: "tip_matches (with_filter q b) t"
    and b: "tw_createdAt b = None" "tw_asset b = None" "tw_amount b = None"
  shows "tip_matches b t \<and> satisfies_filter date_parse f t"
proof -
  have m: "tip_matches b t" and am: "\<And>g. fq_amount q = Some g \<Longrightarrow> amount_matches g (t_amount t)"
    and as: "\<And>a. fq_asset q = Some a \<Longrightarrow> asset_value (t_asset t) = a"
    and dt: "\<And>g. fq_createdAt q = Some g \<Longrightarrow> \<exists>d. t_createdAt t = Some d \<and> date_matches g d"
    using t b by (auto simp: tip_matches_def with_filter_def split: option.splits)
  have "or_null (tf_startDate f) = Some a \<longrightarrow> date_parse a = Some x \<longrightarrow> (\<exists>d. t_createdAt t = Some d \<and> x \<le> d)"
    and "or_null (tf_endDate f) = Some c \<longrightarrow> date_parse c = Some y \<longrightarrow> (\<exists>d. t_createdAt t = Some d \<and> d \<le> y)"
    for a x c y
    using buildFilterQuery_Inr(6) [OF q] dt
    by (cases "fq_createdAt q"; cases "or_null (tf_startDate f)"; cases "or_null (tf_endDate f)";
        fastforce simp: date_filter_def split: option.splits)+
  moreover have "or_null (tf_asset f) = Some a \<longrightarrow> asset_value (t_asset t) = toUpperCase a" for a
    using buildFilterQuery_Inr(7) [OF q] as by (auto simp: asset_filter_def split: if_splits)
  moreover have "r \<le> t_amount t" if "tf_minAmount f = Some (Fin r)" for r
    using buildFilterQuery_Inr(8) [OF q, symmetric] am that
    by (cases "tf_maxAmount f") (auto simp: amount_filter_def split: if_splits)
  moreover have "t_amount t \<le> r" if "tf_maxAmount f = Some (Fin r)" for r
    using buildFilterQuery_Inr(8) [OF q, symmetric] am that
    by (cases "tf_minAmount f") (auto simp: amount_filter_def split: if_splits)
  ultimately show ?thesis using m unfolding satisfies_filter_def by blast
qed

section \<open>Lists\<close>

text \<open>The rows a list is cut from: the tips of one of the alternatives that pass the filter.\<close>

definition matching_tips :: "filter_query \<Rightarrow> tip_where list \<Rightarrow> tip list \<Rightarrow> tip list" where
  "matching_tips q bases rows = sort_by (order_by tip_col_le (fq_order q))
     (filter (\<lambda>t. list_ex (\<lambda>b. tip_matches (with_filter q b) t) bases) rows)"

abbreviation page_filter :: "nat \<Rightarrow> nat \<Rightarrow> tip_filter \<Rightarrow> tip_filter" where
  "page_filter p l f \<equiv> f\<lparr>tf_page := Some (Fin (of_nat p)), tf_limit := Some (Fin (of_nat l))\<rparr>"

lemma set_matching_tips:
  "t \<in> set (matching_tips q bases rows) \<longleftrightarrow>
     t \<in> set rows \<and> (\<exists>b\<in>set bases. tip_matches (with_filter q b) t)"
proof -
  have "mset (matching_tips q bases rows)
      = mset (filter (\<lambda>t. list_ex (\<lambda>b. tip_matches (with_filter q b) t) bases) rows)"
    by (simp add: matching_tips_def)
  from mset_eq_setD [OF this] show ?thesis by (simp add: list_ex_iff)
qed

text \<open>The page only moves the offset.\<close>

lemma buildFilterQuery_page:
  assumes q: "buildFilterQuery date_parse (page_filter 1 l f) = Inr q" and p: "1 \<le> p" "p * l \<le> max_safe"
    and l: "0 < l"
  shows "buildFilterQuery date_parse (page_filter p l f)
    = Inr (q\<lparr>fq_skip := Fin (of_nat ((p - 1) * l))\<rparr>)"
proof -
  have "num_or (Some (Fin (of_nat l))) (Fin 20) = Fin (of_nat l)" using l by simp
  with q p show ?thesis
    using page_skip [OF p l]
    by (auto simp: buildFilterQuery_def Let_def bind_result_def split: if_splits sum.splits)
qed

lemma selected_tips:
  "selected tip_matches (order_by tip_col_le) ((query_of (map (with_filter q) bases))
     \<lparr>fo_order := fq_order q, fo_skip := k, fo_take := m\<rparr>) rows = matching_tips q bases rows"
  by (simp add: selected_def matching_tips_def selects_def list_ex_iff cong: filter_cong)

lemma list_tips_page:
  assumes run: "fst (list_tips TR date_parse bases (page_filter p l f) s) = Inr pg"
    and con: "tips_contract TR"
    and q: "buildFilterQuery date_parse (page_filter 1 l f) = Inr q"
    and p: "1 \<le> p" "p * l \<le> max_safe" and l: "0 < l"
    and ties: "\<And>a b. a \<in> set (matching_tips q bases (tips_rows s)) \<Longrightarrow>
      b \<in> set (matching_tips q bases (tips_rows s)) \<Longrightarrow> order_by tip_col_le (fq_order q) a b \<Longrightarrow>
      order_by tip_col_le (fq_order q) b a \<Longrightarrow> a = b"
  shows "pg_data pg = take l (drop ((p - 1) * l) (matching_tips q bases (tips_rows s)))
    \<and> (pg_hasNextPage pg \<longleftrightarrow> p * l < length (matching_tips q bases (tips_rows s)))"
proof -
  have tk: "fq_take q = Fin (of_nat l)" using buildFilterQuery_Inr(11) [OF q] l by simp
  let ?o = "(query_of (map (with_filter q) bases))\<lparr>fo_order := fq_order q,
    fo_skip := Some (Fin (of_nat ((p - 1) * l))), fo_take := Some (Fin (of_nat l))\<rparr>"
  have wf: "with_filter (q\<lparr>fq_skip := k\<rparr>) = with_filter q" for k
    by (rule ext) (simp add: with_filter_def)
  have pn: "num_or (Some (Fin (of_nat p))) (Fin 1) = Fin (of_nat p)"
    "num_or (Some (Fin (of_nat l))) (Fin 20) = Fin (of_nat l)" using p(1) l by simp_all
  obtain es n where f: "findAndCount TR ?o (tips_rows s) = Inr (es, n)"
    and pg: "pg = formatPaginatedResult es n (Fin (of_nat p)) (Fin (of_nat l))"
    using run tk pn by (auto simp: list_tips_def op_simps buildFilterQuery_page [OF q p l] wf
        simp del: of_nat_mult split: sum.splits)
  have sel: "selects tip_matches ?o = (\<lambda>t. list_ex (\<lambda>b. tip_matches (with_filter q b) t) bases)"
    by (simp add: fun_eq_iff selects_def list_ex_iff)
  have slice: "es = map (view_all (fo_select ?o)) (take l (drop ((p - 1) * l)
      (selected tip_matches (order_by tip_col_le) ?o (tips_rows s))))
    \<and> n = length (selected tip_matches (order_by tip_col_le) ?o (tips_rows s))"
  proof (rule repository.page_slice [OF con f])
    show "total_preorder (order_by tip_col_le (fo_order ?o))" by (rule total_preorder_tip)
    show "a = b" if "a \<in> set (tips_rows s)" "b \<in> set (tips_rows s)" "selects tip_matches ?o a"
      "selects tip_matches ?o b" "order_by tip_col_le (fo_order ?o) a b" "order_by tip_col_le (fo_order ?o) b a"
      for a b
      using that ties unfolding sel set_matching_tips by (auto simp: list_ex_iff)
  qed (use l in simp_all)
  then show ?thesis
    unfolding selected_tips using pg format_has_next [OF l p(2)]
    by (simp add: formatPaginatedResult_def Let_def view_all_def [abs_def])
qed

abbreviation wallet_bases :: "string \<Rightarrow> tip_where list" where
  "wallet_bases w \<equiv> [any_tip\<lparr>tw_receiverWallet := Some w\<rparr>, any_tip\<lparr>tw_senderWallet := Some w\<rparr>]"

lemma selects_bases:
  "selects tip_matches ((query_of bs)\<lparr>fo_order := os, fo_skip := k, fo_take := m\<rparr>)
     = (\<lambda>t. list_ex (\<lambda>b. tip_matches b t) bs)"
  by (simp add: fun_eq_iff selects_def)

lemma list_tips_InrE:
  assumes "list_tips TR date_parse bases f s = (Inr pg, s')"
  obtains q es n where "buildFilterQuery date_parse f = Inr q"
    and "findAndCount TR ((query_of (map (with_filter q) bases))\<lparr>fo_order := fq_order q,
      fo_skip := Some (fq_skip q), fo_take := Some (fq_take q)\<rparr>) (tips_rows s) = Inr (es, n)"
    and "pg = formatPaginatedResult es n (num_or (tf_page f) (Fin 1)) (num_or (tf_limit f) (Fin 20))"
    and "s' = s"
proof (cases "buildFilterQuery date_parse f")
  case (Inl e)
  with assms show thesis by (simp add: list_tips_def op_simps)
next
  case (Inr q)
  let ?f = "findAndCount TR ((query_of (map (with_filter q) bases))\<lparr>fo_order := fq_order q,
      fo_skip := Some (fq_skip q), fo_take := Some (fq_take q)\<rparr>) (tips_rows s)"
  show thesis
  proof (cases ?f)
    case (Inl m)
    with assms Inr show thesis by (simp add: list_tips_def op_simps)
  next
    case page: (Inr x)
    obtain es n where x: "x = (es, n)" by (cases x)
    show thesis
      by (rule that [OF Inr page [unfolded x]])
        (use assms Inr page x in \<open>simp_all add: list_tips_def op_simps\<close>)
  qed
qed

text \<open>
  A list contains only what was asked for: every tip on a page of a creator's list is a stored
  tip of that creator which lies in the date range, is of the asset and lies in the amount range of
  the filter, whatever page, size and order were asked for.
\<close>

theorem listed_tips_satisfy_filter:
  assumes "tips_contract TR" and "1 \<le> p" and "p * l \<le> max_safe" and "0 < l"
    and "getTipsByCreator TR date_parse c (page_filter p l f) s = (Inr pg, s')"
    and "t \<in> set (pg_data pg)"
  shows "t \<in> set (tips_rows s) \<and> t_creatorId t = c \<and> satisfies_filter date_parse f t \<and> s' = s"
proof -
  obtain q es n where q: "buildFilterQuery date_parse (page_filter p l f) = Inr q"
    and fnd: "findAndCount TR ((query_of [with_filter q (any_tip\<lparr>tw_creatorId := Some c\<rparr>)])
      \<lparr>fo_order := fq_order q, fo_skip := Some (fq_skip q), fo_take := Some (fq_take q)\<rparr>) (tips_rows s) = Inr (es, n)"
    and pg: "pg_data pg = es" "s' = s"
    using assms(5) unfolding getTipsByCreator_def
    by (elim list_tips_InrE) (simp add: formatPaginatedResult_def Let_def)
  have pn: "num_or (tf_page (page_filter p l f)) (Fin 1) = Fin (of_nat p)"
    "num_or (tf_limit (page_filter p l f)) (Fin 20) = Fin (of_nat l)"
    using assms(2,4) by simp_all
  have "fq_skip q = Fin (of_nat ((p - 1) * l))" and "fq_take q = Fin (of_nat l)"
    using buildFilterQuery_Inr(10,11) [OF q] page_skip [OF assms(2-4)] unfolding pn by simp_all
  with fnd obtain ss where ss: "mset ss = filter_mset (\<lambda>t. tip_matches
        (with_filter q (any_tip\<lparr>tw_creatorId := Some c\<rparr>)) t) (mset (tips_rows s))"
    and es: "es = take l (drop ((p - 1) * l) ss)"
    using repository.find_and_count [OF assms(1) fnd, of "(p - 1) * l" l] assms(4)
    by (auto simp: view_all_def [abs_def] selects_bases simp del: of_nat_mult)
  have "t \<in> set ss" using assms(6) es pg by (auto dest: in_set_takeD in_set_dropD)
  then have t: "t \<in> set (tips_rows s)" "tip_matches (with_filter q (any_tip\<lparr>tw_creatorId := Some c\<rparr>)) t"
    using mset_eq_setD [OF ss [folded mset_filter]] by auto
  have "tip_matches (any_tip\<lparr>tw_creatorId := Some c\<rparr>) t \<and> satisfies_filter date_parse (page_filter p l f) t"
    by (rule with_filter_matches [OF q t(2)]) (simp_all add: any_tip_def)
  moreover have "satisfies_filter date_parse (page_filter p l f) t = satisfies_filter date_parse f t"
    by (simp add: satisfies_filter_def)
  ultimately show ?thesis using t(1) pg(2) by (simp add: matches_base)
qed

definition sample_tip :: "string \<Rightarrow> int \<Rightarrow> rat \<Rightarrow> tip" where
  "sample_tip i d a = \<lparr>t_id = Some i, t_creatorId = ''u1'', t_supporterId = None, t_senderWallet = ''GS'',
     t_receiverWallet = ''GR'', t_amount = a, t_asset = XLM, t_assetIssuer = None, t_message = '''',
     t_transactionHash = Some (''h'' @ i), t_status = COMPLETED, t_withdrawalStatus = Some W_NONE,
     t_withdrawalTransactionHash = None, t_createdAt = Some d\<rparr>"

definition sample_tips :: database where
  "sample_tips = empty_database\<lparr>tips_rows := [sample_tip ''1'' 10 5, sample_tip ''2'' 30 2, sample_tip ''3'' 20 9]\<rparr>"

lemma build_no_filter:
  "buildFilterQuery date_parse (page_filter 1 2 no_filter)
    = Inr \<lparr>fq_createdAt = None, fq_asset = None, fq_amount = None, fq_order = [(''createdAt'', ''DESC'')],
        fq_skip = Fin 0, fq_take = Fin 2\<rparr>"
  by (simp add: buildFilterQuery_def no_filter_def ALLOWED_SORT_BY_def ALLOWED_SORT_ORDER_def
      date_filter_def asset_filter_def amount_filter_def to_number_small)

lemma listed_tips_satisfy_filter_witness:
  "\<exists>pg. getTipsByCreator tips_table (\<lambda>_. None) ''u1'' (page_filter 1 2 no_filter) sample_tips = (Inr pg, sample_tips)
    \<and> t_creatorId (hd (pg_data pg)) = ''u1''"
proof -
  have "1 * 2 \<le> max_safe" by (simp add: max_safe_def)
  moreover obtain pg where r: "getTipsByCreator tips_table (\<lambda>_. None) ''u1'' (page_filter 1 2 no_filter) sample_tips = (Inr pg, sample_tips)"
    and pg: "pg_data pg = [sample_tip ''2'' 30 2, sample_tip ''3'' 20 9]"
    using build_no_filter [of "\<lambda>_. None"]
    by (simp add: getTipsByCreator_def list_tips_def op_simps with_filter_def table_eval sample_tips_def
        sample_tip_def tip_col_le_def formatPaginatedResult_def)
  ultimately show ?thesis
    using listed_tips_satisfy_filter [OF tips_tbl.repository_axioms, of 1 2 "\<lambda>_. None" "''u1''" no_filter
        sample_tips pg sample_tips "hd (pg_data pg)"] by simp
qed

text \<open>The pages of a list, as a page source.\<close>

abbreviation wallet_page :: "(tip_where, tip) repository_ops \<Rightarrow> (string \<Rightarrow> int option) \<Rightarrow> string \<Rightarrow> tip_filter \<Rightarrow> nat \<Rightarrow>
    nat \<Rightarrow> 'z database_scheme \<Rightarrow> tip paginated" where
  "wallet_page TR date_parse w f l p s \<equiv> page_of (getTipsByWallet TR date_parse w (page_filter p l f) s)"

lemma tips_page_source:
  assumes av: "tips_available TR"
    and q: "buildFilterQuery date_parse (page_filter 1 l f) = Inr q" and l: "0 < l"
    and ties: "\<And>a b. a \<in> set (matching_tips q (wallet_bases w) (tips_rows s)) \<Longrightarrow>
      b \<in> set (matching_tips q (wallet_bases w) (tips_rows s)) \<Longrightarrow> order_by tip_col_le (fq_order q) a b \<Longrightarrow>
      order_by tip_col_le (fq_order q) b a \<Longrightarrow> a = b"
  shows "page_source (\<lambda>p. wallet_page TR date_parse w f l p s)
    (matching_tips q (wallet_bases w) (tips_rows s)) l"
proof
  fix p :: nat
  assume p: "1 \<le> p" "p * l \<le> max_safe"
  note con = available_repository.axioms(1) [OF av]
  have "\<exists>pg. fst (list_tips TR date_parse (wallet_bases w) (page_filter p l f) s) = Inr pg"
  proof -
    let ?q = "q\<lparr>fq_skip := Fin (of_nat ((p - 1) * l))\<rparr>"
    obtain es n where "findAndCount TR ((query_of (map (with_filter ?q) (wallet_bases w)))\<lparr>fo_order := fq_order ?q,
        fo_skip := Some (fq_skip ?q), fo_take := Some (fq_take ?q)\<rparr>) (tips_rows s) = Inr (es, n)"
      using available_repository.find_and_count_available [OF av] by fast
    then show ?thesis by (simp add: list_tips_def op_simps buildFilterQuery_page [OF q p l] del: of_nat_mult)
  qed
  then obtain pg where pg: "fst (list_tips TR date_parse (wallet_bases w) (page_filter p l f) s) = Inr pg"
    by blast
  then have "wallet_page TR date_parse w f l p s = pg" by (simp add: page_of_def getTipsByWallet_def)
  then show "pg_data (wallet_page TR date_parse w f l p s) =
      take l (drop ((p - 1) * l) (matching_tips q (wallet_bases w) (tips_rows s)))"
    and "pg_hasNextPage (wallet_page TR date_parse w f l p s) \<longleftrightarrow>
      p * l < length (matching_tips q (wallet_bases w) (tips_rows s))"
    using list_tips_page [OF pg con q p l ties] by simp_all
qed (rule l)

text \<open>
  C16. Paging through the tips of a wallet is complete: for an accepted filter under which no two
  matching tips tie in the sort column, the pages from the first to the first without a next page
  are, put together, exactly the matching tips sent or received by the wallet, each once (also a
  tip the wallet sent to itself) and in the order asked for.
\<close>

theorem wallet_pages_complete:
  assumes "tips_available TR" and "buildFilterQuery date_parse (page_filter 1 l f) = Inr q"
    and "0 < l" and "1 \<le> P" and "P * l \<le> max_safe"
    and "\<And>a b. a \<in> set (matching_tips q (wallet_bases w) (tips_rows s)) \<Longrightarrow>
      b \<in> set (matching_tips q (wallet_bases w) (tips_rows s)) \<Longrightarrow> order_by tip_col_le (fq_order q) a b \<Longrightarrow>
      order_by tip_col_le (fq_order q) b a \<Longrightarrow> a = b"
    and "\<not> pg_hasNextPage (wallet_page TR date_parse w f l P s)"
  shows "concat (map (\<lambda>p. pg_data (wallet_page TR date_parse w f l p s)) [1..<Suc P])
    = matching_tips q (wallet_bases w) (tips_rows s)"
  by (rule page_source.walk_complete [OF tips_page_source [OF assms(1-3,6)] assms(4,5,7)])

lemma wallet_pages_complete_witness:
  "concat (map (\<lambda>p. pg_data (wallet_page tips_table (\<lambda>_. None) ''GR'' no_filter 2 p sample_tips)) [1..<Suc 2])
    = [sample_tip ''2'' 30 2, sample_tip ''3'' 20 9, sample_tip ''1'' 10 5]"
proof -
  let ?q = "\<lparr>fq_createdAt = None, fq_asset = None, fq_amount = None, fq_order = [(''createdAt'', ''DESC'')],
    fq_skip = Fin 0, fq_take = Fin 2\<rparr>"
  let ?ts = "matching_tips ?q (wallet_bases ''GR'') (tips_rows sample_tips)"
  have ts: "?ts = [sample_tip ''2'' 30 2, sample_tip ''3'' 20 9, sample_tip ''1'' 10 5]"
    by (simp add: matching_tips_def with_filter_def table_eval sample_tips_def sample_tip_def tip_col_le_def)
  have ties: "order_by tip_col_le (fq_order ?q) a b \<Longrightarrow> order_by tip_col_le (fq_order ?q) b a \<Longrightarrow> a = b"
    if "a \<in> set ?ts" "b \<in> set ?ts" for a b
    using that unfolding ts by (auto simp: sample_tip_def tip_col_le_def)
  have small: "2 * 2 \<le> max_safe" by (simp add: max_safe_def)
  have src: "page_source (\<lambda>p. wallet_page tips_table (\<lambda>_. None) ''GR'' no_filter 2 p sample_tips) ?ts 2"
    by (rule tips_page_source [OF tips_tbl.available_repository_axioms build_no_filter _ ties]) simp_all
  have last: "\<not> pg_hasNextPage (wallet_page tips_table (\<lambda>_. None) ''GR'' no_filter 2 2 sample_tips)"
    using page_source.page_next [OF src _ small] by (simp add: ts)
  show ?thesis
    using wallet_pages_complete [OF tips_tbl.available_repository_axioms
        build_no_filter [of "\<lambda>_. None"] _ _ small ties last] unfolding ts by simp
qed

section \<open>Creating and confirming\<close>

lemma createTip_InrE:
  assumes run: "createTip TR UR usdc now dto sid s = (Inr t, s')" and con: "users_contract UR"
  obtains c i rows where "c \<in> set (users_rows s)" and "u_walletAddress c = Some (dto_receiverWallet dto)"
    and "u_id c = Some i" and "0 < dto_amount dto" and "str_or (dto_asset dto) ''XLM'' \<in> set asset_values"
    and "str_or (dto_asset dto) ''XLM'' = ''USDC'' \<longrightarrow> or_null usdc \<noteq> None"
    and "saveRow TR now (tip_of_dto (or_null usdc) dto sid i (str_or (dto_asset dto) ''XLM'')) (tips_rows s) = Inr (t, rows)"
    and "s' = s\<lparr>tips_rows := rows\<rparr>"
proof -
  let ?w = "any_user\<lparr>uw_walletAddress := Some (dto_receiverWallet dto)\<rparr>"
  obtain v where f: "findOne UR (query_of [?w]) (users_rows s) = Inr (Some v)"
    and checks: "\<not> dto_amount dto \<le> 0" "\<not> (str_or (dto_asset dto) ''XLM'' = ''USDC'' \<and> or_null usdc = None)"
      "str_or (dto_asset dto) ''XLM'' \<in> set asset_values"
    and rest: "(case u_id v of
              None \<Rightarrow> throw (JsError ''null value in column creator_id violates not-null constraint'')
            | Some creatorId \<Rightarrow> write_tips (saveRow TR now
                (tip_of_dto (or_null usdc) dto sid creatorId (str_or (dto_asset dto) ''XLM'')))) s = (Inr t, s')"
  proof (cases "findOne UR (query_of [?w]) (users_rows s)")
    case (Inl m)
    with run show thesis by (simp add: createTip_def find_user_def Let_def op_simps)
  next
    case (Inr x)
    with run show thesis
      by (cases x) (simp_all add: that createTip_def find_user_def Let_def op_simps split: if_splits)
  qed
  obtain i where i: "u_id v = Some i"
    and w: "write_tips (saveRow TR now (tip_of_dto (or_null usdc) dto sid i (str_or (dto_asset dto) ''XLM''))) s = (Inr t, s')"
    using rest by (cases "u_id v") (simp_all add: throw_apply)
  obtain c where c: "c \<in> set (users_rows s)" "u_walletAddress c = Some (dto_receiverWallet dto)" "v = user_view None c"
    using repository.find_one_Some [OF con f] by (auto simp: selects_user)
  show thesis
    using that [OF c(1,2) _ _ checks(3)] c(3) i checks w
    by (auto simp: write_tips_Inr_iff user_view_def)
qed

text \<open>
  C11. What \<open>createTip\<close> stores: the tip goes to an existing user with the receiver's wallet, its
  amount is positive, it counts as completed exactly when a transaction hash was given (which no
  other tip has), a USDC tip carries an issuer and an XLM tip none, and the tips table grows by this
  one row while nothing else changes.
\<close>

theorem createTip_effect:
  assumes "users_contract UR" and "tips_contract TR" and "fits_decimal (dto_amount dto)"
    and "tips_ok (tips_rows s)" and "createTip TR UR usdc now dto sid s = (Inr t, s')"
  shows "(\<exists>c\<in>set (users_rows s). u_walletAddress c = Some (t_receiverWallet t) \<and> u_id c = Some (t_creatorId t))
    \<and> t_receiverWallet t = dto_receiverWallet dto \<and> t_amount t = dto_amount dto \<and> 0 < t_amount t
    \<and> asset_value (t_asset t) = str_or (dto_asset dto) ''XLM''
    \<and> (case t_asset t of USDC \<Rightarrow> truthy (t_assetIssuer t) | XLM \<Rightarrow> t_assetIssuer t = None)
    \<and> t_transactionHash t = or_null (dto_transactionHash dto)
    \<and> (t_status t = COMPLETED \<longleftrightarrow> t_transactionHash t \<noteq> None)
    \<and> (\<forall>r\<in>set (tips_rows s). t_transactionHash t \<noteq> None \<longrightarrow> t_transactionHash r \<noteq> t_transactionHash t)
    \<and> mset (tips_rows s') = add_mset t (mset (tips_rows s)) \<and> tips_ok (tips_rows s')
    \<and> s' = s\<lparr>tips_rows := tips_rows s'\<rparr>"
proof -
  obtain c i rows where c: "c \<in> set (users_rows s)" "u_walletAddress c = Some (dto_receiverWallet dto)" "u_id c = Some i"
    and pos: "0 < dto_amount dto" and asset: "str_or (dto_asset dto) ''XLM'' \<in> set asset_values"
    and usdc: "str_or (dto_asset dto) ''XLM'' = ''USDC'' \<longrightarrow> or_null usdc \<noteq> None"
    and sv: "saveRow TR now (tip_of_dto (or_null usdc) dto sid i (str_or (dto_asset dto) ''XLM'')) (tips_rows s) = Inr (t, rows)"
    and s': "s' = s\<lparr>tips_rows := rows\<rparr>"
    by (rule createTip_InrE [OF assms(5,1)])
  let ?e = "tip_of_dto (or_null usdc) dto sid i (str_or (dto_asset dto) ''XLM'')"
  have new: "t_id ?e = None" "fits_decimal (t_amount ?e)" using assms(3) by (simp_all add: tip_of_dto_def)
  obtain k where t: "t = tip_fill k now ?e" and rows: "mset rows = add_mset t (mset (tips_rows s))"
    using repository.save_insert [OF assms(2), OF sv new] by blast
  have ok: "tips_ok rows" by (rule repository.save_constraint [OF assms(2) sv assms(4)])
  have av: "asset_value (asset_of (str_or (dto_asset dto) ''XLM'')) = str_or (dto_asset dto) ''XLM''"
    by (rule asset_value_of [OF asset])
  have issuer: "case t_asset t of USDC \<Rightarrow> truthy (t_assetIssuer t) | XLM \<Rightarrow> t_assetIssuer t = None"
  proof -
    have "truthy (or_null usdc)" if "str_or (dto_asset dto) ''XLM'' = ''USDC''"
      using usdc that by (cases "truthy usdc") (simp_all add: or_null_def)
    moreover have "asset_of (str_or (dto_asset dto) ''XLM'') = USDC \<longleftrightarrow> str_or (dto_asset dto) ''XLM'' = ''USDC''"
      by (simp add: asset_of_def)
    ultimately show ?thesis
      using t by (auto simp: tip_fill_def tip_of_dto_def split: tip_asset.splits)
  qed
  have "unique_col t_transactionHash (t # tips_rows s)"
    using ok unique_col_mset_eq [of rows "t # tips_rows s"] rows by (simp add: tips_ok_def)
  then have "\<forall>r\<in>set (tips_rows s). t_transactionHash t \<noteq> None \<longrightarrow> t_transactionHash r \<noteq> t_transactionHash t"
    by (fastforce simp: unique_col_def image_iff)
  moreover have "t_status t = COMPLETED \<longleftrightarrow> t_transactionHash t \<noteq> None"
    using t by (simp add: tip_fill_def tip_of_dto_def or_null_def truthy_def)
  ultimately show ?thesis
    using c t pos av issuer rows ok s' by (auto simp: tip_fill_def tip_of_dto_def)
qed

definition sample_dto :: create_tip_dto where
  "sample_dto = \<lparr>dto_receiverWallet = ''GR'', dto_senderWallet = Some ''GS'', dto_amount = 5,
     dto_message = None, dto_asset = Some ''USDC'', dto_assetIssuer = None, dto_transactionHash = Some ''h9''\<rparr>"

definition sample_creator :: user where
  "sample_creator = new_user\<lparr>u_id := Some ''u1'', u_username := Some ''cr'', u_walletAddress := Some ''GR'',
     u_isActive := Some True\<rparr>"

definition creator_db :: database where
  "creator_db = empty_database\<lparr>users_rows := [sample_creator], tips_rows := [sample_tip ''1'' 10 5]\<rparr>"

lemmas tip_eval = sample_dto_def sample_creator_def new_user_def creator_db_def sample_tip_def table_eval op_simps
  write_defs createTip_def find_user_def tip_of_dto_def asset_values_def asset_of_def

lemma createTip_effect_witness:
  "\<exists>t s'. createTip tips_table users_table (Some ''GI'') 40 sample_dto None creator_db = (Inr t, s')
    \<and> t_status t = COMPLETED \<and> truthy (t_assetIssuer t)"
proof -
  obtain t s' where r: "createTip tips_table users_table (Some ''GI'') 40 sample_dto None creator_db = (Inr t, s')"
    and usdc: "t_asset t = USDC" "t_transactionHash t \<noteq> None"
    by (simp add: tip_eval)
  have "fits_decimal (dto_amount sample_dto)" by (simp add: sample_dto_def fits_decimal_def)
  moreover have "tips_ok (tips_rows creator_db)" by (simp add: tip_eval)
  ultimately show ?thesis
    using createTip_effect [OF users_tbl.repository_axioms tips_tbl.repository_axioms _ _ r] r usdc by auto
qed

text \<open>
  Confirming a tip sets its hash and marks it completed, and touches no other row: the caller is
  not asked who they are, whether the payment exists or whether the tip was pending, and without a
  hash in the request the tip is completed all the same. An unknown tip is refused, nothing written.
\<close>

theorem confirmTip_effect:
  assumes "tips_contract TR" and "tips_ok (tips_rows s)"
    and "\<forall>r\<in>set (tips_rows s). fits_decimal (t_amount r)"
    and "confirmTip_route TR now i h s = (res, s')"
  shows "case res of
      Inl e \<Rightarrow> s' = s
    | Inr t \<Rightarrow> (\<exists>r\<in>set (tips_rows s). t_id r = Some i
        \<and> t = r\<lparr>t_transactionHash := h, t_status := COMPLETED\<rparr>
        \<and> mset (tips_rows s') = add_mset
            (r\<lparr>t_transactionHash := keep (t_transactionHash r) h, t_status := COMPLETED\<rparr>) (mset (tips_rows s) - {#r#})
        \<and> tips_ok (tips_rows s') \<and> s' = s\<lparr>tips_rows := tips_rows s'\<rparr>)"
proof -
  let ?q = "query_of [any_tip\<lparr>tw_id := Some i\<rparr>]"
  show ?thesis
  proof (cases res)
    case (Inl e)
    have "s' = s"
      using assms(4) unfolding Inl confirmTip_route_def confirmTip_def find_tip_def
      by (auto simp: op_simps write_Inl split: sum.splits option.splits)
    with Inl show ?thesis by simp
  next
    case (Inr t)
    obtain r rows where f: "findOne TR ?q (tips_rows s) = Inr (Some r)"
      and sv: "saveRow TR now (r\<lparr>t_transactionHash := h, t_status := COMPLETED\<rparr>) (tips_rows s) = Inr (t, rows)"
      and s': "s' = s\<lparr>tips_rows := rows\<rparr>"
      using assms(4) unfolding Inr confirmTip_route_def confirmTip_def find_tip_def
      by (auto simp: op_simps write_Inr_iff split: sum.splits option.splits)
    have r: "r \<in> set (tips_rows s)" "t_id r = Some i"
      using repository.find_one_Some [OF assms(1) f] by (auto simp: matches_base)
    have t: "t_id (r\<lparr>t_transactionHash := h, t_status := COMPLETED\<rparr>) = Some i"
      "fits_decimal (t_amount (r\<lparr>t_transactionHash := h, t_status := COMPLETED\<rparr>))"
      using r assms(3) by simp_all
    have "t = r\<lparr>t_transactionHash := h, t_status := COMPLETED\<rparr>"
      "mset rows = add_mset (tip_merge r (r\<lparr>t_transactionHash := h, t_status := COMPLETED\<rparr>)) (mset (tips_rows s) - {#r#})"
      using repository.save_update [OF assms(1), OF sv assms(2) r t] by simp_all
    moreover have "tip_merge r (r\<lparr>t_transactionHash := h, t_status := COMPLETED\<rparr>)
        = r\<lparr>t_transactionHash := keep (t_transactionHash r) h, t_status := COMPLETED\<rparr>"
      by (simp add: tip_merge_def)
    moreover have "tips_ok rows" by (rule repository.save_constraint [OF assms(1) sv assms(2)])
    ultimately show ?thesis using Inr r s' by auto
  qed
qed

lemma confirmTip_effect_witness:
  "\<exists>t s'. confirmTip_route tips_table 50 ''1'' None
      (creator_db\<lparr>tips_rows := [sample_tip ''1'' 10 5\<lparr>t_transactionHash := None, t_status := PENDING\<rparr>]\<rparr>) = (Inr t, s')
    \<and> t_status t = COMPLETED \<and> t_transactionHash t = None"
proof -
  let ?s = "creator_db\<lparr>tips_rows := [sample_tip ''1'' 10 5\<lparr>t_transactionHash := None, t_status := PENDING\<rparr>]\<rparr>"
  obtain t s' where r: "confirmTip_route tips_table 50 ''1'' None ?s = (Inr t, s')"
    by (simp add: confirmTip_route_def confirmTip_def find_tip_def tip_eval)
  have "tips_ok (tips_rows ?s)" "\<forall>r\<in>set (tips_rows ?s). fits_decimal (t_amount r)"
    by (simp_all add: tip_eval fits_decimal_def)
  from confirmTip_effect [OF tips_tbl.repository_axioms this r] r show ?thesis by auto
qed

section \<open>The position of a tip in its creator's history\<close>

lemma findIndex_split: "(\<And>y. y \<in> set xs \<Longrightarrow> \<not> P y) \<Longrightarrow> P x \<Longrightarrow> findIndex P (xs @ x # ys) = int (length xs)"
  by (induction xs) auto

abbreviation history_order :: "tip \<Rightarrow> tip \<Rightarrow> bool" where
  "history_order \<equiv> order_by tip_col_le [(''createdAt'', ''ASC''), (''id'', ''ASC'')]"

lemma history_order_antisym: "history_order a b \<Longrightarrow> history_order b a \<Longrightarrow> t_id a = t_id b"
  by (auto simp: tip_col_le_def split: if_splits)

text \<open>
  C15. The index under which a tip is looked up in the contract is its position in the creator's
  history: the number of the creator's other tips that were created before it, ties broken by id. It
  does not depend on how the database stores the rows, and is below the number of the creator's tips.
\<close>

theorem creator_tip_index_is_rank:
  assumes "tips_contract TR" and "tips_ok (tips_rows s)" and "tip \<in> set (tips_rows s)"
    and "getCreatorTipIndex TR tip s = (Inr k, s')"
  shows "k = int (size {#c \<in># mset (tips_rows s).
        t_creatorId c = t_creatorId tip \<and> c \<noteq> tip \<and> history_order c tip#})
    \<and> k < int (size {#c \<in># mset (tips_rows s). t_creatorId c = t_creatorId tip#})"
proof -
  let ?q = "(query_of [any_tip\<lparr>tw_creatorId := Some (t_creatorId tip)\<rparr>])
        \<lparr>fo_order := [(''createdAt'', ''ASC''), (''id'', ''ASC'')]\<rparr>"
  obtain es where f: "findMany TR ?q (tips_rows s) = Inr es"
    and k: "k = findIndex (\<lambda>candidate. t_id candidate = t_id tip) es"
    using assms(4) by (auto simp: getCreatorTipIndex_def op_simps split: sum.splits)
  have "selects tip_matches ?q = (\<lambda>c. t_creatorId c = t_creatorId tip)"
    by (simp add: fun_eq_iff selects_def matches_base)
  then have m: "mset es = {#c \<in># mset (tips_rows s). t_creatorId c = t_creatorId tip#}"
    and srt: "sorted_wrt history_order es"
    using repository.find_many [OF assms(1) f] by (auto simp: view_all_def [abs_def])
  have set: "set es = {c \<in> set (tips_rows s). t_creatorId c = t_creatorId tip}"
    using mset_eq_setD [OF m [folded mset_filter]] by simp
  then have "tip \<in> set es" using assms(3) by simp
  then obtain xs ys where es: "es = xs @ tip # ys" by (meson split_list)
  have key: "keyed t_id (tips_rows s)" using assms(2) by (simp add: tips_ok_def)
  have "distinct (tips_rows s)" by (rule keyed_distinct [OF key])
  moreover have "mset es = mset (filter (\<lambda>c. t_creatorId c = t_creatorId tip) (tips_rows s))" using m by simp
  ultimately have d: "distinct es" using mset_eq_imp_distinct_iff distinct_filter by blast
  have id: "c = tip" if "c \<in> set es" "t_id c = t_id tip" for c
    using keyedD [OF key _ assms(3)] that set by blast
  have before: "history_order x tip" "x \<noteq> tip" if "x \<in> set xs" for x
    using srt d that by (auto simp: es sorted_wrt_append)
  have after: "\<not> (y \<noteq> tip \<and> history_order y tip)" if "y \<in> set ys" for y
  proof
    assume "y \<noteq> tip \<and> history_order y tip"
    moreover have "history_order tip y" using srt that by (simp add: es sorted_wrt_append)
    ultimately show False using history_order_antisym id that by (auto simp: es)
  qed
  have "findIndex (\<lambda>c. t_id c = t_id tip) es = int (length xs)"
    unfolding es using id before(2) by (intro findIndex_split) (auto simp: es)
  moreover have "filter (\<lambda>c. c \<noteq> tip \<and> history_order c tip) es = xs"
    using before after by (auto simp: es filter_id_conv filter_empty_conv)
  moreover have "{#c \<in># mset (tips_rows s). t_creatorId c = t_creatorId tip \<and> c \<noteq> tip \<and> history_order c tip#}
      = mset (filter (\<lambda>c. c \<noteq> tip \<and> history_order c tip) es)"
    by (simp add: m filter_filter_mset conj_assoc)
  ultimately show ?thesis using k m [symmetric] by (simp add: es)
qed

lemma creator_tip_index_is_rank_witness:
  "\<exists>k s'. getCreatorTipIndex tips_table (sample_tip ''3'' 20 9) sample_tips = (Inr k, s') \<and> k < 3"
proof -
  have "tips_ok (tips_rows sample_tips)" and "sample_tip ''3'' 20 9 \<in> set (tips_rows sample_tips)"
    by (simp_all add: tip_eval sample_tips_def)
  moreover obtain k s' where r: "getCreatorTipIndex tips_table (sample_tip ''3'' 20 9) sample_tips = (Inr k, s')"
    by (simp add: getCreatorTipIndex_def op_simps table_eval sample_tips_def)
  moreover have "size {#c \<in># mset (tips_rows sample_tips). t_creatorId c = t_creatorId (sample_tip ''3'' 20 9)#} = 3"
    by (simp add: sample_tips_def sample_tip_def)
  ultimately show ?thesis
    using creator_tip_index_is_rank [OF tips_tbl.repository_axioms _ _ r] by auto
qed

section \<open>Verification against the chain\<close>

lemma cache_key_inj [simp]: "getVerificationCacheKey a = getVerificationCacheKey b \<longleftrightarrow> a = b"
  by (simp add: getVerificationCacheKey_def)

interpretation local_cache: result_cache readVerificationCache writeVerificationCache json_round_trip
  verificationCacheTtlMs
  by unfold_locales
    (auto simp: readVerificationCache_def writeVerificationCache_def Let_def split: option.splits)

lemma verify_uncached_InrE:
  assumes run: "verify_uncached TR UR env i s = (Inr (tip, addr, v), s')"
    and con: "tips_contract TR"
  obtains creator :: "user option" and idx tm where "tip \<in> set (tips_rows s)" and "t_id tip = Some i"
    and "getCreatorTipIndex TR tip s = (Inr idx, s)" and "0 \<le> idx"
    and "addr = str_or (case creator of None \<Rightarrow> None | Some c \<Rightarrow> u_walletAddress c) (t_receiverWallet tip)"
    and "oc_tipIndex v = idx" and "oc_tipId v = Some i"
    and "oc_horizon v = (case or_null (t_transactionHash tip) of
       Some h \<Rightarrow> verifyPayment (env_show_num env) (env_horizon env) h | None \<Rightarrow> unverified)"
    and "oc_contract v = verifyTipOnContract (env_show_num env) (env_date_parse env) (env_contract env) addr idx"
    and "timestamp_match (env_date_parse env) (pv_timestamp (oc_horizon v)) (ct_timestamp (oc_contract v)) = Inr tm"
    and "oc_matches v = onchain_matches tip (oc_horizon v) (oc_contract v) tm" and "s' = s"
proof -
  obtain t where f: "findOne TR (query_of [any_tip\<lparr>tw_id := Some i\<rparr>]) (tips_rows s) = Inr (Some t)"
    using run by (cases "findOne TR (query_of [any_tip\<lparr>tw_id := Some i\<rparr>]) (tips_rows s)")
      (auto simp: verify_uncached_def find_tip_def op_simps split: option.splits)
  have t: "t \<in> set (tips_rows s)" "t_id t = Some i"
    using repository.find_one_Some [OF con f] by (auto simp: matches_base)
  obtain creator where c: "load_user UR (Some (t_creatorId t)) s = (Inr creator, s)"
    using run f by (cases "findOne UR (query_of [any_user\<lparr>uw_id := Some (t_creatorId t)\<rparr>]) (users_rows s)")
      (simp_all add: verify_uncached_def find_tip_def load_user_def find_user_def op_simps)
  obtain idx where x: "getCreatorTipIndex TR t s = (Inr idx, s)"
    using run f c by (cases "findMany TR ((query_of [any_tip\<lparr>tw_creatorId := Some (t_creatorId t)\<rparr>])
        \<lparr>fo_order := [(''createdAt'', ''ASC''), (''id'', ''ASC'')]\<rparr>) (tips_rows s)")
      (simp_all add: verify_uncached_def find_tip_def op_simps getCreatorTipIndex_def)
  have idx: "0 \<le> idx"
    using run f c x by (simp add: verify_uncached_def find_tip_def op_simps split: if_splits)
  let ?a = "str_or (case creator of None \<Rightarrow> None | Some c \<Rightarrow> u_walletAddress c) (t_receiverWallet t)"
  let ?h = "case or_null (t_transactionHash t) of
       Some h \<Rightarrow> verifyPayment (env_show_num env) (env_horizon env) h | None \<Rightarrow> unverified"
  let ?c = "verifyTipOnContract (env_show_num env) (env_date_parse env) (env_contract env) ?a idx"
  obtain tm where tm: "timestamp_match (env_date_parse env) (pv_timestamp ?h) (ct_timestamp ?c) = Inr tm"
    using run f c x idx by (cases "timestamp_match (env_date_parse env) (pv_timestamp ?h) (ct_timestamp ?c)")
      (simp_all add: verify_uncached_def find_tip_def op_simps Let_def)
  have "(tip, addr, v) = (t, ?a, \<lparr>oc_tipId = t_id t, oc_tipIndex = idx, oc_horizon = ?h,
      oc_contract = ?c, oc_matches = onchain_matches t ?h ?c tm\<rparr>) \<and> s' = s"
    using run f c x idx tm by (auto simp: verify_uncached_def find_tip_def op_simps Let_def)
  then show thesis
    using that [of idx creator tm] t x idx tm by simp
qed

lemma verifyPayment_amount:
  "pv_verified (verifyPayment show_num horizon h) \<Longrightarrow> pv_amount (verifyPayment show_num horizon h) \<noteq> None"
  by (auto simp: verifyPayment_def unverified_def Let_def split: sum.splits if_splits)

text \<open>
  C13. A verification that reports a match is backed by both sources: the transaction of the tip was
  found on Horizon with the tip's sender, receiver and amount, and the contract holds, at the tip's
  index for its creator, a tip with the same sender, receiver and amount; the asset is not compared.
\<close>

theorem verified_tip_agrees:
  assumes "tips_contract TR" and "verify_uncached TR UR env i s = (Inr (tip, addr, v), s')" and "oc_matches v"
  shows "tip \<in> set (tips_rows s) \<and> t_id tip = Some i
    \<and> (\<exists>h. t_transactionHash tip = Some h
        \<and> oc_horizon v = verifyPayment (env_show_num env) (env_horizon env) h \<and> pv_verified (oc_horizon v))
    \<and> pv_from (oc_horizon v) = Some (t_senderWallet tip) \<and> pv_to (oc_horizon v) = Some (t_receiverWallet tip)
    \<and> pv_amount (oc_horizon v) = Some (Fin (t_amount tip))
    \<and> ct_exists (oc_contract v) \<and> 0 \<le> oc_tipIndex v
    \<and> ct_from (oc_contract v) = t_senderWallet tip \<and> ct_to (oc_contract v) = t_receiverWallet tip
    \<and> ct_amount (oc_contract v) = Fin (t_amount tip)
    \<and> oc_contract v = verifyTipOnContract (env_show_num env) (env_date_parse env) (env_contract env) addr (oc_tipIndex v)"
proof (rule verify_uncached_InrE [OF assms(2,1)], goal_cases)
  case (1 creator idx tm)
  have m: "onchain_matches tip (oc_horizon v) (oc_contract v) tm" using assms(3) 1 by simp
  then have "pv_verified (oc_horizon v)" by (simp add: onchain_matches_def)
  then obtain h where h: "or_null (t_transactionHash tip) = Some h"
    "oc_horizon v = verifyPayment (env_show_num env) (env_horizon env) h"
    using 1(8) by (cases "or_null (t_transactionHash tip)") (simp_all add: unverified_def)
  moreover have "t_transactionHash tip = Some h"
    using h(1) by (simp add: or_null_def split: if_splits)
  moreover from h(2) m have "pv_amount (oc_horizon v) \<noteq> None"
    using verifyPayment_amount by (auto simp: onchain_matches_def)
  ultimately show ?case
    using m 1 by (auto simp: onchain_matches_def js_eq_def)
qed

definition sample_env :: chain_env where
  "sample_env = \<lparr>env_show_num = (\<lambda>_. ''5''), env_date_parse = (\<lambda>_. None),
     env_horizon = (\<lambda>h. Inr (JObject [(''source_account'', JString ''GS''),
       (''operations'', JArray [JObject [(''to'', JString ''GR''), (''amount'', JString ''5'')]])])),
     env_contract = Inr \<lparr>get_balance = (\<lambda>_. Inr (JNumber (Fin 5))), get_tip_count = (\<lambda>_. Inr (JNumber (Fin 1))),
       get_tip = (\<lambda>_ _. Inr (JArray [JString ''GS'', JString ''GR'', JNumber (Fin 5)]))\<rparr>,
     env_decimal = (\<lambda>_. ''5.0000000'')\<rparr>"

lemma parseFloat_5: "parseFloat ''5'' = Fin 5"
  by (simp add: parseFloat_def scan_decimal_def scan_sign_def scan_unsigned_def scan_exponent_def startsWith_def
      trim_start_def is_space_def is_digit_def char_code_def digits_value_def digit_value_def pow10_def
      to_number_small)

lemma sample_verify:
  "verify_uncached tips_table users_table sample_env ''1'' creator_db = (Inr (sample_tip ''1'' 10 5, ''GR'',
     \<lparr>oc_tipId = Some ''1'', oc_tipIndex = 0,
      oc_horizon = \<lparr>pv_verified = True, pv_from = Some ''GS'', pv_to = Some ''GR'', pv_amount = Some (Fin 5),
        pv_asset = Some ''XLM'', pv_timestamp = None\<rparr>,
      oc_contract = \<lparr>ct_exists = True, ct_from = ''GS'', ct_to = ''GR'', ct_amount = Fin 5, ct_timestamp = None\<rparr>,
      oc_matches = True\<rparr>), creator_db)"
  by (simp add: verify_uncached_def find_tip_def load_user_def getCreatorTipIndex_def tip_eval sample_env_def
      verifyPayment_def verifyTipOnContract_def normalizeContractTip_def extractResult_def toFiniteNumber_def
      normalizeTimestamp_def first_element_def elem_def or_text_def timestamp_match_def onchain_matches_def
      parseFloat_5)

lemma verified_tip_agrees_witness:
  "\<exists>tip addr v. verify_uncached tips_table users_table sample_env ''1'' creator_db = (Inr (tip, addr, v), creator_db)
    \<and> ct_amount (oc_contract v) = Fin (t_amount tip) \<and> t_amount tip = 5"
proof -
  obtain tip addr v where r: "verify_uncached tips_table users_table sample_env ''1'' creator_db = (Inr (tip, addr, v), creator_db)"
    and v: "oc_matches v" "t_amount tip = 5"
    using sample_verify by (simp add: sample_tip_def)
  have "ct_amount (oc_contract v) = Fin (t_amount tip)"
    using verified_tip_agrees [OF tips_tbl.repository_axioms r v(1)] by blast
  with r v(2) show ?thesis by blast
qed

lemma discrepancy_InrE:
  assumes "notifications_contract NR" and "notifyDiscrepancyDetected NR now c md s = (Inr n, s')"
  shows "\<exists>rows. s' = s\<lparr>notifications_rows := rows\<rparr> \<and> mset rows = add_mset n (mset (notifications_rows s))
    \<and> n_userId n = c \<and> n_type n = DISCREPANCY_DETECTED \<and> n_isRead n = Some False \<and> n_metadata n = Some md"
  using notifications_service.create_Inr [OF selected_matches_user [OF assms(1)]
      assms(2) [unfolded notifyDiscrepancyDetected_def]] by force

lemma verify_fresh_InrE:
  assumes "localVerificationCache s (getVerificationCacheKey i) = None" and con: "tips_contract TR"
    and "verifyTipOnChain TR UR NR env now later i s = (Inr v, s')"
  obtains tip addr s2 where "tip \<in> set (tips_rows s)" and "t_id tip = Some i"
    and "if oc_matches v then s2 = s else \<exists>n. notifyDiscrepancyDetected NR later (t_creatorId tip)
      (discrepancy_metadata env tip addr v) s = (Inr n, s2)"
    and "writeVerificationCache later i v s2 = (Inr (), s')"
proof -
  have miss: "readVerificationCache now i s = (Inr None, s)"
    using assms(1) by (simp add: readVerificationCache_def Let_def)
  let ?k = "\<lambda>(tip, creatorAddress, verification).
             andThen (if \<not> oc_matches verification
               then andThen (notifyDiscrepancyDetected NR later (t_creatorId tip)
                  (discrepancy_metadata env tip creatorAddress verification)) (\<lambda>_. return_op ())
               else return_op ())
             (\<lambda>_. andThen (writeVerificationCache later i verification)
             (\<lambda>_. return_op verification))"
  have "andThen (verify_uncached TR UR env i) ?k s = (Inr v, s')"
    using assms(3) miss by (simp add: verifyTipOnChain_def andThen_Inr)
  then obtain x s1 where "verify_uncached TR UR env i s = (Inr x, s1)" and "?k x s1 = (Inr v, s')"
    by (rule andThen_InrE)
  then obtain tip addr w where u: "verify_uncached TR UR env i s = (Inr (tip, addr, w), s1)"
    and rest: "?k (tip, addr, w) s1 = (Inr v, s')"
    by (cases x) auto
  have t: "tip \<in> set (tips_rows s)" "t_id tip = Some i" "s1 = s"
    by (rule verify_uncached_InrE [OF u con], simp)+
  show thesis
  proof (cases "oc_matches w")
    case True
    then have "writeVerificationCache later i w s = (Inr (), s') \<and> v = w"
      using rest t(3) by (auto simp: op_simps writeVerificationCache_def)
    with True t that [of tip s addr] show thesis by simp
  next
    case False
    then obtain n s2 where "notifyDiscrepancyDetected NR later (t_creatorId tip)
        (discrepancy_metadata env tip addr w) s = (Inr n, s2)"
      and "writeVerificationCache later i w s2 = (Inr (), s') \<and> v = w"
      using rest t(3) by (auto simp: return_op_apply elim!: andThen_InrE)
    with False t that [of tip s2 addr] show thesis by auto
  qed
qed

text \<open>
  C10. What a verification that is not answered from the cache changes: a match writes nothing to
  the tables; a mismatch adds exactly one notification, for the tip's creator, with the two replies
  as its data. The result is what is cached, for sixty seconds.
\<close>

theorem verification_effect:
  assumes "tips_contract TR" and "notifications_contract NR"
    and "localVerificationCache s (getVerificationCacheKey i) = None"
    and "verifyTipOnChain TR UR NR env now later i s = (Inr v, s')"
  shows "\<exists>tip\<in>set (tips_rows s). t_id tip = Some i
    \<and> users_rows s' = users_rows s \<and> tips_rows s' = tips_rows s \<and> tokens_rows s' = tokens_rows s
    \<and> (if oc_matches v then notifications_rows s' = notifications_rows s
        else \<exists>n addr. mset (notifications_rows s') = add_mset n (mset (notifications_rows s))
          \<and> n_userId n = t_creatorId tip \<and> n_type n = DISCREPANCY_DETECTED
          \<and> n_metadata n = Some (discrepancy_metadata env tip addr v))
    \<and> localVerificationCache s' (getVerificationCacheKey i) = Some (later + 60000, json_round_trip v)"
proof (rule verify_fresh_InrE [OF assms(3,1,4)], goal_cases)
  case (1 tip addr s2)
  show ?case
  proof (cases "oc_matches v")
    case True
    with 1 show ?thesis
      by (intro bexI [of _ tip]) (auto simp: writeVerificationCache_def verificationCacheTtlMs_def)
  next
    case False
    with 1 obtain n where "notifyDiscrepancyDetected NR later (t_creatorId tip)
        (discrepancy_metadata env tip addr v) s = (Inr n, s2)" by auto
    from discrepancy_InrE [OF assms(2) this] False 1 show ?thesis
      by (intro bexI [of _ tip]) (auto simp: writeVerificationCache_def verificationCacheTtlMs_def)
  qed
qed

definition sample_tips_state :: tips_state where
  "sample_tips_state = \<lparr>users_rows = [sample_creator], tips_rows = [sample_tip ''1'' 10 5],
     notifications_rows = [], tokens_rows = [], localVerificationCache = (\<lambda>_. None)\<rparr>"

definition silent_env :: chain_env where
  "silent_env = sample_env\<lparr>env_horizon := (\<lambda>_. Inl ''offline''), env_contract := Inl ''offline''\<rparr>"

lemma sample_mismatch:
  "\<exists>v s'. verifyTipOnChain tips_table users_table notifications_table silent_env 100 110 ''1'' sample_tips_state
     = (Inr v, s') \<and> \<not> oc_matches v"
  by (simp add: verifyTipOnChain_def readVerificationCache_def writeVerificationCache_def sample_tips_state_def
      verify_uncached_def find_tip_def load_user_def getCreatorTipIndex_def tip_eval sample_env_def silent_env_def
      verifyPayment_def verifyTipOnContract_def timestamp_match_def onchain_matches_def unverified_def
      no_contract_tip_def notifyDiscrepancyDetected_def createNotification_def)

lemma verification_effect_witness:
  "\<exists>v s'. verifyTipOnChain tips_table users_table notifications_table silent_env 100 110 ''1'' sample_tips_state
     = (Inr v, s') \<and> (\<exists>n. mset (notifications_rows s') = {#n#} \<and> n_userId n = ''u1'')"
proof -
  obtain v s' where r: "verifyTipOnChain tips_table users_table notifications_table silent_env 100 110 ''1'' sample_tips_state
     = (Inr v, s')" and v: "\<not> oc_matches v"
    using sample_mismatch by blast
  have c: "localVerificationCache sample_tips_state (getVerificationCacheKey ''1'') = None"
    by (simp add: sample_tips_state_def)
  have "\<exists>n. mset (notifications_rows s') = {#n#} \<and> n_userId n = ''u1''"
    using verification_effect [OF tips_tbl.repository_axioms notifications_tbl.repository_axioms c r] v
    by (auto simp: sample_tips_state_def sample_tip_def)
  with r show ?thesis by blast
qed

text \<open>
  Verifying again within sixty seconds answers with the first result and changes nothing: no
  second notification is sent, whatever the chain would answer by then.
\<close>

theorem verification_is_cached:
  assumes "tips_contract TR" and "notifications_contract NR"
    and "localVerificationCache s (getVerificationCacheKey i) = None"
    and "verifyTipOnChain TR UR NR env now later i s = (Inr v, s')"
    and "t < later + 60000"
  shows "verifyTipOnChain TR UR NR env' t t' i s' = (Inr (json_round_trip v), s')"
proof (rule verify_fresh_InrE [OF assms(3,1,4)], goal_cases)
  case (1 tip addr s2)
  show ?case
    unfolding verifyTipOnChain_def
    by (rule local_cache.hit_skips [OF 1(4)]) (simp add: assms(5) verificationCacheTtlMs_def)
qed

lemma verification_is_cached_witness:
  "\<exists>v s'. verifyTipOnChain tips_table users_table notifications_table silent_env 100 110 ''1'' sample_tips_state = (Inr v, s')
     \<and> verifyTipOnChain tips_table users_table notifications_table sample_env 200 210 ''1'' s'
       = (Inr (json_round_trip v), s')"
proof -
  obtain v s' where r: "verifyTipOnChain tips_table users_table notifications_table silent_env 100 110 ''1'' sample_tips_state
     = (Inr v, s')"
    using sample_mismatch by blast
  have "localVerificationCache sample_tips_state (getVerificationCacheKey ''1'') = None"
    by (simp add: sample_tips_state_def)
  from verification_is_cached [OF tips_tbl.repository_axioms notifications_tbl.repository_axioms this r,
      of 200 sample_env 210] r
  show ?thesis by auto
qed

end
