(* ===== verification/Webhook.thy ===== *)
theory Webhook
  imports Tips
begin

text \<open>
  The ingestion of contract events (\<open>handleContractWebhook\<close> of
  \<open>src/src/stellar/stellar.service.ts\<close> and \<open>src/src/stellar/contract/events.ts\<close>): the checks of
  signature and age, the duplicate check, and what each event writes. The HMAC is the argument
  \<open>hmac secret body\<close>, in hexadecimal.
\<close>

section \<open>Events\<close>

definition TIP_EVENT :: string where "TIP_EVENT = ''tip''"

definition WITHDRAWAL_EVENT :: string where "WITHDRAWAL_EVENT = ''withdrawal''"

definition REGISTER_EVENT :: string where "REGISTER_EVENT = ''register''"

datatype event_topic = Topic string | Topics "string list"

record event_payload =
  ev_topic :: event_topic
  ev_transactionHash :: "string option"
  ev_timestamp :: "string option"
  ev_data :: "jsval option"

fun normalizeContractEventTopic :: "event_topic \<Rightarrow> string option" where
  "normalizeContractEventTopic (Topics ts) = (if length ts > 0 then Some (ts ! (length ts - 1)) else None)"
| "normalizeContractEventTopic (Topic t) = (if t = '''' then None else Some t)"

section \<open>Reading the payload\<close>

definition missing_fields :: api_error where
  "missing_fields = BadRequest ''Webhook payload is missing required fields''"

definition readString :: "jsval \<Rightarrow> string result" where
  "readString v = (case v of
      JString s \<Rightarrow> if length (trim s) = 0 then Inl missing_fields else Inr (trim s)
    | _ \<Rightarrow> Inl missing_fields)"

text \<open>\<open>string | null\<close>: \<open>Undef\<close> is not among its results.\<close>

definition readOptionalString :: "jsval \<Rightarrow> string maybe" where
  "readOptionalString v = (case v of
      JString s \<Rightarrow> if length (trim s) > 0 then Val (trim s) else Null
    | _ \<Rightarrow> Null)"

definition readAmount :: "jsval \<Rightarrow> rat result" where
  "readAmount v =
     bind_result (case v of JNumber n \<Rightarrow> Inr n | _ \<Rightarrow> bind_result (readString v) (\<lambda>s. Inr (js_Number s)))
     (\<lambda>amount. case amount of
        Fin r \<Rightarrow> if r \<le> 0 then Inl (BadRequest ''Webhook payload has an invalid amount'') else Inr r
      | _ \<Rightarrow> Inl (BadRequest ''Webhook payload has an invalid amount''))"

definition normalizeAsset :: "jsval \<Rightarrow> tip_asset result" where
  "normalizeAsset v =
     (let rawAsset = maybe_or (opt_chain toUpperCase (readOptionalString v)) ''XLM''
      in if rawAsset = ''XLM'' then Inr XLM
         else if rawAsset = ''USDC'' then Inr USDC
         else Inl (BadRequest ''Unsupported webhook asset''))"

text \<open>The \<open>switch\<close>, whose \<open>case null\<close> compares with a value that \<open>?.\<close> turns into \<open>undefined\<close>.\<close>

definition normalizeWithdrawalStatus :: "jsval \<Rightarrow> tip_withdrawal_status result" where
  "normalizeWithdrawalStatus v =
     (let status = opt_chain toLowerCase (readOptionalString v)
      in if status = Val (withdrawal_status_value W_PENDING) then Inr W_PENDING
         else if status = Val (withdrawal_status_value W_FAILED) then Inr W_FAILED
         else if status = Val (withdrawal_status_value W_COMPLETED) \<or> status = Null then Inr W_COMPLETED
         else Inl (BadRequest ''Unsupported withdrawal status''))"

section \<open>The checks\<close>

definition assertWebhookSignature :: "(string \<Rightarrow> string \<Rightarrow> string) \<Rightarrow> string option \<Rightarrow> string option \<Rightarrow>
    string option \<Rightarrow> unit result" where
  "assertWebhookSignature hmac secret rawBody signature =
     (case or_null secret of
        None \<Rightarrow> Inl (Unauthorized ''Webhook secret is not configured'')
      | Some key \<Rightarrow>
          (case (or_null rawBody, or_null signature) of
             (Some body, Some actual) \<Rightarrow>
               (let expected = hmac key body
                in if length expected \<noteq> length actual \<or> expected \<noteq> actual
                   then Inl (Unauthorized ''Invalid webhook signature'') else Inr ())
           | _ \<Rightarrow> Inl (Unauthorized ''Invalid webhook signature'')))"

definition MAX_EVENT_AGE_MS :: int where
  "MAX_EVENT_AGE_MS = 5 * 60 * 1000"

definition assertEventIsFresh :: "(string \<Rightarrow> int option) \<Rightarrow> int \<Rightarrow> event_payload \<Rightarrow> unit result" where
  "assertEventIsFresh date_parse now payload =
     (case Option.bind (ev_timestamp payload) date_parse of
        None \<Rightarrow> Inl (BadRequest ''Invalid event timestamp'')
      | Some t \<Rightarrow>
          if \<bar>now - t\<bar> > MAX_EVENT_AGE_MS then Inl (Unauthorized ''Webhook event is outside replay window'')
          else Inr ())"

definition isDuplicateTransaction :: "(tip_where, tip) repository_ops \<Rightarrow> string option \<Rightarrow> ('z database_scheme, bool) op" where
  "isDuplicateTransaction TR transactionHash =
     (case or_null transactionHash of
        None \<Rightarrow> throw (BadRequest ''transactionHash is required'')
      | Some h \<Rightarrow> andThen (find_tip TR [any_tip\<lparr>tw_transactionHash := Some h\<rparr>,
            any_tip\<lparr>tw_withdrawalTransactionHash := Some h\<rparr>])
          (\<lambda>existingTip. return_op (existingTip \<noteq> None)))"

section \<open>Persisting events\<close>

text \<open>\<open>payload.data || {}\<close>\<close>

definition event_data :: "event_payload \<Rightarrow> jsval" where
  "event_data payload = (case ev_data payload of None \<Rightarrow> JObject [] | Some d \<Rightarrow> d)"

text \<open>The fields \<open>persistTipEvent\<close> reads, in the order it reads them.\<close>

record tip_event =
  te_receiverWallet :: string
  te_senderWallet :: string
  te_asset :: tip_asset
  te_amount :: rat
  te_message :: "string maybe"
  te_assetIssuer :: "string maybe"

definition read_tip_event :: "jsval \<Rightarrow> tip_event result" where
  "read_tip_event data =
     bind_result (readString (get_prop data ''receiverWallet''))
     (\<lambda>receiver. bind_result (readString (get_prop data ''senderWallet''))
     (\<lambda>sender. bind_result (normalizeAsset (get_prop data ''asset''))
     (\<lambda>asset. bind_result (readAmount (get_prop data ''amount''))
     (\<lambda>amount. Inr \<lparr>te_receiverWallet = receiver, te_senderWallet = sender, te_asset = asset, te_amount = amount,
        te_message = readOptionalString (get_prop data ''message''),
        te_assetIssuer = readOptionalString (get_prop data ''assetIssuer'')\<rparr>))))"

definition tip_of_event :: "string option \<Rightarrow> tip_event \<Rightarrow> string \<Rightarrow> string option \<Rightarrow> tip" where
  "tip_of_event usdcIssuer e creatorId transactionHash =
     \<lparr>t_id = None, t_creatorId = creatorId, t_supporterId = None, t_senderWallet = te_senderWallet e,
      t_receiverWallet = te_receiverWallet e, t_amount = te_amount e, t_asset = te_asset e,
      t_assetIssuer = (if te_asset e = USDC
        then (if maybe_truthy (te_assetIssuer e) then maybe_option (te_assetIssuer e) else usdcIssuer) else None),
      t_message = maybe_or (te_message e) '''', t_transactionHash = transactionHash, t_status = COMPLETED,
      t_withdrawalStatus = None, t_withdrawalTransactionHash = None, t_createdAt = None\<rparr>"

definition persistTipEvent :: "(tip_where, tip) repository_ops \<Rightarrow> (user_where, user) repository_ops \<Rightarrow>
    (string \<Rightarrow> string \<Rightarrow> jsnum \<Rightarrow> string \<Rightarrow> ('z database_scheme, notification) op) \<Rightarrow> string option \<Rightarrow> int \<Rightarrow>
    event_payload \<Rightarrow> ('z database_scheme, unit) op" where
  "persistTipEvent TR UR notify usdc_env now payload =
     andThen (lift_result (read_tip_event (event_data payload)))
     (\<lambda>e. andThen (find_user UR (any_user\<lparr>uw_walletAddress := Some (te_receiverWallet e)\<rparr>))
     (\<lambda>creator. case creator of
        None \<Rightarrow> throw (NotFound ''Creator not found with this wallet address'')
      | Some c \<Rightarrow> (case u_id c of
          None \<Rightarrow> throw (JsError ''null value in column creator_id violates not-null constraint'')
        | Some creatorId \<Rightarrow>
            andThen (write_tips (saveRow TR now
              (tip_of_event (or_null usdc_env) e creatorId (ev_transactionHash payload))))
            (\<lambda>saved. andThen (notify (t_creatorId saved) (t_senderWallet saved) (Fin (t_amount saved))
                (asset_value (t_asset saved)))
            (\<lambda>_. return_op ())))))"

definition persistWithdrawalEvent :: "(tip_where, tip) repository_ops \<Rightarrow> int \<Rightarrow> event_payload \<Rightarrow>
    ('z database_scheme, unit) op" where
  "persistWithdrawalEvent TR now payload =
     (let data = event_data payload;
          linkedTipId = readOptionalString (get_prop data ''tipId'');
          linkedTipTransactionHash = readOptionalString (get_prop data ''tipTransactionHash'')
      in if \<not> maybe_truthy linkedTipId \<and> \<not> maybe_truthy linkedTipTransactionHash then return_op ()
         else andThen (find_tip TR [if maybe_truthy linkedTipId
              then any_tip\<lparr>tw_id := maybe_option linkedTipId\<rparr>
              else any_tip\<lparr>tw_transactionHash := maybe_option linkedTipTransactionHash\<rparr>])
           (\<lambda>found. case found of
              None \<Rightarrow> return_op ()
            | Some tip \<Rightarrow> andThen (lift_result (normalizeWithdrawalStatus (get_prop data ''status'')))
                (\<lambda>status. andThen (write_tips (saveRow TR now
                  (tip\<lparr>t_withdrawalStatus := Some status,
                       t_withdrawalTransactionHash := ev_transactionHash payload\<rparr>)))
                (\<lambda>_. return_op ()))))"

section \<open>The handler\<close>

text \<open>What the handler needs of its service: the HMAC, the secret, the issuer and date parsing.\<close>

record webhook_env =
  we_hmac :: "string \<Rightarrow> string \<Rightarrow> string"
  we_secret :: "string option"
  we_usdc_issuer :: "string option"
  we_date_parse :: "string \<Rightarrow> int option"

text \<open>The \<open>switch\<close> on the topic.\<close>

definition persistEvent :: "(tip_where, tip) repository_ops \<Rightarrow> (user_where, user) repository_ops \<Rightarrow>
    (string \<Rightarrow> string \<Rightarrow> jsnum \<Rightarrow> string \<Rightarrow> ('z database_scheme, notification) op) \<Rightarrow> webhook_env \<Rightarrow> int \<Rightarrow>
    event_payload \<Rightarrow> ('z database_scheme, unit) op" where
  "persistEvent TR UR notify env now payload =
     (case normalizeContractEventTopic (ev_topic payload) of
        None \<Rightarrow> throw (BadRequest ''Unsupported contract event topic'')
      | Some topic \<Rightarrow>
          if topic = TIP_EVENT then persistTipEvent TR UR notify (we_usdc_issuer env) now payload
          else if topic = WITHDRAWAL_EVENT then persistWithdrawalEvent TR now payload
          else if topic = REGISTER_EVENT then return_op ()
          else throw (BadRequest ''Unsupported contract event topic''))"

definition handleContractWebhook :: "(tip_where, tip) repository_ops \<Rightarrow> (user_where, user) repository_ops \<Rightarrow>
    (string \<Rightarrow> string \<Rightarrow> jsnum \<Rightarrow> string \<Rightarrow> ('z database_scheme, notification) op) \<Rightarrow> webhook_env \<Rightarrow> int \<Rightarrow>
    event_payload \<Rightarrow> string option \<Rightarrow> string option \<Rightarrow> ('z database_scheme, bool) op" where
  "handleContractWebhook TR UR notify env now payload rawBody signature =
     andThen (lift_result (assertWebhookSignature (we_hmac env) (we_secret env) rawBody signature))
     (\<lambda>_. andThen (lift_result (assertEventIsFresh (we_date_parse env) now payload))
     (\<lambda>_. andThen (isDuplicateTransaction TR (ev_transactionHash payload))
     (\<lambda>duplicate. if duplicate then return_op True
        else andThen (persistEvent TR UR notify env now payload) (\<lambda>_. return_op False))))"

text \<open>The route, with the service's own notifications.\<close>

definition handleContractWebhook_route :: "(tip_where, tip) repository_ops \<Rightarrow> (user_where, user) repository_ops \<Rightarrow>
    (notification_where, notification) repository_ops \<Rightarrow> (jsnum \<Rightarrow> string) \<Rightarrow> webhook_env \<Rightarrow> int \<Rightarrow>
    event_payload \<Rightarrow> string option \<Rightarrow> string option \<Rightarrow> ('z database_scheme, bool) op" where
  "handleContractWebhook_route TR UR NR show_num env now payload rawBody signature =
     handleContractWebhook TR UR (notifyTipReceived NR show_num now) env now payload rawBody signature"

end
