(* ===== verification/Webhook_Properties.thy ===== *)
theory Webhook_Properties
  imports Webhook Tip_Properties
begin

text \<open>
  The properties of the webhook: which deliveries are refused, what an accepted event writes, that a
  transaction is recorded at most once, in sequence and in a race, and what withdrawals do.
\<close>

section \<open>Recorded transactions\<close>

text \<open>The abstract state of the ingestion: the transactions that are recorded.\<close>

definition processed :: "'z database_scheme \<Rightarrow> string set" where
  "processed s = {h. \<exists>t\<in>set (tips_rows s). t_transactionHash t = Some h \<or> t_withdrawalTransactionHash t = Some h}"

lemma hash_query:
  "selects tip_matches (query_of [any_tip\<lparr>tw_transactionHash := Some h\<rparr>,
     any_tip\<lparr>tw_withdrawalTransactionHash := Some h\<rparr>]) t
   \<longleftrightarrow> t_transactionHash t = Some h \<or> t_withdrawalTransactionHash t = Some h"
  by (simp add: selects_def matches_base)

lemma isDuplicateTransaction_Inr:
  assumes con: "tips_contract TR" and run: "isDuplicateTransaction TR th s = (Inr b, s')"
  shows "\<exists>h. th = Some h \<and> h \<noteq> '''' \<and> (b \<longleftrightarrow> h \<in> processed s) \<and> s' = s"
proof -
  obtain h where h: "or_null th = Some h"
    using run by (cases "or_null th") (auto simp: isDuplicateTransaction_def op_simps)
  let ?q = "query_of [any_tip\<lparr>tw_transactionHash := Some h\<rparr>, any_tip\<lparr>tw_withdrawalTransactionHash := Some h\<rparr>]"
  obtain x where x: "findOne TR ?q (tips_rows s) = Inr x" and b: "b = (x \<noteq> None)" "s' = s"
    using run h by (cases "findOne TR ?q (tips_rows s)")
      (auto simp: isDuplicateTransaction_def find_tip_def op_simps)
  have "b \<longleftrightarrow> h \<in> processed s"
  proof (cases x)
    case None
    then show ?thesis
      using b repository.find_one_None [OF con x [unfolded None]] by (auto simp: processed_def hash_query)
  next
    case (Some t)
    then show ?thesis
      using b repository.find_one_Some [OF con x [unfolded Some]] by (auto simp: processed_def hash_query)
  qed
  then show ?thesis using h b by (auto simp: or_null_def split: if_splits)
qed

lemma isDuplicateTransaction_state: "isDuplicateTransaction TR th s = (r, s') \<Longrightarrow> s' = s"
  by (auto simp: isDuplicateTransaction_def find_tip_def op_simps split: option.splits sum.splits)

section \<open>What an event writes\<close>

context notifier
begin

lemma persistTipEvent_InrE:
  assumes con: "users_contract UR" "tips_contract TR"
    and run: "persistTipEvent TR UR notify usdc now p s = (Inr u, s')"
    and dec: "\<And>e. read_tip_event (event_data p) = Inr e \<Longrightarrow> fits_decimal (te_amount e)"
  obtains e c i t rows n nrows where "read_tip_event (event_data p) = Inr e"
    and "c \<in> set (users_rows s)" and "u_walletAddress c = Some (te_receiverWallet e)" and "u_id c = Some i"
    and "\<exists>k. t = tip_fill k now (tip_of_event (or_null usdc) e i (ev_transactionHash p))"
    and "s' = s\<lparr>tips_rows := rows, notifications_rows := nrows\<rparr>"
    and "mset rows = add_mset t (mset (tips_rows s))"
    and "mset nrows = add_mset n (mset (notifications_rows s))"
    and "n_userId n = i" and "n_type n = TIP_RECEIVED" and "tips_ok (tips_rows s) \<Longrightarrow> tips_ok rows"
proof -
  obtain e where e: "read_tip_event (event_data p) = Inr e"
    using run by (cases "read_tip_event (event_data p)") (simp_all add: persistTipEvent_def op_simps)
  let ?w = "any_user\<lparr>uw_walletAddress := Some (te_receiverWallet e)\<rparr>"
  obtain v where f: "findOne UR (query_of [?w]) (users_rows s) = Inr (Some v)"
    using run e by (cases "findOne UR (query_of [?w]) (users_rows s)")
      (auto simp: persistTipEvent_def find_user_def op_simps split: option.splits)
  obtain i where i: "u_id v = Some i"
    using run e f by (cases "u_id v") (simp_all add: persistTipEvent_def find_user_def op_simps)
  let ?t = "tip_of_event (or_null usdc) e i (ev_transactionHash p)"
  obtain t rows where sv: "saveRow TR now ?t (tips_rows s) = Inr (t, rows)"
    using run e f i by (cases "saveRow TR now ?t (tips_rows s)")
      (auto simp: persistTipEvent_def find_user_def op_simps write_tips_def andThen_def)
  have w: "write_tips (saveRow TR now ?t) s = (Inr t, s\<lparr>tips_rows := rows\<rparr>)"
    using sv by (simp add: write_tips_Inr_iff)
  obtain n s2 where n: "notify (t_creatorId t) (t_senderWallet t) (Fin (t_amount t)) (asset_value (t_asset t))
      (s\<lparr>tips_rows := rows\<rparr>) = (Inr n, s2)" and s2: "s2 = s'"
  proof (cases "notify (t_creatorId t) (t_senderWallet t) (Fin (t_amount t)) (asset_value (t_asset t))
      (s\<lparr>tips_rows := rows\<rparr>)")
    case (Pair r s2)
    with run e f i w show thesis
      by (cases r) (simp_all add: that persistTipEvent_def find_user_def op_simps)
  qed
  have new: "t_id ?t = None" "fits_decimal (t_amount ?t)" using dec [OF e] by (simp_all add: tip_of_event_def)
  obtain k where t: "t = tip_fill k now ?t" and rows: "mset rows = add_mset t (mset (tips_rows s))"
    using repository.save_insert [OF con(2), OF sv new] by blast
  have ok: "tips_ok (tips_rows s) \<Longrightarrow> tips_ok rows" by (rule repository.save_constraint [OF con(2) sv])
  obtain c where c: "c \<in> set (users_rows s)" "u_walletAddress c = Some (te_receiverWallet e)" "v = user_view None c"
    using repository.find_one_Some [OF con(1) f] by (auto simp: selects_user)
  have "t_creatorId t = i" using t by (simp add: tip_fill_def tip_of_event_def)
  with notify_Inr [OF n] obtain nrows where "s' = s\<lparr>tips_rows := rows, notifications_rows := nrows\<rparr>"
    "mset nrows = add_mset n (mset (notifications_rows s))" "n_userId n = i" "n_type n = TIP_RECEIVED"
    using s2 by auto
  with that [OF e c(1,2) _ _ _ rows] i c(3) t ok show thesis by (auto simp: user_view_def)
qed

text \<open>A second tip event with a hash that is already there writes nothing.\<close>

lemma persistTipEvent_taken:
  assumes con: "users_contract UR" "tips_contract TR" and ok: "tips_ok (tips_rows s)"
    and h: "ev_transactionHash p = Some h" and r: "r \<in> set (tips_rows s)" "t_transactionHash r = Some h"
    and dec: "\<And>e. read_tip_event (event_data p) = Inr e \<Longrightarrow> fits_decimal (te_amount e)"
  shows "\<exists>e. persistTipEvent TR UR notify usdc now p s = (Inl e, s)"
proof -
  have no: "saveRow TR now (tip_of_event u e i (ev_transactionHash p)) (tips_rows s) \<noteq> Inr (t, rows)"
    if e: "read_tip_event (event_data p) = Inr e" for u e i t rows
  proof
    let ?t = "tip_of_event u e i (ev_transactionHash p)"
    assume sv: "saveRow TR now ?t (tips_rows s) = Inr (t, rows)"
    have new: "t_id ?t = None" "fits_decimal (t_amount ?t)" using dec [OF e] by (simp_all add: tip_of_event_def)
    obtain k where t: "t = tip_fill k now ?t" and rows: "mset rows = add_mset t (mset (tips_rows s))"
      using repository.save_insert [OF con(2), OF sv new] by blast
    have "tips_ok rows" by (rule repository.save_constraint [OF con(2) sv ok])
    then have "unique_col t_transactionHash (t # tips_rows s)"
      using unique_col_mset_eq [of rows "t # tips_rows s"] rows by (simp add: tips_ok_def)
    moreover have "t_transactionHash t = Some h" using t h by (simp add: tip_fill_def tip_of_event_def)
    ultimately show False using r by (fastforce simp: unique_col_def image_iff)
  qed
  show ?thesis
  proof (cases "read_tip_event (event_data p)")
    case (Inl m)
    then show ?thesis by (simp add: persistTipEvent_def op_simps)
  next
    case (Inr e)
    let ?f = "findOne UR (query_of [any_user\<lparr>uw_walletAddress := Some (te_receiverWallet e)\<rparr>]) (users_rows s)"
    have "\<exists>m. write_tips (saveRow TR now (tip_of_event (or_null usdc) e i (ev_transactionHash p))) s = (Inl m, s)" for i
      using no [OF Inr] by (cases "saveRow TR now (tip_of_event (or_null usdc) e i (ev_transactionHash p)) (tips_rows s)")
        (auto simp: write_tips_def)
    then have w: "\<exists>m. andThen (write_tips (saveRow TR now (tip_of_event (or_null usdc) e i (ev_transactionHash p)))) g s
        = (Inl m, s)" for i g
      by (metis andThen_Inl)
    show ?thesis
    proof (cases ?f)
      case (Inl m)
      with Inr show ?thesis by (simp add: persistTipEvent_def find_user_def op_simps)
    next
      case x: (Inr x)
      show ?thesis
        using Inr x w by (cases x; cases "u_id (the x)")
          (simp_all add: persistTipEvent_def find_user_def op_simps)
    qed
  qed
qed

end

section \<open>How deliveries advance the tips\<close>

text \<open>
  Every delivery keeps the constraints of the tips and every hash of a tip transaction, whether it
  is accepted or fails halfway. The amounts are those a \<open>decimal(20, 7)\<close> column stores exactly.
\<close>

definition tips_sound :: "tip list \<Rightarrow> bool" where
  "tips_sound rows \<longleftrightarrow> tips_ok rows \<and> (\<forall>t\<in>set rows. fits_decimal (t_amount t))"

definition tip_hashes :: "'z database_scheme \<Rightarrow> string set" where
  "tip_hashes s = {h. \<exists>t\<in>set (tips_rows s). t_transactionHash t = Some h}"

definition hashes_grow :: "'z database_scheme \<Rightarrow> 'z database_scheme \<Rightarrow> bool" where
  "hashes_grow s s' \<longleftrightarrow> (tips_sound (tips_rows s) \<longrightarrow> tips_sound (tips_rows s') \<and> tip_hashes s \<subseteq> tip_hashes s')"

definition storable_event :: "event_payload \<Rightarrow> bool" where
  "storable_event p \<longleftrightarrow> (case read_tip_event (event_data p) of Inl _ \<Rightarrow> True | Inr e \<Rightarrow> fits_decimal (te_amount e))"

lemma preorder_hashes_grow: "preorder_rel hashes_grow"
  by (simp add: preorder_rel_def hashes_grow_def reflp_def transp_def) blast

lemma hashes_grow_same_tips: "tips_rows s' = tips_rows s \<Longrightarrow> hashes_grow s s'"
  by (simp add: hashes_grow_def tip_hashes_def)

lemma hashes_grow_insert:
  assumes con: "tips_contract TR" and sv: "saveRow TR now e (tips_rows s) = Inr (t, rows)"
    and new: "t_id e = None" "fits_decimal (t_amount e)"
  shows "hashes_grow s (s\<lparr>tips_rows := rows\<rparr>)"
proof -
  obtain k where t: "t = tip_fill k now e" and rows: "mset rows = add_mset t (mset (tips_rows s))"
    using repository.save_insert [OF con, OF sv new] by blast
  have "set rows = insert t (set (tips_rows s))" using rows by (metis set_mset_add_mset_insert set_mset_mset)
  moreover have "fits_decimal (t_amount t)" using t new by (simp add: tip_fill_def)
  ultimately show ?thesis
    using repository.save_constraint [OF con sv] by (auto simp: hashes_grow_def tips_sound_def tip_hashes_def)
qed

lemma hashes_grow_withdrawal:
  assumes con: "tips_contract TR" and f: "findOne TR q (tips_rows s) = Inr (Some r)"
    and sv: "saveRow TR now (r\<lparr>t_withdrawalStatus := w, t_withdrawalTransactionHash := h\<rparr>) (tips_rows s) = Inr (t, rows)"
  shows "hashes_grow s (s\<lparr>tips_rows := rows\<rparr>)"
proof (cases "tips_sound (tips_rows s)")
  case False
  then show ?thesis by (simp add: hashes_grow_def)
next
  case True
  let ?e = "r\<lparr>t_withdrawalStatus := w, t_withdrawalTransactionHash := h\<rparr>"
  have r: "r \<in> set (tips_rows s)" using repository.find_one_Some [OF con f] by auto
  have ok: "tips_ok (tips_rows s)" using True by (simp add: tips_sound_def)
  obtain i where i: "t_id r = Some i" using ok r by (auto simp: tips_ok_def dest: keyed_key)
  have st: "fits_decimal (t_amount ?e)" "t_id ?e = Some i" using True r i by (auto simp: tips_sound_def)
  have m: "mset rows = add_mset (tip_merge r ?e) (mset (tips_rows s) - {#r#})"
    using repository.save_update [OF con, OF sv ok r i st(2,1)] by simp
  have keep: "t_transactionHash (tip_merge r ?e) = t_transactionHash r" "t_amount (tip_merge r ?e) = t_amount r"
    by (simp_all add: tip_merge_def keep_def split: option.splits)
  have "set rows = insert (tip_merge r ?e) (set_mset (mset (tips_rows s) - {#r#}))"
    using m by (metis set_mset_add_mset_insert set_mset_mset)
  moreover have "set (tips_rows s) = insert r (set_mset (mset (tips_rows s) - {#r#}))"
    using r by (metis insert_DiffM set_mset_add_mset_insert set_mset_mset in_multiset_in_set)
  ultimately show ?thesis
    using repository.save_constraint [OF con sv ok] keep True
    by (auto simp: hashes_grow_def tips_sound_def tip_hashes_def)
qed

lemma persistWithdrawalEvent_grows:
  assumes "tips_contract TR"
  shows "advances hashes_grow (persistWithdrawalEvent TR now p)"
proof (rule advancesI)
  fix s :: "'z database_scheme" and r s'
  let ?data = "event_data p"
  let ?id = "readOptionalString (get_prop ?data ''tipId'')"
  let ?hash = "readOptionalString (get_prop ?data ''tipTransactionHash'')"
  assume run: "persistWithdrawalEvent TR now p s = (r, s')"
  show "hashes_grow s s'"
  proof (cases "s' = s")
    case True
    then show ?thesis by (simp add: hashes_grow_same_tips)
  next
    case False
    with run obtain q t w t' rows where "findOne TR q (tips_rows s) = Inr (Some t)"
      and "saveRow TR now (t\<lparr>t_withdrawalStatus := Some w, t_withdrawalTransactionHash := ev_transactionHash p\<rparr>)
        (tips_rows s) = Inr (t', rows)"
      and "s' = s\<lparr>tips_rows := rows\<rparr>"
      by (auto simp: persistWithdrawalEvent_def Let_def find_tip_def op_simps write_tips_def andThen_def
          split: if_splits option.splits sum.splits prod.splits)
    then show ?thesis by (simp add: hashes_grow_withdrawal [OF assms])
  qed
qed

context notifier
begin

lemma persistTipEvent_grows:
  assumes "tips_contract TR" and "storable_event p"
  shows "advances hashes_grow (persistTipEvent TR UR notify usdc now p)"
  unfolding persistTipEvent_def find_user_def
proof (rule advances_lift_then [OF preorder_hashes_grow])
  fix e
  assume e: "read_tip_event (event_data p) = Inr e"
  have "advances hashes_grow (write_tips (saveRow TR now (tip_of_event u e i (ev_transactionHash p))))" for u i
    by (rule advances_write [OF preorder_hashes_grow], erule hashes_grow_insert [OF assms(1)])
      (use assms(2) e in \<open>simp_all add: tip_of_event_def storable_event_def\<close>)
  moreover have "advances hashes_grow (notify c w a x)" for c w a x
    by (rule advancesI) (simp add: hashes_grow_same_tips notify_rest)
  ultimately show "advances hashes_grow (andThen (read_users (findOne UR
      (query_of [any_user\<lparr>uw_walletAddress := Some (te_receiverWallet e)\<rparr>])))
     (\<lambda>creator. case creator of
        None \<Rightarrow> throw (NotFound ''Creator not found with this wallet address'')
      | Some c \<Rightarrow> (case u_id c of
          None \<Rightarrow> throw (JsError ''null value in column creator_id violates not-null constraint'')
        | Some creatorId \<Rightarrow>
            andThen (write_tips (saveRow TR now
              (tip_of_event (or_null usdc) e creatorId (ev_transactionHash p))))
            (\<lambda>saved. andThen (notify (t_creatorId saved) (t_senderWallet saved) (Fin (t_amount saved))
                (asset_value (t_asset saved)))
            (\<lambda>_. return_op ())))))"
    by (intro advances_intros preorder_hashes_grow)
qed

lemma handleContractWebhook_grows:
  assumes "tips_contract TR" and "storable_event p"
  shows "advances hashes_grow (handleContractWebhook TR UR notify env now p raw sig)"
  unfolding handleContractWebhook_def isDuplicateTransaction_def find_tip_def persistEvent_def
  by (intro advances_intros preorder_hashes_grow persistTipEvent_grows [OF assms]
      persistWithdrawalEvent_grows [OF assms(1)])

end

section \<open>What a withdrawal event writes\<close>

definition links_tip :: "event_payload \<Rightarrow> tip \<Rightarrow> bool" where
  "links_tip p t \<longleftrightarrow>
     (if maybe_truthy (readOptionalString (get_prop (event_data p) ''tipId''))
      then t_id t = maybe_option (readOptionalString (get_prop (event_data p) ''tipId''))
      else t_transactionHash t = maybe_option (readOptionalString (get_prop (event_data p) ''tipTransactionHash'')))"

lemma maybe_option_truthy: "maybe_truthy v \<Longrightarrow> \<exists>x. v = Val x \<and> maybe_option v = Some x"
  by (cases v) auto

lemma persistWithdrawalEvent_InrE:
  assumes con: "tips_contract TR" and snd: "tips_sound (tips_rows s)" and h: "ev_transactionHash p = Some h"
    and run: "persistWithdrawalEvent TR now p s = (Inr u, s')"
  obtains "s' = s" | r w rows where "r \<in> set (tips_rows s)" and "links_tip p r"
    and "normalizeWithdrawalStatus (get_prop (event_data p) ''status'') = Inr w"
    and "s' = s\<lparr>tips_rows := rows\<rparr>"
    and "mset rows = add_mset (r\<lparr>t_withdrawalStatus := Some w, t_withdrawalTransactionHash := Some h\<rparr>)
      (mset (tips_rows s) - {#r#})"
proof (cases "s' = s")
  case True
  then show thesis by (rule that(1))
next
  case False
  let ?id = "readOptionalString (get_prop (event_data p) ''tipId'')"
  let ?hash = "readOptionalString (get_prop (event_data p) ''tipTransactionHash'')"
  let ?w = "if maybe_truthy ?id then any_tip\<lparr>tw_id := maybe_option ?id\<rparr>
    else any_tip\<lparr>tw_transactionHash := maybe_option ?hash\<rparr>"
  have linked: "maybe_truthy ?id \<or> maybe_truthy ?hash"
    using run False by (auto simp: persistWithdrawalEvent_def Let_def op_simps split: if_splits)
  from run False linked obtain r w t rows where f: "findOne TR (query_of [?w]) (tips_rows s) = Inr (Some r)"
    and w: "normalizeWithdrawalStatus (get_prop (event_data p) ''status'') = Inr w"
    and sv: "saveRow TR now (r\<lparr>t_withdrawalStatus := Some w, t_withdrawalTransactionHash := Some h\<rparr>)
        (tips_rows s) = Inr (t, rows)"
    and s': "s' = s\<lparr>tips_rows := rows\<rparr>"
    by (auto simp: persistWithdrawalEvent_def Let_def find_tip_def op_simps write_tips_def andThen_def h
        simp del: not_None_eq split: if_splits option.splits sum.splits prod.splits)
  let ?e = "r\<lparr>t_withdrawalStatus := Some w, t_withdrawalTransactionHash := Some h\<rparr>"
  have r: "r \<in> set (tips_rows s)" "tip_matches ?w r"
    using repository.find_one_Some [OF con f] by auto
  have "links_tip p r"
    using r(2) linked maybe_option_truthy [of ?id] maybe_option_truthy [of ?hash]
    by (auto simp: links_tip_def matches_base split: if_splits)
  moreover have ok: "tips_ok (tips_rows s)" using snd by (simp add: tips_sound_def)
  moreover obtain i where i: "t_id r = Some i" using ok r by (auto simp: tips_ok_def dest: keyed_key)
  have st: "t_id ?e = Some i" "fits_decimal (t_amount ?e)" using snd r i by (auto simp: tips_sound_def)
  have "mset rows = add_mset (tip_merge r ?e) (mset (tips_rows s) - {#r#})"
    using repository.save_update [OF con, OF sv ok r(1) i st] by simp
  moreover have "tip_merge r ?e = ?e" by (simp add: tip_merge_def keep_def split: option.splits)
  ultimately show thesis using that(2) r(1) w s' by simp
qed

section \<open>Sequences of deliveries\<close>

text \<open>Any deliveries, authentic or not, in any order and at any times.\<close>

inductive deliveries :: "(tip_where, tip) repository_ops \<Rightarrow> (user_where, user) repository_ops \<Rightarrow>
    (notification_where, notification) repository_ops \<Rightarrow> (jsnum \<Rightarrow> string) \<Rightarrow> webhook_env \<Rightarrow>
    'z database_scheme \<Rightarrow> 'z database_scheme \<Rightarrow> bool"
  for TR UR NR show_num env where
  none: "deliveries TR UR NR show_num env s s"
| more: "deliveries TR UR NR show_num env s s1 \<Longrightarrow> storable_event p \<Longrightarrow>
    handleContractWebhook_route TR UR NR show_num env now p raw sig s1 = (r, s2) \<Longrightarrow>
    deliveries TR UR NR show_num env s s2"

lemma deliveries_grow:
  assumes "deliveries TR UR NR show_num env s s'" and "tips_contract TR" and "notifications_contract NR"
  shows "hashes_grow s s'"
  using assms(1)
proof induction
  case (none s)
  show ?case by (simp add: hashes_grow_same_tips)
next
  case (more s s1 p now raw sig r s2)
  have "hashes_grow s1 s2"
    using advancesD [OF notifier.handleContractWebhook_grows [OF notifyTipReceived_notifier [OF assms(3)]
      assms(2) more(2)] more(3) [unfolded handleContractWebhook_route_def]] .
  with more.IH show ?case by (auto simp: hashes_grow_def)
qed

lemma handleContractWebhook_InrE:
  assumes con: "tips_contract TR"
    and run: "handleContractWebhook TR UR notify env now p raw sig s = (Inr dup, s')"
  obtains h where "ev_transactionHash p = Some h" and "dup \<longleftrightarrow> h \<in> processed s"
    and "assertWebhookSignature (we_hmac env) (we_secret env) raw sig = Inr ()"
    and "assertEventIsFresh (we_date_parse env) now p = Inr ()"
    and "if dup then s' = s else persistEvent TR UR notify env now p s = (Inr (), s')"
proof -
  have a: "assertWebhookSignature (we_hmac env) (we_secret env) raw sig = Inr ()"
    and f: "assertEventIsFresh (we_date_parse env) now p = Inr ()"
    using run by (cases "assertWebhookSignature (we_hmac env) (we_secret env) raw sig";
        cases "assertEventIsFresh (we_date_parse env) now p"; simp add: handleContractWebhook_def op_simps)+
  let ?k = "\<lambda>d. if d then return_op True else andThen (persistEvent TR UR notify env now p) (\<lambda>_. return_op False)"
  have "andThen (isDuplicateTransaction TR (ev_transactionHash p)) ?k s = (Inr dup, s')"
    using run a f by (simp add: handleContractWebhook_def op_simps)
  then obtain b s1 where d: "isDuplicateTransaction TR (ev_transactionHash p) s = (Inr b, s1)"
    and k: "?k b s1 = (Inr dup, s')" by (rule andThen_InrE)
  obtain h where h: "ev_transactionHash p = Some h" "b \<longleftrightarrow> h \<in> processed s" "s1 = s"
    using isDuplicateTransaction_Inr [OF con d] by blast
  have "b = dup \<and> (if b then s' = s else persistEvent TR UR notify env now p s = (Inr (), s'))"
    using k h(3) by (cases b) (auto simp: op_simps elim!: andThen_InrE)
  with that h a f show thesis by simp
qed

text \<open>A delivery whose hash is recorded already writes nothing, whatever else it carries.\<close>

lemma recorded_delivery:
  assumes "tips_contract TR" and "ev_transactionHash p = Some h" and "h \<in> processed s"
    and "handleContractWebhook TR UR notify env now p raw sig s = (r, s')"
  shows "s' = s \<and> r \<noteq> Inr False"
proof (cases r)
  case (Inr dup)
  with assms show ?thesis by (auto elim!: handleContractWebhook_InrE split: if_splits)
next
  case (Inl e)
  show ?thesis
  proof (cases "isDuplicateTransaction TR (ev_transactionHash p) s")
    case (Pair b s1)
    moreover have "s1 = s" by (rule isDuplicateTransaction_state [OF Pair])
    moreover have "b = Inr True" if "b = Inr x" for x
      using isDuplicateTransaction_Inr [OF assms(1) Pair [unfolded that]] assms(2,3) that by simp
    ultimately show ?thesis
      using assms(4) Inl by (cases b) (auto simp: handleContractWebhook_def op_simps andThen_def split: sum.splits)
  qed
qed

lemma tip_event_step:
  assumes "users_contract UR" and "tips_contract TR" and "notifications_contract NR" and "storable_event p"
    and "normalizeContractEventTopic (ev_topic p) = Some TIP_EVENT"
    and "handleContractWebhook_route TR UR NR show_num env now p raw sig s = (Inr dup, s')"
  shows "\<exists>h. ev_transactionHash p = Some h \<and> (dup \<longleftrightarrow> h \<in> processed s) \<and> processed s' = insert h (processed s)
    \<and> (if dup then s' = s else \<exists>e t n c. read_tip_event (event_data p) = Inr e
        \<and> c \<in> set (users_rows s) \<and> u_walletAddress c = Some (te_receiverWallet e) \<and> u_id c = Some (t_creatorId t)
        \<and> mset (tips_rows s') = add_mset t (mset (tips_rows s))
        \<and> t_transactionHash t = Some h \<and> t_status t = COMPLETED \<and> t_withdrawalStatus t = Some W_NONE
        \<and> t_senderWallet t = te_senderWallet e \<and> t_receiverWallet t = te_receiverWallet e
        \<and> t_amount t = te_amount e \<and> t_asset t = te_asset e
        \<and> mset (notifications_rows s') = add_mset n (mset (notifications_rows s))
        \<and> n_userId n = t_creatorId t \<and> n_type n = TIP_RECEIVED
        \<and> users_rows s' = users_rows s \<and> tokens_rows s' = tokens_rows s)"
proof -
  note ntf = notifyTipReceived_notifier [OF assms(3)]
  have dec: "\<And>e. read_tip_event (event_data p) = Inr e \<Longrightarrow> fits_decimal (te_amount e)"
    using assms(4) by (simp add: storable_event_def)
  obtain h where h: "ev_transactionHash p = Some h" "dup \<longleftrightarrow> h \<in> processed s"
    and k: "if dup then s' = s else persistEvent TR UR (notifyTipReceived NR show_num now) env now p s = (Inr (), s')"
    by (rule handleContractWebhook_InrE [OF assms(2) assms(6) [unfolded handleContractWebhook_route_def]])
  show ?thesis
  proof (cases dup)
    case True
    with h k show ?thesis by auto
  next
    case False
    have "persistTipEvent TR UR (notifyTipReceived NR show_num now) (we_usdc_issuer env) now p s = (Inr (), s')"
      using k False assms(5) by (simp add: persistEvent_def)
    then obtain e c i t rows n nrows where 1: "read_tip_event (event_data p) = Inr e"
      "c \<in> set (users_rows s)" "u_walletAddress c = Some (te_receiverWallet e)" "u_id c = Some i"
      "\<exists>k. t = tip_fill k now (tip_of_event (or_null (we_usdc_issuer env)) e i (ev_transactionHash p))"
      "s' = s\<lparr>tips_rows := rows, notifications_rows := nrows\<rparr>"
      "mset rows = add_mset t (mset (tips_rows s))"
      "mset nrows = add_mset n (mset (notifications_rows s))" "n_userId n = i" "n_type n = TIP_RECEIVED"
      by (rule notifier.persistTipEvent_InrE [OF ntf assms(1,2) _ dec]) auto
    then obtain m where t: "t = tip_fill m now (tip_of_event (or_null (we_usdc_issuer env)) e i (Some h))"
      using h by auto
    have "set rows = insert t (set (tips_rows s))" using 1 by (metis set_mset_add_mset_insert set_mset_mset)
    then have "processed s' = insert h (processed s)"
      using 1 t by (auto simp: processed_def tip_fill_def tip_of_event_def)
    moreover have "t_creatorId t = i \<and> t_transactionHash t = Some h \<and> t_status t = COMPLETED
        \<and> t_withdrawalStatus t = Some W_NONE \<and> t_senderWallet t = te_senderWallet e
        \<and> t_receiverWallet t = te_receiverWallet e \<and> t_amount t = te_amount e \<and> t_asset t = te_asset e"
      using t by (simp add: tip_fill_def tip_of_event_def)
    ultimately show ?thesis
      using False h 1 by (intro exI [of _ h]) (simp, intro exI [of _ t] exI [of _ n] bexI [of _ c] exI [of _ c], simp)
  qed
qed

text \<open>
  An accepted withdrawal that changes something records its hash on the linked tip, and the hash
  that tip carried before is no longer among the recorded ones, unless it is that of a tip.
\<close>

lemma withdrawal_step:
  assumes "tips_contract TR" and "tips_sound (tips_rows s)"
    and "normalizeContractEventTopic (ev_topic p) = Some WITHDRAWAL_EVENT"
    and "handleContractWebhook_route TR UR NR show_num env now p raw sig s = (Inr dup, s')"
  obtains "s' = s" | h r w where "\<not> dup" and "ev_transactionHash p = Some h" and "h \<notin> processed s"
    and "r \<in> set (tips_rows s)" and "links_tip p r"
    and "normalizeWithdrawalStatus (get_prop (event_data p) ''status'') = Inr w"
    and "mset (tips_rows s') = add_mset (r\<lparr>t_withdrawalStatus := Some w, t_withdrawalTransactionHash := Some h\<rparr>)
      (mset (tips_rows s) - {#r#})"
    and "s' = s\<lparr>tips_rows := tips_rows s'\<rparr>"
proof -
  obtain h where h: "ev_transactionHash p = Some h" "dup \<longleftrightarrow> h \<in> processed s"
    and k: "if dup then s' = s else persistEvent TR UR (notifyTipReceived NR show_num now) env now p s = (Inr (), s')"
    by (rule handleContractWebhook_InrE [OF assms(1) assms(4) [unfolded handleContractWebhook_route_def]])
  show thesis
  proof (cases dup)
    case True
    with k that(1) show thesis by simp
  next
    case False
    have run: "persistWithdrawalEvent TR now p s = (Inr (), s')"
      using k False assms(3) by (simp add: persistEvent_def WITHDRAWAL_EVENT_def TIP_EVENT_def)
    show thesis
      by (rule persistWithdrawalEvent_InrE [OF assms(1,2) h(1) run]) (use that False h in auto)
  qed
qed

lemma processed_after_withdrawal:
  assumes "tips_ok (tips_rows s)" and r: "r \<in> set (tips_rows s)"
    and m: "mset (tips_rows s') = add_mset (r\<lparr>t_withdrawalStatus := w, t_withdrawalTransactionHash := Some h\<rparr>)
      (mset (tips_rows s) - {#r#})"
  shows "processed s' = insert h {x \<in> processed s. t_withdrawalTransactionHash r \<noteq> Some x \<or> x \<in> tip_hashes s}"
proof -
  let ?M = "mset (tips_rows s) - {#r#}"
  have set': "set (tips_rows s') = insert (r\<lparr>t_withdrawalStatus := w, t_withdrawalTransactionHash := Some h\<rparr>) (set_mset ?M)"
    using m by (metis set_mset_add_mset_insert set_mset_mset)
  have set: "set (tips_rows s) = insert r (set_mset ?M)"
    using r by (metis insert_DiffM set_mset_add_mset_insert set_mset_mset in_multiset_in_set)
  have dist: "distinct (tips_rows s)" using assms(1) by (auto simp: tips_ok_def dest: keyed_distinct)
  then have rest: "y \<noteq> r" if "y \<in># ?M" for y
    using that set_remove1_eq [OF dist, of r] by (auto simp flip: mset_remove1)
  have uniq: "t_withdrawalTransactionHash y \<noteq> Some x" if "y \<in># ?M" "t_withdrawalTransactionHash r = Some x" for x y
    using unique_colD [of t_withdrawalTransactionHash "tips_rows s" y r x] assms(1) that rest [OF that(1)] set
    by (auto simp: tips_ok_def)
  show ?thesis
    unfolding processed_def tip_hashes_def set' set using uniq by auto
qed

lemma withdrawal_grows:
  assumes "tips_contract TR" and "normalizeContractEventTopic (ev_topic p) = Some WITHDRAWAL_EVENT"
    and "handleContractWebhook_route TR UR NR show_num env now p raw sig s = (r, s')"
  shows "hashes_grow s s'"
proof -
  have "advances hashes_grow (handleContractWebhook TR UR (notifyTipReceived NR show_num now) env now p raw sig)"
    unfolding handleContractWebhook_def isDuplicateTransaction_def find_tip_def persistEvent_def assms(2) option.case
    by (simp only: WITHDRAWAL_EVENT_def TIP_EVENT_def list.inject char.inject simp_thms if_False if_True)
      (intro advances_intros preorder_hashes_grow persistWithdrawalEvent_grows [OF assms(1)])
  from advancesD [OF this assms(3) [unfolded handleContractWebhook_route_def]] show ?thesis .
qed

section \<open>Sample events\<close>

definition sample_webhook :: webhook_env where
  "sample_webhook = \<lparr>we_hmac = (\<lambda>k b. k @ b), we_secret = Some ''k'', we_usdc_issuer = None,
     we_date_parse = (\<lambda>_. Some 0)\<rparr>"

definition sample_event :: "string \<Rightarrow> string \<Rightarrow> (string \<times> jsval) list \<Rightarrow> event_payload" where
  "sample_event topic h d = \<lparr>ev_topic = Topic topic, ev_transactionHash = Some h, ev_timestamp = Some '''',
     ev_data = Some (JObject d)\<rparr>"

definition sample_tip_event :: event_payload where
  "sample_tip_event = sample_event ''tip'' ''h7'' [(''receiverWallet'', JString ''GR''),
     (''senderWallet'', JString ''GS''), (''amount'', JNumber (Fin 3))]"

definition sample_withdrawal :: "string \<Rightarrow> string \<Rightarrow> event_payload" where
  "sample_withdrawal h st = sample_event ''withdrawal'' h [(''tipId'', JString ''1''), (''status'', JString st)]"

lemma sample_topics:
  "normalizeContractEventTopic (ev_topic sample_tip_event) = Some TIP_EVENT"
  "normalizeContractEventTopic (ev_topic (sample_withdrawal h st)) = Some WITHDRAWAL_EVENT"
  by (simp_all add: sample_tip_event_def sample_withdrawal_def sample_event_def TIP_EVENT_def WITHDRAWAL_EVENT_def)

lemma sample_fields:
  "ev_transactionHash sample_tip_event = Some ''h7''" "ev_timestamp sample_tip_event = Some ''''"
  "ev_transactionHash (sample_withdrawal h st) = Some h" "ev_timestamp (sample_withdrawal h st) = Some ''''"
  "get_prop (event_data (sample_withdrawal h st)) ''tipId'' = JString ''1''"
  "get_prop (event_data (sample_withdrawal h st)) ''tipTransactionHash'' = JUndefined"
  "get_prop (event_data (sample_withdrawal h st)) ''status'' = JString st"
  by (simp_all add: sample_tip_event_def sample_withdrawal_def sample_event_def event_data_def)

lemma sample_strings:
  "readOptionalString (JString ''1'') = Val ''1''" "readOptionalString JUndefined = Null"
  "normalizeWithdrawalStatus (JString ''pending'') = Inr W_PENDING"
  "normalizeWithdrawalStatus (JString ''completed'') = Inr W_COMPLETED"
  by code_simp+

lemma sample_read:
  "read_tip_event (event_data sample_tip_event) = Inr \<lparr>te_receiverWallet = ''GR'', te_senderWallet = ''GS'',
     te_asset = XLM, te_amount = 3, te_message = Null, te_assetIssuer = Null\<rparr>"
  by (simp add: read_tip_event_def sample_tip_event_def sample_event_def event_data_def readString_def
      normalizeAsset_def readOptionalString_def readAmount_def trim_def trim_end_def trim_start_def is_space_def char_code_def)

lemma sample_storable: "storable_event sample_tip_event"
  by (simp add: storable_event_def sample_read fits_decimal_def)

lemma sample_sound: "tips_sound (tips_rows creator_db)"
  by (simp add: tips_sound_def tip_eval fits_decimal_def)

lemmas webhook_eval = handleContractWebhook_route_def handleContractWebhook_def assertWebhookSignature_def
  assertEventIsFresh_def MAX_EVENT_AGE_MS_def isDuplicateTransaction_def persistEvent_def find_tip_def
  sample_topics sample_fields sample_strings persistTipEvent_def persistWithdrawalEvent_def sample_webhook_def notifyTipReceived_def
  createNotification_def TIP_EVENT_def WITHDRAWAL_EVENT_def

lemma sample_accepted:
  "\<exists>s'. handleContractWebhook_route tips_table users_table notifications_table (\<lambda>_. ''3'') sample_webhook 5
     sample_tip_event (Some ''b'') (Some ''kb'') creator_db = (Inr False, s')"
  by (simp add: webhook_eval sample_read tip_of_event_def tip_eval andThen_assoc)
    (simp add: andThen_def return_op_def empty_database_def)

lemma sample_withdrawn:
  "handleContractWebhook_route tips_table users_table notifications_table (\<lambda>_. ''3'') sample_webhook 5
     (sample_withdrawal ''w1'' ''pending'') (Some ''b'') (Some ''kb'') creator_db
   = (Inr False, creator_db\<lparr>tips_rows := [sample_tip ''1'' 10 5\<lparr>t_withdrawalStatus := Some W_PENDING,
       t_withdrawalTransactionHash := Some ''w1''\<rparr>]\<rparr>)"
  "handleContractWebhook_route tips_table users_table notifications_table (\<lambda>_. ''3'') sample_webhook 6
     (sample_withdrawal ''w2'' ''completed'') (Some ''b'') (Some ''kb'')
     (creator_db\<lparr>tips_rows := [sample_tip ''1'' 10 5\<lparr>t_withdrawalStatus := Some W_PENDING,
       t_withdrawalTransactionHash := Some ''w1''\<rparr>]\<rparr>)
   = (Inr False, creator_db\<lparr>tips_rows := [sample_tip ''1'' 10 5\<lparr>t_withdrawalStatus := Some W_COMPLETED,
       t_withdrawalTransactionHash := Some ''w2''\<rparr>]\<rparr>)"
  "handleContractWebhook_route tips_table users_table notifications_table (\<lambda>_. ''3'') sample_webhook 7
     (sample_withdrawal ''w1'' ''pending'') (Some ''b'') (Some ''kb'')
     (creator_db\<lparr>tips_rows := [sample_tip ''1'' 10 5\<lparr>t_withdrawalStatus := Some W_COMPLETED,
       t_withdrawalTransactionHash := Some ''w2''\<rparr>]\<rparr>)
   = (Inr False, creator_db\<lparr>tips_rows := [sample_tip ''1'' 10 5\<lparr>t_withdrawalStatus := Some W_PENDING,
       t_withdrawalTransactionHash := Some ''w1''\<rparr>]\<rparr>)"
  by (simp_all add: webhook_eval tip_eval andThen_assoc keep_def)

section \<open>Properties\<close>

text \<open>
  C4. Accepting a tip event refines one step of the set of recorded transactions: the answer says
  whether the hash was in the set, the set then contains it, and the tables change exactly when it
  was new, by one completed tip with the event's fields and one unread notification of its creator.
\<close>

theorem tip_event_refines_set:
  assumes "users_contract UR" and "tips_contract TR" and "notifications_contract NR" and "storable_event p"
    and "normalizeContractEventTopic (ev_topic p) = Some TIP_EVENT"
    and "handleContractWebhook_route TR UR NR show_num env now p raw sig s = (Inr dup, s')"
  shows "\<exists>h. ev_transactionHash p = Some h \<and> (dup \<longleftrightarrow> h \<in> processed s) \<and> processed s' = insert h (processed s)
    \<and> (if dup then s' = s else \<exists>e t n c. read_tip_event (event_data p) = Inr e
        \<and> c \<in> set (users_rows s) \<and> u_walletAddress c = Some (te_receiverWallet e) \<and> u_id c = Some (t_creatorId t)
        \<and> mset (tips_rows s') = add_mset t (mset (tips_rows s))
        \<and> t_transactionHash t = Some h \<and> t_status t = COMPLETED \<and> t_withdrawalStatus t = Some W_NONE
        \<and> t_senderWallet t = te_senderWallet e \<and> t_receiverWallet t = te_receiverWallet e
        \<and> t_amount t = te_amount e \<and> t_asset t = te_asset e
        \<and> mset (notifications_rows s') = add_mset n (mset (notifications_rows s))
        \<and> n_userId n = t_creatorId t \<and> n_type n = TIP_RECEIVED
        \<and> users_rows s' = users_rows s \<and> tokens_rows s' = tokens_rows s)"
  by (rule tip_event_step [OF assms])

lemma tip_event_refines_set_witness:
  "\<exists>s'. handleContractWebhook_route tips_table users_table notifications_table (\<lambda>_. ''3'') sample_webhook 5
     sample_tip_event (Some ''b'') (Some ''kb'') creator_db = (Inr False, s')
   \<and> processed s' = insert ''h7'' (processed creator_db)"
  using sample_accepted tip_event_refines_set [OF users_tbl.repository_axioms tips_tbl.repository_axioms
      notifications_tbl.repository_axioms sample_storable sample_topics(1)] sample_fields(1)
  by fastforce

text \<open>
  C5. A tip event is recorded exactly once: after its acceptance, and after any further deliveries,
  exactly one tip carries its hash, and a delivery of that hash is never accepted as new and
  changes nothing, whatever its topic, content, signature or time.
\<close>

theorem tip_event_exactly_once:
  assumes "users_contract UR" and "tips_contract TR" and "notifications_contract NR" and "storable_event p"
    and "normalizeContractEventTopic (ev_topic p) = Some TIP_EVENT" and "tips_sound (tips_rows s)"
    and "handleContractWebhook_route TR UR NR show_num env now p raw sig s = (Inr False, s1)"
    and "deliveries TR UR NR show_num env s1 s2"
    and "ev_transactionHash p' = ev_transactionHash p"
    and "handleContractWebhook_route TR UR NR show_num env now' p' raw' sig' s2 = (r, s3)"
  shows "length (filter (\<lambda>t. t_transactionHash t = ev_transactionHash p) (tips_rows s2)) = 1
    \<and> s3 = s2 \<and> r \<noteq> Inr False"
proof -
  obtain h e t c n where h: "ev_transactionHash p = Some h"
    and t: "mset (tips_rows s1) = add_mset t (mset (tips_rows s))" "t_transactionHash t = Some h"
    using tip_event_step [OF assms(1-5,7)] by auto
  have "tips_sound (tips_rows s1)"
    using deliveries_grow [OF deliveries.more [OF deliveries.none assms(4,7)] assms(2,3)] assms(6)
    by (simp add: hashes_grow_def)
  then have snd: "tips_sound (tips_rows s2)" and sub: "tip_hashes s1 \<subseteq> tip_hashes s2"
    using deliveries_grow [OF assms(8,2,3)] by (auto simp: hashes_grow_def)
  have "t \<in> set (tips_rows s1)" using t(1) by (metis union_single_eq_member set_mset_mset)
  then have in2: "h \<in> tip_hashes s2" using sub t(2) by (auto simp: tip_hashes_def)
  have "length (filter (\<lambda>t. t_transactionHash t = Some h) (tips_rows s2)) \<le> 1"
    using snd by (intro unique_col_le_one) (simp add: tips_sound_def tips_ok_def)
  moreover have "filter (\<lambda>t. t_transactionHash t = Some h) (tips_rows s2) \<noteq> []"
    using in2 by (auto simp: tip_hashes_def filter_empty_conv)
  ultimately have "length (filter (\<lambda>t. t_transactionHash t = Some h) (tips_rows s2)) = 1"
    by (simp add: le_Suc_eq)
  moreover have "h \<in> processed s2" using in2 by (auto simp: tip_hashes_def processed_def)
  then have "s3 = s2 \<and> r \<noteq> Inr False"
    using recorded_delivery [OF assms(2) _ _ assms(10) [unfolded handleContractWebhook_route_def]] h assms(9)
    by simp
  ultimately show ?thesis using h by simp
qed

lemma tip_event_exactly_once_witness:
  "\<exists>s1 r. handleContractWebhook_route tips_table users_table notifications_table (\<lambda>_. ''3'') sample_webhook 5
     sample_tip_event (Some ''b'') (Some ''kb'') creator_db = (Inr False, s1)
   \<and> handleContractWebhook_route tips_table users_table notifications_table (\<lambda>_. ''3'') sample_webhook 9
       sample_tip_event (Some ''b'') (Some ''kb'') s1 = (r, s1)
   \<and> length (filter (\<lambda>t. t_transactionHash t = Some ''h7'') (tips_rows s1)) = 1"
proof -
  obtain s1 where r1: "handleContractWebhook_route tips_table users_table notifications_table (\<lambda>_. ''3'') sample_webhook 5
     sample_tip_event (Some ''b'') (Some ''kb'') creator_db = (Inr False, s1)"
    using sample_accepted by blast
  obtain r s3 where r2: "handleContractWebhook_route tips_table users_table notifications_table (\<lambda>_. ''3'') sample_webhook 9
     sample_tip_event (Some ''b'') (Some ''kb'') s1 = (r, s3)"
    by fastforce
  show ?thesis
    using tip_event_exactly_once [OF users_tbl.repository_axioms tips_tbl.repository_axioms
      notifications_tbl.repository_axioms sample_storable sample_topics(1) sample_sound r1 deliveries.none refl r2]
      r1 r2 sample_fields(1) by auto
qed

text \<open>
  C9. Only deliveries signed with the configured secret over the raw body, whose time is at most five
  minutes away from the clock, get through to the database: a delivery that is not signed is
  answered with 401, and one that is not fresh with an error, and neither changes anything.
\<close>

definition authentic :: "webhook_env \<Rightarrow> string option \<Rightarrow> string option \<Rightarrow> bool" where
  "authentic env raw sig \<longleftrightarrow> truthy (we_secret env) \<and> truthy raw \<and> truthy sig
     \<and> sig = Some (we_hmac env (the (we_secret env)) (the raw))"

definition fresh_event :: "webhook_env \<Rightarrow> int \<Rightarrow> event_payload \<Rightarrow> bool" where
  "fresh_event env now p \<longleftrightarrow>
     (case Option.bind (ev_timestamp p) (we_date_parse env) of None \<Rightarrow> False | Some t \<Rightarrow> \<bar>now - t\<bar> \<le> 300000)"

theorem webhook_refuses_unauthentic:
  "(\<not> authentic env raw sig \<longrightarrow>
      (\<exists>m. handleContractWebhook_route TR UR NR show_num env now p raw sig s = (Inl (Unauthorized m), s)))
   \<and> (\<not> fresh_event env now p \<longrightarrow>
      (\<exists>e. handleContractWebhook_route TR UR NR show_num env now p raw sig s = (Inl e, s)))"
proof -
  have a: "assertWebhookSignature (we_hmac env) (we_secret env) raw sig
      = (if authentic env raw sig then Inr ()
         else Inl (Unauthorized (if truthy (we_secret env) then ''Invalid webhook signature''
           else ''Webhook secret is not configured'')))"
    by (auto simp: assertWebhookSignature_def authentic_def or_null_def Let_def split: if_splits elim!: truthyE)
  have f: "assertEventIsFresh (we_date_parse env) now p = Inr () \<longleftrightarrow> fresh_event env now p"
    by (auto simp: assertEventIsFresh_def fresh_event_def MAX_EVENT_AGE_MS_def split: option.splits)
  show ?thesis
    using a f by (cases "assertEventIsFresh (we_date_parse env) now p")
      (auto simp: handleContractWebhook_route_def handleContractWebhook_def op_simps)
qed

lemma webhook_refuses_unauthentic_witness:
  "\<exists>m. handleContractWebhook_route tips_table users_table notifications_table (\<lambda>_. ''3'') sample_webhook 5
     sample_tip_event (Some ''b'') (Some ''xb'') creator_db = (Inl (Unauthorized m), creator_db)"
  by (rule webhook_refuses_unauthentic [THEN conjunct1, rule_format]) (simp add: authentic_def sample_webhook_def)



text \<open>
  C36. Only the last withdrawal of a tip is remembered: once a second withdrawal event has rewritten
  the tip, the hash of the first is not a duplicate any more, and its repeated delivery is accepted
  as new within the five minutes it stays fresh.
\<close>

theorem withdrawal_replay_accepted:
  assumes "tips_contract TR" and "tips_sound (tips_rows s)"
    and "normalizeContractEventTopic (ev_topic p) = Some WITHDRAWAL_EVENT"
    and "normalizeContractEventTopic (ev_topic p') = Some WITHDRAWAL_EVENT"
    and "handleContractWebhook_route TR UR NR show_num env now p raw sig s = (Inr dup, s1)"
    and "handleContractWebhook_route TR UR NR show_num env now' p' raw' sig' s1 = (Inr dup', s2)"
    and "s1 \<noteq> s" and "s2 \<noteq> s1"
    and "\<forall>r\<in>set (tips_rows s1). links_tip p' r \<longrightarrow> t_withdrawalTransactionHash r = ev_transactionHash p"
    and "handleContractWebhook_route TR UR NR show_num env now'' p raw sig s2 = (Inr again, s3)"
  shows "\<not> again"
proof (rule withdrawal_step [OF assms(1-3,5)], goal_cases)
  case 1
  with assms(7) show ?case by simp
next
  case (2 h r w)
  have hashes: "h \<notin> tip_hashes s1"
  proof -
    have "set (tips_rows s1) = insert (r\<lparr>t_withdrawalStatus := Some w, t_withdrawalTransactionHash := Some h\<rparr>)
        (set_mset (mset (tips_rows s) - {#r#}))"
      using 2(7) by (metis set_mset_add_mset_insert set_mset_mset)
    then have "tip_hashes s1 \<subseteq> tip_hashes s" using 2(4) by (fastforce simp: tip_hashes_def dest: in_diffD)
    then show ?thesis using 2(3) by (auto simp: tip_hashes_def processed_def)
  qed
  have s1: "tips_sound (tips_rows s1)"
    using withdrawal_grows [OF assms(1,3,5)] assms(2)
    by (simp add: hashes_grow_def)
  show ?case
  proof (rule withdrawal_step [OF assms(1) s1 assms(4,6)], goal_cases)
    case 1
    with assms(8) show ?case by simp
  next
    case A: (2 h' r' w')
    have "h \<notin> processed s2"
    proof -
      have "t_withdrawalTransactionHash r' = Some h" using A(4,5) assms(9) 2(2) by simp
      moreover have "h' \<noteq> h" using A(3,4) calculation by (auto simp: processed_def)
      ultimately show ?thesis
        using processed_after_withdrawal [OF _ A(4,7)] s1 hashes by (auto simp: tips_sound_def)
    qed
    then show ?case
      by (rule contrapos_nn)
        (rule handleContractWebhook_InrE [OF assms(1) assms(10) [unfolded handleContractWebhook_route_def]],
          simp add: 2(2))
  qed
qed

lemma withdrawal_replay_accepted_witness:
  "\<exists>s3. handleContractWebhook_route tips_table users_table notifications_table (\<lambda>_. ''3'') sample_webhook 7
     (sample_withdrawal ''w1'' ''pending'') (Some ''b'') (Some ''kb'')
     (creator_db\<lparr>tips_rows := [sample_tip ''1'' 10 5\<lparr>t_withdrawalStatus := Some W_COMPLETED,
       t_withdrawalTransactionHash := Some ''w2''\<rparr>]\<rparr>) = (Inr False, s3)
   \<and> map t_withdrawalStatus (tips_rows s3) = [Some W_PENDING]"
proof -
  have "\<not> False"
    by (rule withdrawal_replay_accepted [OF tips_tbl.repository_axioms sample_sound sample_topics(2) sample_topics(2)
        sample_withdrawn(1,2) _ _ _ sample_withdrawn(3)])
      (simp_all add: creator_db_def sample_tip_def sample_fields empty_database_def)
  then show ?thesis using sample_withdrawn(3) by simp
qed

text \<open>
  The withdrawal statuses that are understood: the strings \<open>pending\<close>, \<open>failed\<close> and
  \<open>completed\<close>, in any case and with spaces around them. An absent status is refused, although the
  \<open>switch\<close> has a branch that means to read it as completed.
\<close>

theorem withdrawal_status_exact:
  "normalizeWithdrawalStatus v = Inr w \<longleftrightarrow>
     w \<noteq> W_NONE \<and> (\<exists>s. v = JString s \<and> toLowerCase (trim s) = withdrawal_status_value w)"
  by (cases v; cases w) (auto simp: normalizeWithdrawalStatus_def readOptionalString_def
      toLowerCase_def Let_def split: if_splits)

text \<open>
  C37. Two deliveries of one tip event that both pass the duplicate check before either is stored:
  when one has been stored, the other fails on the unique column and adds neither tip nor notification.
\<close>

theorem webhook_race_one_tip:
  assumes "users_contract UR" and "tips_contract TR" and "notifications_contract NR"
    and "storable_event p" and "tips_ok (tips_rows s)"
    and "isDuplicateTransaction TR (ev_transactionHash p) s = (Inr False, s)"
    and "persistTipEvent TR UR (notifyTipReceived NR show_num now) usdc now p s = (Inr (), s1)"
  shows "\<exists>e. persistTipEvent TR UR (notifyTipReceived NR show_num now') usdc now' p s1 = (Inl e, s1)"
proof -
  note ntf = notifyTipReceived_notifier [OF assms(3)]
  have dec: "\<And>e. read_tip_event (event_data p) = Inr e \<Longrightarrow> fits_decimal (te_amount e)"
    using assms(4) by (simp add: storable_event_def)
  obtain h where h: "ev_transactionHash p = Some h"
    using isDuplicateTransaction_Inr [OF assms(2,6)] by blast
  show ?thesis
  proof (rule notifier.persistTipEvent_InrE [OF ntf assms(1,2,7) dec], assumption, goal_cases)
    case (1 e c i t rows n nrows)
    have "t \<in> set (tips_rows s1)" using 1(6,7) by (simp flip: set_mset_mset)
    moreover have "t_transactionHash t = Some h" using 1(5) h by (auto simp: tip_fill_def tip_of_event_def)
    moreover have "tips_ok (tips_rows s1)" using 1(6,11) assms(5) by simp
    ultimately show ?case
      using notifier.persistTipEvent_taken [OF ntf assms(1,2) _ h _ _ dec] by blast
  qed
qed

lemma webhook_race_one_tip_witness:
  "\<exists>s1 e. persistTipEvent tips_table users_table (notifyTipReceived notifications_table (\<lambda>_. ''3'') 5) None 5
       sample_tip_event creator_db = (Inr (), s1)
     \<and> persistTipEvent tips_table users_table (notifyTipReceived notifications_table (\<lambda>_. ''3'') 6) None 6
       sample_tip_event s1 = (Inl e, s1)"
proof -
  have d: "isDuplicateTransaction tips_table (ev_transactionHash sample_tip_event) creator_db = (Inr False, creator_db)"
    by (simp add: isDuplicateTransaction_def sample_fields find_tip_def tip_eval)
  obtain s1 where p: "persistTipEvent tips_table users_table (notifyTipReceived notifications_table (\<lambda>_. ''3'') 5) None 5
       sample_tip_event creator_db = (Inr (), s1)"
    using sample_accepted d by (auto simp: handleContractWebhook_route_def handleContractWebhook_def persistEvent_def
        sample_topics sample_webhook_def op_simps split: sum.splits elim!: andThen_InrE)
  have "tips_ok (tips_rows creator_db)" using sample_sound by (simp add: tips_sound_def)
  from webhook_race_one_tip [OF users_tbl.repository_axioms tips_tbl.repository_axioms
      notifications_tbl.repository_axioms sample_storable this d p] p
  show ?thesis by blast
qed

end
