(* ===== verification/Statistics.thy ===== *)
theory Statistics
  imports Database
begin

text \<open>
  The aggregate queries the services build with TypeORM's query builder: count, sum, average and
  maximum over the completed tips a condition selects, in one group or grouped by sender, asset,
  day or issuer. The driver returns numbers as text. The queries are a parameter of the services,
  the record \<open>tip_queries\<close>; the locale \<open>tip_statistics\<close> states what SQL documents of them, and
  \<open>stats_table\<close> computes them from the rows.
\<close>

section \<open>Conditions\<close>

text \<open>
  The conditions joined with \<open>andWhere\<close>. A comparison with a null parameter selects nothing; an
  invalid \<open>Date\<close> is \<open>Some None\<close>. The status is \<open>COMPLETED\<close> in all of the queries.
\<close>

record tip_stats_where =
  sw_creatorId :: "string option"
  sw_wallet :: "string option option"
  sw_from :: "int option option"
  sw_asset :: "string option"
  sw_named :: bool

definition any_stats :: tip_stats_where where
  "any_stats = \<lparr>sw_creatorId = None, sw_wallet = None, sw_from = None, sw_asset = None, sw_named = False\<rparr>"

definition stats_match :: "tip_stats_where \<Rightarrow> tip \<Rightarrow> bool" where
  "stats_match w t \<longleftrightarrow> t_status t = COMPLETED
     \<and> (case sw_creatorId w of None \<Rightarrow> True | Some c \<Rightarrow> t_creatorId t = c)
     \<and> (case sw_wallet w of None \<Rightarrow> True | Some None \<Rightarrow> False | Some (Some a) \<Rightarrow> t_receiverWallet t = a)
     \<and> (case sw_from w of None \<Rightarrow> True | Some None \<Rightarrow> False
        | Some (Some d) \<Rightarrow> (case t_createdAt t of None \<Rightarrow> False | Some c \<Rightarrow> d \<le> c))
     \<and> (case sw_asset w of None \<Rightarrow> True | Some a \<Rightarrow> asset_value (t_asset t) = a)
     \<and> (sw_named w \<longrightarrow> t_senderWallet t \<noteq> '''')"

section \<open>Raw results\<close>

record raw_sums =
  rw_count :: string
  rw_total :: string
  rw_average :: string
  rw_largest :: string

record 'k raw_group =
  rg_key :: 'k
  rg_total :: string
  rg_count :: string
  rg_last :: "int option"

record tip_queries =
  q_sums :: "tip_stats_where \<Rightarrow> tip list \<Rightarrow> string + raw_sums"
  q_by_sender :: "tip_stats_where \<Rightarrow> nat \<Rightarrow> tip list \<Rightarrow> string + string raw_group list"
  q_by_asset :: "tip_stats_where \<Rightarrow> tip list \<Rightarrow> string + string raw_group list"
  q_by_day :: "tip_stats_where \<Rightarrow> tip list \<Rightarrow> string + (int \<times> string) raw_group list"
  q_by_issuer :: "tip_stats_where \<Rightarrow> tip list \<Rightarrow> string + (string \<times> string option) raw_group list"

text \<open>\<open>DATE_TRUNC('day', tip.createdAt)\<close>\<close>

definition day_of :: "tip \<Rightarrow> int" where
  "day_of t = (case t_createdAt t of None \<Rightarrow> 0 | Some d \<Rightarrow> d - d mod 86400000)"

section \<open>Counts and sums\<close>

definition tally :: "(tip \<Rightarrow> bool) \<Rightarrow> tip list \<Rightarrow> nat" where
  "tally sel rows = length (filter sel rows)"

definition total_amount :: "(tip \<Rightarrow> bool) \<Rightarrow> tip list \<Rightarrow> rat" where
  "total_amount sel rows = sum_list (map t_amount (filter sel rows))"

definition average_amount :: "(tip \<Rightarrow> bool) \<Rightarrow> tip list \<Rightarrow> rat" where
  "average_amount sel rows = (if tally sel rows = 0 then 0 else total_amount sel rows / of_nat (tally sel rows))"

definition largest_amount :: "(tip \<Rightarrow> bool) \<Rightarrow> tip list \<Rightarrow> rat" where
  "largest_amount sel rows = (case map t_amount (filter sel rows) of [] \<Rightarrow> 0 | a # as \<Rightarrow> foldl max a as)"

text \<open>Tables of a size for which counts and sums are read back exactly.\<close>

definition summable_rows :: "tip list \<Rightarrow> bool" where
  "summable_rows rows \<longleftrightarrow> length rows \<le> 10 ^ 12 \<and> (\<forall>t\<in>set rows. fits_decimal (t_amount t))"

definition group_of :: "(tip \<Rightarrow> 'k) \<Rightarrow> (tip \<Rightarrow> bool) \<Rightarrow> tip list \<Rightarrow> 'k raw_group \<Rightarrow> bool" where
  "group_of key sel rows g \<longleftrightarrow>
     parseFloat (rg_total g) = Fin (total_amount (\<lambda>t. sel t \<and> key t = rg_key g) rows)
     \<and> parseInt (rg_count g) = Fin (of_nat (tally (\<lambda>t. sel t \<and> key t = rg_key g) rows))
     \<and> rg_last g \<in> t_createdAt ` {t \<in> set rows. sel t \<and> key t = rg_key g}
     \<and> (\<forall>t\<in>set rows. sel t \<and> key t = rg_key g \<longrightarrow> t_createdAt t \<le> rg_last g)"

definition groups_of :: "(tip \<Rightarrow> 'k) \<Rightarrow> (tip \<Rightarrow> bool) \<Rightarrow> tip list \<Rightarrow> 'k raw_group list \<Rightarrow> bool" where
  "groups_of key sel rows gs \<longleftrightarrow> distinct (map rg_key gs)
     \<and> rg_key ` set gs = key ` {t \<in> set rows. sel t} \<and> (\<forall>g\<in>set gs. group_of key sel rows g)"

definition asset_key :: "tip \<Rightarrow> string" where
  "asset_key t = asset_value (t_asset t)"

definition day_key :: "tip \<Rightarrow> int \<times> string" where
  "day_key t = (day_of t, asset_key t)"

definition issuer_key :: "tip \<Rightarrow> string \<times> string option" where
  "issuer_key t = (asset_key t, t_assetIssuer t)"

locale tip_statistics =
  fixes Q :: tip_queries
  assumes sums: "q_sums Q w rows = Inr r \<Longrightarrow> summable_rows rows \<Longrightarrow>
      parseInt (rw_count r) = Fin (of_nat (tally (stats_match w) rows))
      \<and> parseFloat (rw_total r) = Fin (total_amount (stats_match w) rows)
      \<and> (\<exists>a. parseFloat (rw_average r) = Fin a \<and> \<bar>a - average_amount (stats_match w) rows\<bar> < 1 / 10 ^ 16)
      \<and> parseFloat (rw_largest r) = Fin (largest_amount (stats_match w) rows)"
    and by_sender: "q_by_sender Q w n rows = Inr gs \<Longrightarrow> summable_rows rows \<Longrightarrow>
      \<exists>all. groups_of t_senderWallet (stats_match w) rows all \<and> gs = take n all
        \<and> sorted_wrt (\<lambda>g h. total_amount (\<lambda>t. stats_match w t \<and> t_senderWallet t = rg_key h) rows
            \<le> total_amount (\<lambda>t. stats_match w t \<and> t_senderWallet t = rg_key g) rows) all"
    and by_asset: "q_by_asset Q w rows = Inr gs \<Longrightarrow> summable_rows rows \<Longrightarrow>
      groups_of asset_key (stats_match w) rows gs"
    and by_day: "q_by_day Q w rows = Inr ds \<Longrightarrow> summable_rows rows \<Longrightarrow>
      groups_of day_key (stats_match w) rows ds \<and> sorted (map (\<lambda>g. fst (rg_key g)) ds)"
    and by_issuer: "q_by_issuer Q w rows = Inr is \<Longrightarrow> summable_rows rows \<Longrightarrow>
      groups_of issuer_key (stats_match w) rows is"

section \<open>Sums over groups\<close>

lemma tally_mset: "mset rows = mset rows' \<Longrightarrow> tally sel rows = tally sel rows'"
  unfolding tally_def by (metis mset_filter size_mset)

lemma total_amount_Cons [simp]:
  "total_amount sel [] = 0" "total_amount sel (t # ts) = (if sel t then t_amount t else 0) + total_amount sel ts"
  by (simp_all add: total_amount_def)

lemma tally_Cons [simp]:
  "tally sel [] = 0" "tally sel (t # ts) = (if sel t then 1 else 0) + tally sel ts"
  by (simp_all add: tally_def)

text \<open>The groups of a partition sum up to the whole.\<close>

lemma total_by_key:
  assumes "distinct ks" and "key ` {t \<in> set rows. sel t} \<subseteq> set ks"
  shows "(\<Sum>k\<leftarrow>ks. total_amount (\<lambda>t. sel t \<and> key t = k) rows) = total_amount sel rows"
  using assms(2)
proof (induction rows)
  case Nil
  show ?case by simp
next
  case (Cons t ts)
  have one: "(\<Sum>k\<leftarrow>ks. if key t = k then t_amount t else 0) = (if key t \<in> set ks then t_amount t else 0)"
    using assms(1) by (induction ks) auto
  show ?case
  proof (cases "sel t")
    case True
    with Cons.prems have "key t \<in> set ks" by auto
    with True one Cons show ?thesis by (auto simp: sum_list_addf)
  next
    case False
    with Cons show ?thesis by auto
  qed
qed

lemma tally_by_key:
  assumes "distinct ks" and "key ` {t \<in> set rows. sel t} \<subseteq> set ks"
  shows "(\<Sum>k\<leftarrow>ks. tally (\<lambda>t. sel t \<and> key t = k) rows) = tally sel rows"
  using assms(2)
proof (induction rows)
  case Nil
  show ?case by simp
next
  case (Cons t ts)
  have one: "(\<Sum>k\<leftarrow>ks. if key t = k then 1 else 0) = (if key t \<in> set ks then 1 else (0::nat))"
    using assms(1) by (induction ks) auto
  show ?case
  proof (cases "sel t")
    case True
    with Cons.prems have "key t \<in> set ks" by auto
    with True one Cons show ?thesis by (auto simp: sum_list_addf)
  next
    case False
    with Cons show ?thesis by auto
  qed
qed

text \<open>Counts and sums of summable rows are small enough to be read back.\<close>

lemma total_amount_integral:
  "\<forall>t\<in>set rows. fits_decimal (t_amount t) \<Longrightarrow>
   of_int \<lfloor>total_amount sel rows * 10 ^ 7\<rfloor> = total_amount sel rows * 10 ^ 7"
proof (induction rows)
  case Nil
  show ?case by simp
next
  case (Cons t ts)
  have "t_amount t * 10 ^ 7 \<in> \<int>" "total_amount sel ts * 10 ^ 7 \<in> \<int>"
    using Cons by (metis Ints_of_int fits_decimal_def list.set_intros(1,2))+
  then have "total_amount sel (t # ts) * 10 ^ 7 \<in> \<int>" by (simp add: distrib_right)
  then show ?case by (metis floor_of_int Ints_cases)
qed

lemma total_amount_bound:
  "\<forall>t\<in>set rows. fits_decimal (t_amount t) \<Longrightarrow> \<bar>total_amount sel rows\<bar> \<le> of_nat (tally sel rows) * 10 ^ 13"
proof (induction rows)
  case Nil
  show ?case by simp
next
  case (Cons t ts)
  then have "\<bar>t_amount t\<bar> \<le> 10 ^ 13" "\<bar>total_amount sel ts\<bar> \<le> of_nat (tally sel ts) * 10 ^ 13"
    by (auto simp: fits_decimal_def)
  then show ?case by (auto simp: algebra_simps)
qed

lemma tally_le: "tally sel rows \<le> length rows"
  by (simp add: tally_def)

lemma summable_total:
  assumes "summable_rows rows"
  shows "\<bar>total_amount sel rows\<bar> \<le> 10 ^ 29"
proof -
  have "tally sel rows \<le> 10 ^ 12"
    using assms tally_le [of sel rows] unfolding summable_rows_def by linarith
  then have "of_nat (tally sel rows) \<le> (of_nat (10 ^ 12) :: rat)" by (simp only: of_nat_le_iff)
  then have n: "of_nat (tally sel rows) \<le> (10 ^ 12 :: rat)" by (simp only: of_nat_power of_nat_numeral)
  have b: "\<bar>total_amount sel rows\<bar> \<le> of_nat (tally sel rows) * 10 ^ 13"
    using assms total_amount_bound by (auto simp: summable_rows_def)
  also have "\<dots> \<le> 10 ^ 12 * 10 ^ 13" using n by (rule mult_right_mono) simp
  finally show "\<bar>total_amount sel rows\<bar> \<le> 10 ^ 29" by simp
qed

lemma average_amount_bound:
  assumes "summable_rows rows"
  shows "\<bar>average_amount sel rows\<bar> \<le> 10 ^ 13"
proof (cases "tally sel rows = 0")
  case True
  then show ?thesis by (simp add: average_amount_def)
next
  case False
  have "\<bar>total_amount sel rows\<bar> \<le> of_nat (tally sel rows) * 10 ^ 13"
    using assms total_amount_bound by (auto simp: summable_rows_def)
  moreover have "\<bar>average_amount sel rows\<bar> = \<bar>total_amount sel rows\<bar> / of_nat (tally sel rows)"
    using False by (simp add: average_amount_def abs_divide)
  ultimately show ?thesis using False by (simp add: divide_le_eq mult.commute)
qed

text \<open>Reading back what the driver prints.\<close>

lemma read_total:
  "summable_rows rows \<Longrightarrow> parseFloat (show_decimal 7 (total_amount sel rows)) = Fin (total_amount sel rows)"
  using parseFloat_show_decimal [OF summable_total, of rows 7 sel] total_amount_integral [of rows sel]
  by (simp only: summable_rows_def) simp

lemma read_decimal: "fits_decimal a \<Longrightarrow> parseFloat (show_decimal 7 a) = Fin a"
proof -
  assume a: "fits_decimal a"
  then have "\<bar>a\<bar> \<le> 10 ^ 29" by (simp add: fits_decimal_def)
  from parseFloat_show_decimal [OF this, of 7] a show ?thesis by (simp only: fits_decimal_def) simp
qed

lemma foldl_max_in: "foldl max a as \<in> insert a (set as)" for a :: rat
  by (induction "as" arbitrary: a) (auto simp: max_def)

lemma largest_amount_fits:
  assumes "summable_rows rows"
  shows "fits_decimal (largest_amount sel rows)"
proof (cases "map t_amount (filter sel rows)")
  case Nil
  then show ?thesis by (simp add: largest_amount_def fits_decimal_def)
next
  case (Cons a "as")
  have "foldl max a as \<in> set (map t_amount (filter sel rows))"
    using foldl_max_in unfolding Cons by simp
  then obtain t where "t \<in> set rows" "foldl max a as = t_amount t" by auto
  then show ?thesis using assms Cons by (simp add: largest_amount_def summable_rows_def)
qed

lemma read_average:
  assumes "summable_rows rows"
  shows "\<exists>a. parseFloat (show_decimal 16 (average_amount sel rows)) = Fin a
    \<and> \<bar>a - average_amount sel rows\<bar> < 1 / 10 ^ 16"
proof (intro exI conjI)
  let ?r = "average_amount sel rows * 10 ^ 16"
  show "parseFloat (show_decimal 16 (average_amount sel rows)) = Fin (of_int \<lfloor>?r\<rfloor> / 10 ^ 16)"
    using average_amount_bound [OF assms, of sel] by (intro parseFloat_show_decimal) simp
  have "\<bar>of_int \<lfloor>?r\<rfloor> - ?r\<bar> < 1" by linarith
  moreover have "of_int \<lfloor>?r\<rfloor> / 10 ^ 16 - average_amount sel rows = (of_int \<lfloor>?r\<rfloor> - ?r) / 10 ^ 16"
    by (simp add: diff_divide_distrib)
  ultimately show "\<bar>of_int \<lfloor>?r\<rfloor> / 10 ^ 16 - average_amount sel rows\<bar> < 1 / 10 ^ 16"
    by (simp only: abs_divide) (simp add: divide_strict_right_mono)
qed

lemma read_tally:
  assumes "summable_rows rows"
  shows "parseInt (show_nat (tally sel rows)) = Fin (of_nat (tally sel rows))"
proof (rule parseInt_show_nat)
  have "tally sel rows \<le> 10 ^ 12"
    using assms tally_le [of sel rows] unfolding summable_rows_def by linarith
  also have "(10::nat) ^ 12 \<le> 10 ^ 30" by (rule power_increasing) simp_all
  finally show "tally sel rows \<le> 10 ^ 30" .
qed

section \<open>The queries computed from the rows\<close>

definition make_group :: "(tip \<Rightarrow> 'k) \<Rightarrow> (tip \<Rightarrow> bool) \<Rightarrow> tip list \<Rightarrow> 'k \<Rightarrow> 'k raw_group" where
  "make_group key sel rows k =
     \<lparr>rg_key = k, rg_total = show_decimal 7 (total_amount (\<lambda>t. sel t \<and> key t = k) rows),
      rg_count = show_nat (tally (\<lambda>t. sel t \<and> key t = k) rows),
      rg_last = foldr max (map t_createdAt (filter (\<lambda>t. sel t \<and> key t = k) rows)) None\<rparr>"

definition make_groups :: "(tip \<Rightarrow> 'k) \<Rightarrow> (tip \<Rightarrow> bool) \<Rightarrow> tip list \<Rightarrow> 'k raw_group list" where
  "make_groups key sel rows = map (make_group key sel rows) (remdups (map key (filter sel rows)))"

definition sum_order :: "(tip \<Rightarrow> bool) \<Rightarrow> tip list \<Rightarrow> string raw_group \<Rightarrow> string raw_group \<Rightarrow> bool" where
  "sum_order sel rows g h \<longleftrightarrow> total_amount (\<lambda>t. sel t \<and> t_senderWallet t = rg_key h) rows
     \<le> total_amount (\<lambda>t. sel t \<and> t_senderWallet t = rg_key g) rows"

definition stats_table :: tip_queries where
  "stats_table =
     \<lparr>q_sums = (\<lambda>w rows. Inr \<lparr>rw_count = show_nat (tally (stats_match w) rows),
        rw_total = show_decimal 7 (total_amount (stats_match w) rows),
        rw_average = show_decimal 16 (average_amount (stats_match w) rows),
        rw_largest = show_decimal 7 (largest_amount (stats_match w) rows)\<rparr>),
      q_by_sender = (\<lambda>w n rows. Inr (take n (sort_by (sum_order (stats_match w) rows)
        (make_groups t_senderWallet (stats_match w) rows)))),
      q_by_asset = (\<lambda>w rows. Inr (make_groups asset_key (stats_match w) rows)),
      q_by_day = (\<lambda>w rows. Inr (sort_by (\<lambda>g h. fst (rg_key g) \<le> fst (rg_key h))
        (make_groups day_key (stats_match w) rows))),
      q_by_issuer = (\<lambda>w rows. Inr (make_groups issuer_key (stats_match w) rows))\<rparr>"

lemma foldr_max_ge: "x \<in> set xs \<Longrightarrow> x \<le> foldr max xs (None :: int option)"
  by (induction xs) (auto intro: order_trans max.coboundedI2)

lemma foldr_max_in: "xs \<noteq> [] \<Longrightarrow> foldr max xs (None :: int option) \<in> set xs"
proof (induction xs)
  case (Cons x xs)
  then show ?case by (cases x; cases "xs = []") (auto simp: max_def)
qed simp

lemma group_of_make_group:
  assumes "summable_rows rows" and "k \<in> key ` {t \<in> set rows. sel t}"
  shows "group_of key sel rows (make_group key sel rows k)"
proof -
  let ?ts = "filter (\<lambda>t. sel t \<and> key t = k) rows"
  have "map t_createdAt ?ts \<noteq> []" using assms(2) by (auto simp: filter_empty_conv)
  from foldr_max_in [OF this] have "foldr max (map t_createdAt ?ts) None \<in> t_createdAt ` {t \<in> set rows. sel t \<and> key t = k}"
    by simp
  moreover have "t_createdAt t \<le> foldr max (map t_createdAt ?ts) None" if "t \<in> set rows" "sel t" "key t = k" for t
    using that by (intro foldr_max_ge) auto
  ultimately show ?thesis
    using assms(1) by (simp add: group_of_def make_group_def read_total read_tally)
qed

lemma groups_of_make_groups:
  assumes "summable_rows rows"
  shows "groups_of key sel rows (make_groups key sel rows)"
proof -
  have k: "rg_key (make_group key sel rows k) = k" for k by (simp add: make_group_def)
  have "\<forall>g\<in>set (make_groups key sel rows). group_of key sel rows g"
    unfolding make_groups_def by (auto intro!: group_of_make_group [OF assms])
  moreover have "map rg_key (make_groups key sel rows) = remdups (map key (filter sel rows))"
    by (simp add: make_groups_def comp_def k)
  moreover from this have "rg_key ` set (make_groups key sel rows) = key ` {t \<in> set rows. sel t}"
    by (metis set_map set_remdups set_filter)
  ultimately show ?thesis by (simp add: groups_of_def)
qed

lemma groups_of_mset:
  "mset gs = mset gs' \<Longrightarrow> groups_of key sel rows gs' \<Longrightarrow> groups_of key sel rows gs"
  unfolding groups_of_def
  by (metis mset_eq_setD mset_eq_imp_distinct_iff mset_map)

interpretation table_stats: tip_statistics stats_table
proof (unfold_locales, goal_cases)
  case (1 w rows r)
  then show ?case
    using read_average [OF 1(2)]
    by (auto simp: stats_table_def read_tally read_total read_decimal largest_amount_fits)
next
  case (2 w n rows gs)
  let ?all = "sort_by (sum_order (stats_match w) rows) (make_groups t_senderWallet (stats_match w) rows)"
  have "total_preorder (sum_order (stats_match w) rows)"
    by (auto simp: total_preorder_def sum_order_def)
  from sorted_sort_by [OF this] have "sorted_wrt (sum_order (stats_match w) rows) ?all" .
  moreover have "groups_of t_senderWallet (stats_match w) rows ?all"
    by (rule groups_of_mset [OF mset_sort_by groups_of_make_groups [OF 2(2)]])
  ultimately show ?case using 2(1) by (auto simp: stats_table_def sum_order_def [abs_def])
next
  case (3 w rows gs)
  then show ?case by (auto simp: stats_table_def groups_of_make_groups)
next
  case (4 w rows ds)
  let ?le = "\<lambda>g h :: (int \<times> string) raw_group. fst (rg_key g) \<le> fst (rg_key h)"
  let ?ds = "sort_by ?le (make_groups day_key (stats_match w) rows)"
  have "sorted_wrt ?le ?ds" by (rule sorted_sort_by) (auto simp: total_preorder_def)
  moreover have "groups_of day_key (stats_match w) rows ?ds"
    by (rule groups_of_mset [OF mset_sort_by groups_of_make_groups [OF 4(2)]])
  ultimately show ?case using 4(1) by (auto simp: stats_table_def sorted_map)
next
  case (5 w rows "is")
  then show ?case by (auto simp: stats_table_def groups_of_make_groups)
qed

end
