(* ===== verification/Profiles.thy ===== *)
theory Profiles
  imports Statistics Tips
begin

text \<open>
  \<open>ProfilesService\<close> and \<open>ProfilesController\<close> (\<open>src/src/profiles\<close>), and the statistics of
  \<open>TipsService\<close>: public profiles, the tipping page, updates of a profile, its wallet, avatar and
  links, the search, and the analytics.
\<close>

section \<open>Statistics of a creator's tips\<close>

record tip_stat =
  st_totalAmount :: string
  st_totalTips :: string
  st_asset :: string
  st_assetIssuer :: "string option"

definition getTipStats :: "tip_queries \<Rightarrow> string \<Rightarrow> ('z database_scheme, tip_stat list) op" where
  "getTipStats Q creatorId =
     andThen (read_tips (q_by_issuer Q (any_stats\<lparr>sw_creatorId := Some creatorId\<rparr>)))
     (\<lambda>result. return_op (map (\<lambda>row. \<lparr>st_totalAmount = rg_total row, st_totalTips = rg_count row,
        st_asset = fst (rg_key row), st_assetIssuer = or_null (snd (rg_key row))\<rparr>) result))"

definition getMyStats_route :: "tip_queries \<Rightarrow> string \<Rightarrow> ('z database_scheme, tip_stat list) op" where
  "getMyStats_route Q user = getTipStats Q user"

section \<open>Public profiles\<close>

definition profile_columns :: "string list" where
  "profile_columns = [''id'', ''username'', ''displayName'', ''bio'', ''avatarUrl'', ''walletAddress'',
     ''socialLinks'', ''createdAt'']"

definition profile_columns_by_id :: "string list" where
  "profile_columns_by_id = [''id'', ''username'', ''displayName'', ''bio'', ''avatarUrl'', ''walletAddress'',
     ''createdAt'']"

definition find_profile :: "(user_where, user) repository_ops \<Rightarrow> user_where \<Rightarrow> string list \<Rightarrow>
    ('z database_scheme, user) op" where
  "find_profile UR w cols =
     andThen (read_users (findOne UR ((query_of [w\<lparr>uw_isActive := Some True\<rparr>])\<lparr>fo_select := Some cols\<rparr>)))
     (\<lambda>user. case user of None \<Rightarrow> throw (NotFound ''Profile not found'') | Some u \<Rightarrow> return_op u)"

definition getProfile :: "(user_where, user) repository_ops \<Rightarrow> string \<Rightarrow> ('z database_scheme, user) op" where
  "getProfile UR username = find_profile UR (any_user\<lparr>uw_username := Some username\<rparr>) profile_columns"

definition getProfileById :: "(user_where, user) repository_ops \<Rightarrow> string \<Rightarrow> ('z database_scheme, user) op" where
  "getProfileById UR i = find_profile UR (any_user\<lparr>uw_id := Some i\<rparr>) profile_columns_by_id"

section \<open>The tipping page\<close>

record recent_message =
  rm_amount :: rat
  rm_asset :: tip_asset
  rm_message :: "string option"
  rm_createdAt :: "int option"

record supporter_info =
  si_walletAddress :: string
  si_totalAmount :: jsnum
  si_tipCount :: jsnum

record tipping_info =
  ti_displayName :: "string option"
  ti_username :: "string option"
  ti_bio :: "string option"
  ti_avatarUrl :: "string option"
  ti_walletAddress :: "string option"
  ti_totalTipsReceived :: jsnum
  ti_totalAmountReceived :: jsnum
  ti_topSupporter :: "supporter_info option"
  ti_recentMessages :: "recent_message list"

text \<open>\<open>parseInt(x || '0', 10)\<close> and \<open>parseFloat(x || '0')\<close> on a text\<close>

definition int_or_zero :: "string \<Rightarrow> jsnum" where
  "int_or_zero x = parseInt (str_or (Some x) ''0'')"

definition float_or_zero :: "string \<Rightarrow> jsnum" where
  "float_or_zero x = parseFloat (str_or (Some x) ''0'')"

text \<open>
  The \<open>where\<close> of the recent messages takes the wallet of the profile as it is; a user without a
  wallet puts a null there.
\<close>

definition recent_tips_query :: "string option \<Rightarrow> tip_where find_options" where
  "recent_tips_query wallet =
     (query_of [any_tip\<lparr>tw_receiverWallet := wallet, tw_status := Some COMPLETED\<rparr>])
       \<lparr>fo_select := Some [''amount'', ''asset'', ''message'', ''createdAt'', ''senderWallet''],
        fo_order := [(''createdAt'', ''DESC'')], fo_take := Some (Fin 5)\<rparr>"

definition getTippingInfo :: "tip_queries \<Rightarrow> (tip_where, tip) repository_ops \<Rightarrow> (user_where, user) repository_ops \<Rightarrow>
    string \<Rightarrow> ('z database_scheme, tipping_info) op" where
  "getTippingInfo Q TR UR username =
     andThen (find_profile UR (any_user\<lparr>uw_username := Some username\<rparr>) profile_columns_by_id)
     (\<lambda>user. andThen (read_tips (q_sums Q (any_stats\<lparr>sw_wallet := Some (u_walletAddress user)\<rparr>)))
     (\<lambda>statsResult. andThen (read_tips (q_by_sender Q (any_stats\<lparr>sw_wallet := Some (u_walletAddress user),
        sw_named := True\<rparr>) 1))
     (\<lambda>top. andThen (read_tips (findMany TR (recent_tips_query (u_walletAddress user))))
     (\<lambda>recentTips. return_op
        \<lparr>ti_displayName = u_displayName user, ti_username = u_username user, ti_bio = u_bio user,
         ti_avatarUrl = u_avatarUrl user, ti_walletAddress = or_null (u_walletAddress user),
         ti_totalTipsReceived = int_or_zero (rw_count statsResult),
         ti_totalAmountReceived = float_or_zero (rw_total statsResult),
         ti_topSupporter = (case top of [] \<Rightarrow> None
           | g # _ \<Rightarrow> Some \<lparr>si_walletAddress = rg_key g, si_totalAmount = float_or_zero (rg_total g),
               si_tipCount = int_or_zero (rg_count g)\<rparr>),
         ti_recentMessages = map (\<lambda>t. \<lparr>rm_amount = t_amount t, rm_asset = t_asset t,
           rm_message = or_null (Some (t_message t)), rm_createdAt = t_createdAt t\<rparr>) recentTips\<rparr>))))"

section \<open>Updating a profile\<close>

record update_profile_dto =
  up_displayName :: "string maybe"
  up_bio :: "string maybe"
  up_avatarUrl :: "string maybe"

definition store_user :: "(user_where, user) repository_ops \<Rightarrow> int \<Rightarrow> user \<Rightarrow> ('z database_scheme, user) op" where
  "store_user UR now u = write_users (saveRow UR now u)"

definition own_user :: "(user_where, user) repository_ops \<Rightarrow> string \<Rightarrow> ('z database_scheme, user) op" where
  "own_user UR userId =
     andThen (find_user UR (any_user\<lparr>uw_id := Some userId\<rparr>))
     (\<lambda>user. case user of None \<Rightarrow> throw (NotFound ''User not found'') | Some u \<Rightarrow> return_op u)"

definition updateProfile :: "(user_where, user) repository_ops \<Rightarrow> int \<Rightarrow> string \<Rightarrow> update_profile_dto \<Rightarrow>
    ('z database_scheme, user) op" where
  "updateProfile UR now userId dto =
     andThen (own_user UR userId)
     (\<lambda>user.
        let user1 = (if maybe_truthy (up_displayName dto)
               then user\<lparr>u_displayName := maybe_option (up_displayName dto)\<rparr> else user);
            user2 = (if up_bio dto \<noteq> Undef then user1\<lparr>u_bio := maybe_option (up_bio dto)\<rparr> else user1);
            user3 = (if up_avatarUrl dto \<noteq> Undef
               then user2\<lparr>u_avatarUrl := maybe_option (up_avatarUrl dto)\<rparr> else user2)
        in store_user UR now user3)"

definition updateWalletAddress :: "(user_where, user) repository_ops \<Rightarrow> int \<Rightarrow> string \<Rightarrow> string \<Rightarrow>
    ('z database_scheme, user) op" where
  "updateWalletAddress UR now userId walletAddress =
     andThen (find_user UR (any_user\<lparr>uw_walletAddress := Some walletAddress\<rparr>))
     (\<lambda>existing. andThen (throw_if (case existing of None \<Rightarrow> False | Some e \<Rightarrow> u_id e \<noteq> Some userId)
        (Conflict ''Wallet address already linked to another account''))
     (\<lambda>_. andThen (own_user UR userId)
     (\<lambda>user. store_user UR now (user\<lparr>u_walletAddress := Some walletAddress\<rparr>))))"

text \<open>The first link that is not \<open>https\<close>, in the order of the platforms.\<close>

definition bad_link :: "social_links \<Rightarrow> string option" where
  "bad_link l = map_option fst (List.find (\<lambda>(_, v). case or_null v of
        None \<Rightarrow> False | Some url \<Rightarrow> \<not> startsWith url ''https://'')
     [(''twitter'', sl_twitter l), (''github'', sl_github l), (''youtube'', sl_youtube l),
      (''website'', sl_website l)])"

definition updateSocialLinks :: "(user_where, user) repository_ops \<Rightarrow> int \<Rightarrow> string \<Rightarrow> social_links \<Rightarrow>
    ('z database_scheme, user) op" where
  "updateSocialLinks UR now userId links =
     andThen (own_user UR userId)
     (\<lambda>user. case bad_link links of
        Some platform \<Rightarrow> throw (BadRequest (''Invalid '' @ platform @ '' URL: must start with https://''))
      | None \<Rightarrow> store_user UR now (user\<lparr>u_socialLinks := Some links\<rparr>))"

section \<open>Avatars\<close>

text \<open>
  The directory \<open>uploads/avatars\<close> beside the tables and the state of the tips' service: the contents of the files, by name. No file is
  named \<open>.\<close>, \<open>..\<close> or by the empty string, and the upload middleware passes the base name of the
  client's file name, so that every name is that of an entry of the directory.
\<close>

record files_state = tips_state +
  avatar_files :: "string \<Rightarrow> string option"

record uploaded_file =
  uf_mimetype :: string
  uf_size :: int
  uf_originalname :: string
  uf_buffer :: string

definition allowedMimeTypes :: "string list" where
  "allowedMimeTypes = [''image/jpeg'', ''image/png'', ''image/webp'']"

text \<open>\<open>path.basename\<close>: the last segment, trailing slashes aside.\<close>

definition basename :: "string \<Rightarrow> string" where
  "basename p = (let q = rev (dropWhile (\<lambda>c. c = CHR ''/'') (rev p))
     in rev (takeWhile (\<lambda>c. c \<noteq> CHR ''/'') (rev q)))"

text \<open>\<open>originalname.split('.').pop() || 'png'\<close>\<close>

definition extension :: "string \<Rightarrow> string" where
  "extension name = (let ext = rev (takeWhile (\<lambda>c. c \<noteq> CHR ''.'') (rev name))
     in if ext = '''' then ''png'' else ext)"

text \<open>\<open>unlinkSync\<close>, whose failure on an absent file is ignored.\<close>

definition unlink_avatar :: "string \<Rightarrow> ('z files_state_scheme, unit) op" where
  "unlink_avatar name = (\<lambda>s. (Inr (), s\<lparr>avatar_files := (avatar_files s)(name := None)\<rparr>))"

text \<open>\<open>writeFileSync\<close> below the directory, which may throw.\<close>

definition write_avatar :: "string option \<Rightarrow> string \<Rightarrow> string \<Rightarrow> ('z files_state_scheme, unit) op" where
  "write_avatar disk_error name content = (\<lambda>s. case disk_error of
      Some e \<Rightarrow> (Inl (JsError e), s)
    | None \<Rightarrow> (Inr (), s\<lparr>avatar_files := (avatar_files s)(name \<mapsto> content)\<rparr>))"

definition uploadAvatar :: "(user_where, user) repository_ops \<Rightarrow> string option \<Rightarrow> int \<Rightarrow> string \<Rightarrow> string \<Rightarrow>
    uploaded_file \<Rightarrow> ('z files_state_scheme, string) op" where
  "uploadAvatar UR disk_error now uuid userId file =
     andThen (throw_if (uf_mimetype file \<notin> set allowedMimeTypes)
        (BadRequest (''Unsupported file type: '' @ uf_mimetype file @ ''. Allowed types: JPEG, PNG, WEBP'')))
     (\<lambda>_. andThen (throw_if (uf_size file > 5 * 1024 * 1024) (BadRequest ''File size exceeds 5MB limit''))
     (\<lambda>_. andThen (own_user UR userId)
     (\<lambda>user. andThen (case or_null (u_avatarUrl user) of
          None \<Rightarrow> return_op () | Some url \<Rightarrow> unlink_avatar (basename url))
     (\<lambda>_. let filename = uuid @ ''.'' @ extension (uf_originalname file);
              avatarUrl = ''/uploads/avatars/'' @ filename
          in andThen (write_avatar disk_error filename (uf_buffer file))
             (\<lambda>_. andThen (store_user UR now (user\<lparr>u_avatarUrl := Some avatarUrl\<rparr>))
             (\<lambda>_. return_op avatarUrl))))))"

section \<open>Search\<close>

text \<open>PostgreSQL's \<open>LIKE\<close>: \<open>%\<close> any text, \<open>_\<close> any character, a backslash escapes the next.\<close>

fun like :: "string \<Rightarrow> string \<Rightarrow> bool" where
  "like [] s = (s = [])"
| "like (p # ps) [] = (p = CHR ''%'' \<and> like ps [])"
| "like (p # ps) (c # cs) =
     (if p = CHR ''%'' then like ps (c # cs) \<or> like (p # ps) cs
      else if p = CHR ''_'' then like ps cs
      else if p = CHR 0x5C then (case ps of [] \<Rightarrow> False | q # qs \<Rightarrow> q = c \<and> like qs cs)
      else p = c \<and> like ps cs)"

definition ilike :: "string \<Rightarrow> string \<Rightarrow> bool" where
  "ilike p s = like (toLowerCase p) (toLowerCase s)"

definition search_matches :: "string \<Rightarrow> user \<Rightarrow> bool" where
  "search_matches query u \<longleftrightarrow> u_isActive u = Some True
     \<and> (list_ex (ilike (''%'' @ query @ ''%'')) (case u_username u of None \<Rightarrow> [] | Some n \<Rightarrow> [n])
        \<or> list_ex (ilike (''%'' @ query @ ''%'')) (case u_displayName u of None \<Rightarrow> [] | Some n \<Rightarrow> [n]))"

text \<open>The order of the result is the database's.\<close>

definition searchProfiles :: "((user \<Rightarrow> bool) \<Rightarrow> string list \<Rightarrow> nat \<Rightarrow> user list \<Rightarrow> string + user list) \<Rightarrow>
    string \<Rightarrow> ('z database_scheme, user list) op" where
  "searchProfiles getMany query =
     read_users (getMany (search_matches query) [''id'', ''username'', ''displayName'', ''bio'', ''avatarUrl''] 20)"

definition searchProfiles_route :: "((user \<Rightarrow> bool) \<Rightarrow> string list \<Rightarrow> nat \<Rightarrow> user list \<Rightarrow> string + user list) \<Rightarrow>
    string option \<Rightarrow> ('z database_scheme, user list) op" where
  "searchProfiles_route getMany query =
     (case or_null query of None \<Rightarrow> return_op [] | Some q \<Rightarrow> searchProfiles getMany q)"

section \<open>Analytics\<close>

record analytics_summary =
  as_totalTipsReceived :: jsnum
  as_totalAmountReceived :: jsnum
  as_averageTipAmount :: jsnum
  as_largestTipAmount :: jsnum

record asset_total =
  at_asset :: string
  at_totalAmount :: jsnum
  at_tipCount :: jsnum

record time_point =
  tp_date :: string
  tp_count :: jsnum
  tp_totalAmount :: jsnum
  tp_asset :: string

record supporter_total =
  sp_walletAddress :: string
  sp_totalAmount :: jsnum
  sp_tipCount :: jsnum
  sp_lastTipAt :: "int option"

record analytics =
  an_summary :: analytics_summary
  an_byAsset :: "asset_total list"
  an_timeSeries :: "time_point list"
  an_topSupporters :: "supporter_total list"
  an_period :: string
  an_generatedAt :: string

text \<open>\<open>period.replace('d', '')\<close>, and the start of the window: \<open>Some None\<close> is an invalid date.\<close>

definition remove_first_d :: "string \<Rightarrow> string" where
  "remove_first_d s = takeWhile (\<lambda>c. c \<noteq> CHR ''d'') s @ drop 1 (dropWhile (\<lambda>c. c \<noteq> CHR ''d'') s)"

definition analytics_start :: "int \<Rightarrow> string \<Rightarrow> int option option" where
  "analytics_start now period =
     (if period \<noteq> ''all'' then Some (add_days now (js_sub (Fin 0) (parseInt (remove_first_d period)))) else None)"

text \<open>\<open>String(date)\<close> has no milliseconds.\<close>

definition through_date_string :: "int \<Rightarrow> int" where
  "through_date_string t = t - t mod 1000"

text \<open>
  \<open>date_string\<close> renders a day of the time series. The asset restricts the summary, the series and
  the supporters, and not the totals by asset.
\<close>

definition getAnalytics :: "tip_queries \<Rightarrow> (user_where, user) repository_ops \<Rightarrow> (int \<Rightarrow> string) \<Rightarrow> int \<Rightarrow>
    string \<Rightarrow> string option \<Rightarrow> string option \<Rightarrow> ('z database_scheme, analytics) op" where
  "getAnalytics Q UR date_string now userId period_arg asset =
     (let period = (case period_arg of None \<Rightarrow> ''30d'' | Some p \<Rightarrow> p)
      in andThen (read_users (findOne UR ((query_of [any_user\<lparr>uw_id := Some userId\<rparr>])
           \<lparr>fo_select := Some [''id'', ''walletAddress'']\<rparr>)))
     (\<lambda>found. case found of
        None \<Rightarrow> throw (NotFound ''User not found'')
      | Some user \<Rightarrow>
         (let w = any_stats\<lparr>sw_wallet := Some (u_walletAddress user), sw_from := analytics_start now period\<rparr>;
              wa = w\<lparr>sw_asset := map_option toUpperCase (or_null asset)\<rparr>
          in andThen (read_tips (q_sums Q wa))
         (\<lambda>summary. andThen (read_tips (q_by_asset Q w))
         (\<lambda>byAsset. andThen (read_tips (q_by_day Q wa))
         (\<lambda>timeSeries. andThen (read_tips (q_by_sender Q (wa\<lparr>sw_named := True\<rparr>) 5))
         (\<lambda>topSupporters. return_op
            \<lparr>an_summary = \<lparr>as_totalTipsReceived = int_or_zero (rw_count summary),
                as_totalAmountReceived = float_or_zero (rw_total summary),
                as_averageTipAmount = js_div (js_round (js_mul (float_or_zero (rw_average summary)) (Fin 10000000)))
                  (Fin 10000000),
                as_largestTipAmount = float_or_zero (rw_largest summary)\<rparr>,
             an_byAsset = map (\<lambda>g. \<lparr>at_asset = str_or (Some (rg_key g)) ''XLM'',
                at_totalAmount = float_or_zero (rg_total g), at_tipCount = int_or_zero (rg_count g)\<rparr>) byAsset,
             an_timeSeries = map (\<lambda>g. \<lparr>tp_date = date_string (fst (rg_key g)),
                tp_count = int_or_zero (rg_count g), tp_totalAmount = float_or_zero (rg_total g),
                tp_asset = str_or (Some (snd (rg_key g))) ''XLM''\<rparr>) timeSeries,
             an_topSupporters = map (\<lambda>g. \<lparr>sp_walletAddress = rg_key g,
                sp_totalAmount = float_or_zero (rg_total g), sp_tipCount = int_or_zero (rg_count g),
                sp_lastTipAt = map_option through_date_string (rg_last g)\<rparr>) topSupporters,
             an_period = period, an_generatedAt = toISOString now\<rparr>)))))))"

text \<open>
  The route answers from the response cache first. \<open>CacheInterceptor\<close> and its store are the
  framework's: \<open>rd\<close> and \<open>wr\<close> read and write the store, \<open>track\<close> is the key of a request.
\<close>

record get_request =
  rq_user :: string
  rq_url :: string
  rq_period :: "string option"
  rq_asset :: "string option"

definition getAnalytics_route :: "(int \<Rightarrow> string \<Rightarrow> ('z database_scheme, analytics option) op) \<Rightarrow>
    (int \<Rightarrow> string \<Rightarrow> analytics \<Rightarrow> ('z database_scheme, unit) op) \<Rightarrow> (get_request \<Rightarrow> string) \<Rightarrow>
    tip_queries \<Rightarrow> (user_where, user) repository_ops \<Rightarrow> (int \<Rightarrow> string) \<Rightarrow> int \<Rightarrow> get_request \<Rightarrow>
    ('z database_scheme, analytics) op" where
  "getAnalytics_route rd wr track Q UR date_string now req =
     andThen (rd now (track req))
     (\<lambda>cached. case cached of
        Some response \<Rightarrow> return_op response
      | None \<Rightarrow> andThen (getAnalytics Q UR date_string now (rq_user req) (rq_period req) (rq_asset req))
          (\<lambda>response. andThen (wr now (track req) response) (\<lambda>_. return_op response)))"

section \<open>Routes\<close>

definition getTippingInfo_route :: "tip_queries \<Rightarrow> (tip_where, tip) repository_ops \<Rightarrow>
    (user_where, user) repository_ops \<Rightarrow> string \<Rightarrow> ('z database_scheme, tipping_info) op" where
  "getTippingInfo_route Q TR UR username = getTippingInfo Q TR UR username"

definition getProfile_route :: "(user_where, user) repository_ops \<Rightarrow> string \<Rightarrow> ('z database_scheme, user) op" where
  "getProfile_route UR username = getProfile UR username"

definition updateProfile_route :: "(user_where, user) repository_ops \<Rightarrow> int \<Rightarrow> string \<Rightarrow> update_profile_dto \<Rightarrow>
    ('z database_scheme, user) op" where
  "updateProfile_route UR now user dto = updateProfile UR now user dto"

definition updateSocialLinks_route :: "(user_where, user) repository_ops \<Rightarrow> int \<Rightarrow> string \<Rightarrow> social_links \<Rightarrow>
    ('z database_scheme, user) op" where
  "updateSocialLinks_route UR now user links = updateSocialLinks UR now user links"

definition uploadAvatar_route :: "(user_where, user) repository_ops \<Rightarrow> string option \<Rightarrow> int \<Rightarrow> string \<Rightarrow> string \<Rightarrow>
    uploaded_file \<Rightarrow> ('z files_state_scheme, string) op" where
  "uploadAvatar_route UR disk_error now uuid user file = uploadAvatar UR disk_error now uuid user file"

end
