(* ===== verification/Profile_Properties.thy ===== *)
theory Profile_Properties
  imports Profiles Tip_Properties
begin

text \<open>
  The properties of the profiles: what the tipping page and the analytics report, whose answer the
  response cache gives, and what the updates of a profile and of its avatar change.
\<close>

section \<open>Reading a profile\<close>

lemma find_profile_InrE:
  assumes "users_contract UR" and "find_profile UR w cols s = (Inr u, s')"
  obtains r where "r \<in> set (users_rows s)" and "user_matches (w\<lparr>uw_isActive := Some True\<rparr>) r"
    and "u = user_view (Some cols) r" and "s' = s"
proof -
  let ?q = "(query_of [w\<lparr>uw_isActive := Some True\<rparr>])\<lparr>fo_select := Some cols\<rparr>"
  obtain v where f: "findOne UR ?q (users_rows s) = Inr (Some v)" and v: "u = v" "s' = s"
    using assms(2) by (auto simp: find_profile_def op_simps split: sum.splits option.splits)
  from repository.find_one_Some [OF assms(1) f] v that show thesis by (auto simp: selects_def)
qed

lemma selects_active_username:
  "user_matches (any_user\<lparr>uw_username := Some n, uw_isActive := Some True\<rparr>) r
   \<longleftrightarrow> u_username r = Some n \<and> u_isActive r = Some True"
  by (auto simp: user_matches_def any_user_def)

lemma tally_zero: "tally sel rows = 0 \<longleftrightarrow> (\<forall>t\<in>set rows. \<not> sel t)"
  by (simp add: tally_def filter_empty_conv)

lemma or_zero [simp]: "parseInt x = Fin n \<Longrightarrow> int_or_zero x = Fin n" "parseFloat x = Fin a \<Longrightarrow> float_or_zero x = Fin a"
proof -
  have "parseInt '''' = NaN" "parseFloat '''' = NaN"
    by (simp_all add: parseInt_def parseFloat_def scan_decimal_def scan_sign_def trim_start_def
        scan_unsigned_def scan_exponent_def startsWith_def)
  then show "parseInt x = Fin n \<Longrightarrow> int_or_zero x = Fin n" "parseFloat x = Fin a \<Longrightarrow> float_or_zero x = Fin a"
    by (auto simp: int_or_zero_def float_or_zero_def str_or_def)
qed

text \<open>What a page is put together from.\<close>

definition message_of :: "tip \<Rightarrow> recent_message" where
  "message_of t = \<lparr>rm_amount = t_amount t, rm_asset = t_asset t,
     rm_message = or_null (Some (t_message t)), rm_createdAt = t_createdAt t\<rparr>"

definition supporter_of :: "string raw_group list \<Rightarrow> supporter_info option" where
  "supporter_of tops = (case tops of [] \<Rightarrow> None
     | g # _ \<Rightarrow> Some \<lparr>si_walletAddress = rg_key g, si_totalAmount = float_or_zero (rg_total g),
         si_tipCount = int_or_zero (rg_count g)\<rparr>)"

lemma getTippingInfo_InrE:
  assumes con: "users_contract UR" "tips_contract TR" and run: "getTippingInfo Q TR UR n s = (Inr info, s')"
  obtains u r tops ss where "u \<in> set (users_rows s)" and "u_username u = Some n" and "u_isActive u = Some True"
    and "s' = s"
    and "q_sums Q (any_stats\<lparr>sw_wallet := Some (u_walletAddress u)\<rparr>) (tips_rows s) = Inr r"
    and "q_by_sender Q (any_stats\<lparr>sw_wallet := Some (u_walletAddress u), sw_named := True\<rparr>) 1 (tips_rows s) = Inr tops"
    and "mset ss = filter_mset (\<lambda>t. t_status t = COMPLETED
      \<and> (\<forall>w. u_walletAddress u = Some w \<longrightarrow> t_receiverWallet t = w)) (mset (tips_rows s))"
    and "sorted_wrt (order_by tip_col_le [(''createdAt'', ''DESC'')]) ss"
    and "ti_walletAddress info = or_null (u_walletAddress u)"
    and "ti_totalTipsReceived info = int_or_zero (rw_count r)"
    and "ti_totalAmountReceived info = float_or_zero (rw_total r)"
    and "ti_topSupporter info = supporter_of tops"
    and "ti_recentMessages info = map message_of (take 5 ss)"
proof -
  let ?f = "find_profile UR (any_user\<lparr>uw_username := Some n\<rparr>) profile_columns_by_id"
  obtain v where f: "?f s = (Inr v, s)"
  proof (cases "?f s")
    case (Pair x s1)
    then obtain v where "x = Inr v" using run by (cases x) (auto simp: getTippingInfo_def op_simps)
    with find_profile_InrE [OF con(1), of "any_user\<lparr>uw_username := Some n\<rparr>" profile_columns_by_id s v s1] Pair that
    show thesis by auto
  qed
  obtain u where u: "u \<in> set (users_rows s)" "u_username u = Some n" "u_isActive u = Some True"
    and v: "v = user_view (Some profile_columns_by_id) u"
    by (rule find_profile_InrE [OF con(1) f]) (simp add: selects_active_username)
  have w: "u_walletAddress v = u_walletAddress u" by (simp add: v user_view_def profile_columns_by_id_def)
  obtain r where r: "q_sums Q (any_stats\<lparr>sw_wallet := Some (u_walletAddress u)\<rparr>) (tips_rows s) = Inr r"
    using run f w by (cases "q_sums Q (any_stats\<lparr>sw_wallet := Some (u_walletAddress u)\<rparr>) (tips_rows s)")
      (simp_all add: getTippingInfo_def op_simps)
  obtain tops where tops: "q_by_sender Q (any_stats\<lparr>sw_wallet := Some (u_walletAddress u), sw_named := True\<rparr>) 1
      (tips_rows s) = Inr tops"
    using run f w r by (cases "q_by_sender Q (any_stats\<lparr>sw_wallet := Some (u_walletAddress u), sw_named := True\<rparr>) 1
      (tips_rows s)") (simp_all add: getTippingInfo_def op_simps)
  obtain es where es: "findMany TR (recent_tips_query (u_walletAddress u)) (tips_rows s) = Inr es"
    using run f w r tops by (cases "findMany TR (recent_tips_query (u_walletAddress u)) (tips_rows s)")
      (simp_all add: getTippingInfo_def op_simps)
  have info: "s' = s \<and> ti_walletAddress info = or_null (u_walletAddress u)
      \<and> ti_totalTipsReceived info = int_or_zero (rw_count r) \<and> ti_totalAmountReceived info = float_or_zero (rw_total r)
      \<and> ti_topSupporter info = supporter_of tops \<and> ti_recentMessages info = map message_of es"
    using run f w r tops es
    by (auto simp: getTippingInfo_def op_simps supporter_of_def message_of_def [abs_def])
  have q: "fo_skip (recent_tips_query (u_walletAddress u)) = None"
    "fo_take (recent_tips_query (u_walletAddress u)) = Some (Fin (of_nat 5))"
    "fo_order (recent_tips_query (u_walletAddress u)) = [(''createdAt'', ''DESC'')]"
    "selects tip_matches (recent_tips_query (u_walletAddress u)) = (\<lambda>t. t_status t = COMPLETED
      \<and> (\<forall>w. u_walletAddress u = Some w \<longrightarrow> t_receiverWallet t = w))"
    by (cases "u_walletAddress u"; auto simp: recent_tips_query_def selects_def tip_matches_def any_tip_def
        matches_opt_def fun_eq_iff)+
  obtain ss where "mset ss = filter_mset (\<lambda>t. t_status t = COMPLETED
      \<and> (\<forall>w. u_walletAddress u = Some w \<longrightarrow> t_receiverWallet t = w)) (mset (tips_rows s))"
    and "sorted_wrt (order_by tip_col_le [(''createdAt'', ''DESC'')]) ss" and "es = take 5 ss"
    using repository.find_take [OF con(2) es q(1,2)] q(3,4) by (auto simp: view_all_def [abs_def])
  with that [OF u _ r tops] info show thesis by blast
qed

text \<open>The completed tips a user received.\<close>

definition received :: "user \<Rightarrow> tip \<Rightarrow> bool" where
  "received u t \<longleftrightarrow> t_status t = COMPLETED \<and> u_walletAddress u = Some (t_receiverWallet t)"

definition named_received :: "user \<Rightarrow> tip \<Rightarrow> bool" where
  "named_received u t \<longleftrightarrow> received u t \<and> t_senderWallet t \<noteq> ''''"

lemma stats_match_received:
  "stats_match (any_stats\<lparr>sw_wallet := Some (u_walletAddress u)\<rparr>) = received u"
  "stats_match (any_stats\<lparr>sw_wallet := Some (u_walletAddress u), sw_named := True\<rparr>) = named_received u"
  by (auto simp: stats_match_def any_stats_def received_def named_received_def fun_eq_iff split: option.splits)

context tip_statistics
begin

text \<open>The first of the groups by sender has the largest sum, and there is one if any sender has a name.\<close>

lemma first_sender:
  assumes q: "q_by_sender Q w n rows = Inr gs" and sum: "summable_rows rows" and n: "0 < n"
  shows "(gs = [] \<longleftrightarrow> (\<forall>t\<in>set rows. \<not> stats_match w t))
    \<and> (\<forall>g. g \<in> set gs \<longrightarrow> group_of t_senderWallet (stats_match w) rows g)
    \<and> (gs \<noteq> [] \<longrightarrow> (\<forall>t\<in>set rows. stats_match w t \<longrightarrow>
         total_amount (\<lambda>x. stats_match w x \<and> t_senderWallet x = t_senderWallet t) rows
         \<le> total_amount (\<lambda>x. stats_match w x \<and> t_senderWallet x = rg_key (hd gs)) rows))"
proof -
  let ?sum = "\<lambda>k. total_amount (\<lambda>x. stats_match w x \<and> t_senderWallet x = k) rows"
  obtain al where al: "groups_of t_senderWallet (stats_match w) rows al" "gs = take n al"
    and srt: "sorted_wrt (\<lambda>g h. ?sum (rg_key h) \<le> ?sum (rg_key g)) al"
    using by_sender [OF q sum] by blast
  have keys: "rg_key ` set al = t_senderWallet ` {t \<in> set rows. stats_match w t}"
    using al(1) by (simp add: groups_of_def)
  have empty: "gs = [] \<longleftrightarrow> (\<forall>t\<in>set rows. \<not> stats_match w t)"
  proof -
    have "al = [] \<longleftrightarrow> rg_key ` set al = {}" by simp
    also have "\<dots> \<longleftrightarrow> (\<forall>t\<in>set rows. \<not> stats_match w t)" unfolding keys by auto
    finally show ?thesis using al(2) n by auto
  qed
  have groups: "\<forall>g. g \<in> set gs \<longrightarrow> group_of t_senderWallet (stats_match w) rows g"
    using al by (auto simp: groups_of_def dest: in_set_takeD)
  have "?sum (t_senderWallet t) \<le> ?sum (rg_key (hd gs))"
    if "gs \<noteq> []" "t \<in> set rows" "stats_match w t" for t
  proof -
    have "t_senderWallet t \<in> rg_key ` set al" unfolding keys using that by blast
    then obtain g where g: "g \<in> set al" "rg_key g = t_senderWallet t" by auto
    obtain h tl where hd: "al = h # tl" using g by (cases al) auto
    then have "hd gs = h" using al(2) n by (cases n) simp_all
    with srt g hd show ?thesis by auto
  qed
  with empty groups show ?thesis by blast
qed

end

lemma sample_summable: "summable_rows (tips_rows creator_db)"
  by (simp add: summable_rows_def tip_eval fits_decimal_def)

lemmas profile_eval = getTippingInfo_route_def getTippingInfo_def find_profile_def recent_tips_query_def
  stats_table_def tip_eval



text \<open>
  The tipping page of an active user without a wallet reports no tips, yet shows the five newest
  messages of the whole platform: the null wallet in the \<open>where\<close> of the messages restricts nothing.
\<close>

theorem walletless_page_shows_all_messages:
  assumes "tip_statistics Q" and "users_contract UR" and "tips_contract TR" and "summable_rows (tips_rows s)"
    and "users_ok (users_rows s)"
    and "u \<in> set (users_rows s)" and "u_username u = Some n" and "u_walletAddress u = None"
    and "getTippingInfo_route Q TR UR n s = (Inr info, s')"
  shows "ti_totalTipsReceived info = Fin 0 \<and> ti_topSupporter info = None
    \<and> (\<exists>ss. mset ss = {#t \<in># mset (tips_rows s). t_status t = COMPLETED#}
        \<and> sorted_wrt (order_by tip_col_le [(''createdAt'', ''DESC'')]) ss
        \<and> ti_recentMessages info = map message_of (take 5 ss))"
proof (rule getTippingInfo_InrE [OF assms(2,3) assms(9) [unfolded getTippingInfo_route_def]], goal_cases)
  case (1 v r tops ss)
  have "unique_col u_username (users_rows s)" using assms(5) by (simp add: users_ok_def)
  then have "v = u" using unique_colD 1(1,2) assms(6,7) by metis
  then have w: "u_walletAddress v = None" using assms(8) by simp
  then have none: "\<not> received v t" "\<not> named_received v t" for t
    by (simp_all add: received_def named_received_def)
  then have "tally (received v) (tips_rows s) = 0" by (simp add: tally_zero)
  then have "ti_totalTipsReceived info = Fin 0"
    using tip_statistics.sums [OF assms(1) 1(5) assms(4)] 1(10) by (simp add: stats_match_received)
  moreover have "tops = []"
    using tip_statistics.first_sender [OF assms(1) 1(6) assms(4) zero_less_one, unfolded stats_match_received] none
    by simp
  ultimately show ?case using 1(7,8,12,13) w by (auto simp: supporter_of_def)
qed

definition walletless_db :: database where
  "walletless_db = creator_db\<lparr>users_rows := [sample_creator\<lparr>u_walletAddress := None\<rparr>]\<rparr>"

lemma walletless_page_shows_all_messages_witness:
  "\<exists>info s'. getTippingInfo_route stats_table tips_table users_table ''cr'' walletless_db = (Inr info, s')
    \<and> ti_totalTipsReceived info = Fin 0 \<and> length (ti_recentMessages info) = 1"
proof -
  let ?u = "sample_creator\<lparr>u_walletAddress := None\<rparr>"
  obtain info s' where run: "getTippingInfo_route stats_table tips_table users_table ''cr'' walletless_db = (Inr info, s')"
    by (simp add: walletless_db_def profile_eval)
  have rows: "tips_rows walletless_db = [sample_tip ''1'' 10 5]" by (simp add: walletless_db_def creator_db_def)
  have "summable_rows (tips_rows walletless_db)" "users_ok (users_rows walletless_db)"
    "?u \<in> set (users_rows walletless_db)" "u_username ?u = Some ''cr''" "u_walletAddress ?u = None"
    using sample_summable by (simp_all add: walletless_db_def tip_eval)
  from walletless_page_shows_all_messages [OF table_stats.tip_statistics_axioms users_tbl.repository_axioms
      tips_tbl.repository_axioms this run]
  obtain ss where "ti_totalTipsReceived info = Fin 0"
    and "mset ss = {#t \<in># mset (tips_rows walletless_db). t_status t = COMPLETED#}"
    and "ti_recentMessages info = map message_of (take 5 ss)" by blast
  then have "ti_totalTipsReceived info = Fin 0" "ti_recentMessages info = [message_of (sample_tip ''1'' 10 5)]"
    by (simp_all add: rows sample_tip_def)
  with run show ?thesis by simp
qed

section \<open>Analytics\<close>

lemma getAnalytics_InrE:
  assumes con: "users_contract UR" and run: "getAnalytics Q UR ds now i period asset s = (Inr a, s')"
  obtains u w wa r as days tops where "u \<in> set (users_rows s)" and "u_id u = Some i" and "s' = s"
    and "w = any_stats\<lparr>sw_wallet := Some (u_walletAddress u),
      sw_from := analytics_start now (case period of None \<Rightarrow> ''30d'' | Some p \<Rightarrow> p)\<rparr>"
    and "wa = w\<lparr>sw_asset := map_option toUpperCase (or_null asset)\<rparr>"
    and "q_sums Q wa (tips_rows s) = Inr r" and "q_by_asset Q w (tips_rows s) = Inr as"
    and "q_by_day Q wa (tips_rows s) = Inr days"
    and "q_by_sender Q (wa\<lparr>sw_named := True\<rparr>) 5 (tips_rows s) = Inr tops"
    and "as_totalTipsReceived (an_summary a) = int_or_zero (rw_count r)"
    and "as_totalAmountReceived (an_summary a) = float_or_zero (rw_total r)"
    and "as_averageTipAmount (an_summary a)
      = js_div (js_round (js_mul (float_or_zero (rw_average r)) (Fin 10000000))) (Fin 10000000)"
    and "an_byAsset a = map (\<lambda>g. \<lparr>at_asset = str_or (Some (rg_key g)) ''XLM'',
        at_totalAmount = float_or_zero (rg_total g), at_tipCount = int_or_zero (rg_count g)\<rparr>) as"
    and "map tp_count (an_timeSeries a) = map (\<lambda>g. int_or_zero (rg_count g)) days"
    and "map tp_totalAmount (an_timeSeries a) = map (\<lambda>g. float_or_zero (rg_total g)) days"
    and "map sp_walletAddress (an_topSupporters a) = map rg_key tops"
    and "map sp_totalAmount (an_topSupporters a) = map (\<lambda>g. float_or_zero (rg_total g)) tops"
proof -
  let ?q = "(query_of [any_user\<lparr>uw_id := Some i\<rparr>])\<lparr>fo_select := Some [''id'', ''walletAddress'']\<rparr>"
  obtain v where f: "findOne UR ?q (users_rows s) = Inr (Some v)"
    using run by (cases "findOne UR ?q (users_rows s)") (auto simp: getAnalytics_def Let_def op_simps split: option.splits)
  obtain u where u: "u \<in> set (users_rows s)" "u_id u = Some i" "u_walletAddress v = u_walletAddress u"
    using repository.find_one_Some [OF con f] by (auto simp: selects_def selects_user user_view_def)
  define w where "w = any_stats\<lparr>sw_wallet := Some (u_walletAddress u),
      sw_from := analytics_start now (case period of None \<Rightarrow> ''30d'' | Some p \<Rightarrow> p)\<rparr>"
  define wa where "wa = w\<lparr>sw_asset := map_option toUpperCase (or_null asset)\<rparr>"
  note d = w_def [symmetric] wa_def [symmetric]
  have run1: "andThen (read_tips (q_sums Q wa))
         (\<lambda>summary. andThen (read_tips (q_by_asset Q w))
         (\<lambda>byAsset. andThen (read_tips (q_by_day Q wa))
         (\<lambda>timeSeries. andThen (read_tips (q_by_sender Q (wa\<lparr>sw_named := True\<rparr>) 5))
         (\<lambda>topSupporters. return_op
            \<lparr>an_summary = \<lparr>as_totalTipsReceived = int_or_zero (rw_count summary),
                as_totalAmountReceived = float_or_zero (rw_total summary),
                as_averageTipAmount = js_div (js_round (js_mul (float_or_zero (rw_average summary)) (Fin 10000000)))
                  (Fin 10000000),
                as_largestTipAmount = float_or_zero (rw_largest summary)\<rparr>,
             an_byAsset = map (\<lambda>g. \<lparr>at_asset = str_or (Some (rg_key g)) ''XLM'',
                at_totalAmount = float_or_zero (rg_total g), at_tipCount = int_or_zero (rg_count g)\<rparr>) byAsset,
             an_timeSeries = map (\<lambda>g. \<lparr>tp_date = ds (fst (rg_key g)),
                tp_count = int_or_zero (rg_count g), tp_totalAmount = float_or_zero (rg_total g),
                tp_asset = str_or (Some (snd (rg_key g))) ''XLM''\<rparr>) timeSeries,
             an_topSupporters = map (\<lambda>g. \<lparr>sp_walletAddress = rg_key g,
                sp_totalAmount = float_or_zero (rg_total g), sp_tipCount = int_or_zero (rg_count g),
                sp_lastTipAt = map_option through_date_string (rg_last g)\<rparr>) topSupporters,
             an_period = (case period of None \<Rightarrow> ''30d'' | Some p \<Rightarrow> p), an_generatedAt = toISOString now\<rparr>)))) s
    = (Inr a, s')"
    using run f by (simp add: getAnalytics_def op_simps u(3) w_def wa_def Let_def)
  obtain r "as" days tops where q: "q_sums Q wa (tips_rows s) = Inr r" "q_by_asset Q w (tips_rows s) = Inr as"
    "q_by_day Q wa (tips_rows s) = Inr days" "q_by_sender Q (wa\<lparr>sw_named := True\<rparr>) 5 (tips_rows s) = Inr tops"
    using run1 by (auto simp: op_simps split: sum.splits)
  show thesis
    by (rule that [OF u(1,2) _ w_def wa_def q]) (use run1 q in \<open>auto simp: op_simps\<close>)
qed

text \<open>The tips of a window: since its start, and of one asset when one is asked for.\<close>

definition in_window :: "user \<Rightarrow> int option option \<Rightarrow> string option \<Rightarrow> tip \<Rightarrow> bool" where
  "in_window u start asset t \<longleftrightarrow> received u t
     \<and> (case start of None \<Rightarrow> True | Some None \<Rightarrow> False
        | Some (Some d) \<Rightarrow> (case t_createdAt t of None \<Rightarrow> False | Some c \<Rightarrow> d \<le> c))
     \<and> (case or_null asset of None \<Rightarrow> True | Some a \<Rightarrow> asset_value (t_asset t) = toUpperCase a)"

lemma stats_match_window:
  "stats_match (any_stats\<lparr>sw_wallet := Some (u_walletAddress u), sw_from := start,
     sw_asset := map_option toUpperCase (or_null asset)\<rparr>) = in_window u start asset"
  "stats_match (any_stats\<lparr>sw_wallet := Some (u_walletAddress u), sw_from := start\<rparr>) = in_window u start None"
  by (auto simp: stats_match_def any_stats_def in_window_def received_def fun_eq_iff split: option.splits)

lemma round_average:
  assumes "\<bar>a\<bar> \<le> 10 ^ 14"
  shows "\<exists>r. js_div (js_round (js_mul (Fin a) (Fin 10000000))) (Fin 10000000) = Fin r
    \<and> \<bar>r - a\<bar> \<le> 1 / (2 * 10 ^ 7)"
proof -
  have 1: "to_number (a * 10000000) = Fin (a * 10000000)"
    using assms by (intro to_number_small) (simp add: abs_mult)
  define k where "k = \<lfloor>a * 10000000 + 1 / 2\<rfloor>"
  have k: "\<bar>of_int k - a * 10000000\<bar> \<le> 1 / 2" unfolding k_def by linarith
  have "\<bar>of_int k\<bar> \<le> \<bar>a * 10000000\<bar> + 1 / 2" using k by linarith
  also have "\<dots> \<le> 10 ^ 22" using assms by (simp add: abs_mult)
  finally have "\<bar>of_int k / 10000000 :: rat\<bar> \<le> 10 ^ 30" by (simp add: abs_divide)
  then have 2: "to_number (of_int k / 10000000) = Fin (of_int k / 10000000)" by (rule to_number_small)
  have "\<bar>of_int k / 10000000 - a\<bar> \<le> 1 / 20000000" using k by linarith
  then have "\<bar>of_int k / 10000000 - a\<bar> \<le> 1 / (2 * 10 ^ 7)" by simp
  with 1 2 show ?thesis by (intro exI [of _ "of_int k / 10000000"]) (simp flip: k_def)
qed

text \<open>The groups of a selection add up to it.\<close>

lemma groups_sum_up:
  assumes g: "groups_of key sel rows gs"
  shows "\<exists>ns. map (\<lambda>g. int_or_zero (rg_count g)) gs = map (\<lambda>n. Fin (of_nat n)) ns \<and> sum_list ns = tally sel rows"
    and "\<exists>xs. map (\<lambda>g. float_or_zero (rg_total g)) gs = map Fin xs \<and> sum_list xs = total_amount sel rows"
proof -
  have ks: "distinct (map rg_key gs)" "key ` {t \<in> set rows. sel t} \<subseteq> set (map rg_key gs)"
    using g by (auto simp: groups_of_def)
  let ?n = "\<lambda>g. tally (\<lambda>t. sel t \<and> key t = rg_key g) rows"
  let ?x = "\<lambda>g. total_amount (\<lambda>t. sel t \<and> key t = rg_key g) rows"
  have "\<forall>g\<in>set gs. int_or_zero (rg_count g) = Fin (of_nat (?n g)) \<and> float_or_zero (rg_total g) = Fin (?x g)"
    using g by (auto simp: groups_of_def group_of_def)
  moreover have "sum_list (map ?n gs) = tally sel rows" "sum_list (map ?x gs) = total_amount sel rows"
    using tally_by_key [OF ks] total_by_key [OF ks] by (simp_all add: comp_def)
  ultimately show "\<exists>ns. map (\<lambda>g. int_or_zero (rg_count g)) gs = map (\<lambda>n. Fin (of_nat n)) ns \<and> sum_list ns = tally sel rows"
    and "\<exists>xs. map (\<lambda>g. float_or_zero (rg_total g)) gs = map Fin xs \<and> sum_list xs = total_amount sel rows"
    by - (rule exI [of _ "map ?n gs"], simp, rule exI [of _ "map ?x gs"], simp)
qed


lemma sample_analytics:
  "\<exists>a. getAnalytics stats_table users_table (\<lambda>_. ''day'') 90 ''u1'' (Some ''all'') None creator_db = (Inr a, creator_db)"
  by (simp add: getAnalytics_def analytics_start_def stats_table_def tip_eval)


text \<open>
  The analytics of one user are answered to every other: the response cache keys a request by
  its URL, which does not name the user, so that for five minutes after a request any authenticated
  user who asks for the same period and asset gets the first user's figures.
\<close>

theorem analytics_cache_shared:
  assumes "result_cache rd wr stored ttl" and "track = rq_url"
    and "rd now (rq_url req) s = (Inr None, s1)"
    and "getAnalytics_route rd wr track Q UR date_string now req s = (Inr a, s')"
    and "rq_url req' = rq_url req" and "later < now + ttl"
  shows "getAnalytics_route rd wr track Q UR date_string later req' s' = (Inr (stored a), s')"
proof -
  have "andThen (getAnalytics Q UR date_string now (rq_user req) (rq_period req) (rq_asset req))
      (\<lambda>response. andThen (wr now (rq_url req) response) (\<lambda>_. return_op response)) s1 = (Inr a, s')"
    using assms(3,4) by (simp add: getAnalytics_route_def assms(2) andThen_def)
  then obtain s2 where "wr now (rq_url req) a s2 = (Inr (), s')"
    by (auto simp: return_op_apply elim!: andThen_InrE)
  from result_cache.hit_skips [OF assms(1) this assms(6)] show ?thesis
    unfolding getAnalytics_route_def assms(2,5) .
qed

text \<open>A store of responses in memory, with the five minutes the application configures.\<close>

record responses_state = database +
  responses :: "string \<Rightarrow> (int \<times> analytics) option"

definition read_response :: "int \<Rightarrow> string \<Rightarrow> (responses_state, analytics option) op" where
  "read_response now k = (\<lambda>s. (Inr (case responses s k of None \<Rightarrow> None
     | Some (expires, a) \<Rightarrow> if expires \<le> now then None else Some a), s))"

definition write_response :: "int \<Rightarrow> string \<Rightarrow> analytics \<Rightarrow> (responses_state, unit) op" where
  "write_response now k a = (\<lambda>s. (Inr (), s\<lparr>responses := (responses s)(k \<mapsto> (now + 300000, a))\<rparr>))"

interpretation response_cache: result_cache read_response write_response "\<lambda>a. a" 300000
  by unfold_locales (auto simp: read_response_def write_response_def split: option.splits)

definition sample_responses :: responses_state where
  "sample_responses = \<lparr>users_rows = [sample_creator, sample_creator\<lparr>u_id := Some ''u2'', u_username := Some ''other'',
     u_walletAddress := Some ''GX''\<rparr>], tips_rows = [sample_tip ''1'' 10 5], notifications_rows = [],
     tokens_rows = [], responses = (\<lambda>_. None)\<rparr>"

definition analytics_request :: "string \<Rightarrow> get_request" where
  "analytics_request u = \<lparr>rq_user = u, rq_url = ''/profiles/me/analytics'', rq_period = Some ''all'', rq_asset = None\<rparr>"

lemma analytics_cache_shared_witness:
  "\<exists>a s'. getAnalytics_route read_response write_response rq_url stats_table users_table (\<lambda>_. ''day'') 90
      (analytics_request ''u1'') sample_responses = (Inr a, s')
    \<and> getAnalytics_route read_response write_response rq_url stats_table users_table (\<lambda>_. ''day'') 100
      (analytics_request ''u2'') s' = (Inr a, s')"
proof -
  let ?run = "getAnalytics_route read_response write_response rq_url stats_table users_table (\<lambda>_. ''day'')"
  have miss: "read_response 90 (rq_url (analytics_request ''u1'')) sample_responses = (Inr None, sample_responses)"
    by (simp add: read_response_def sample_responses_def)
  obtain a s' where run: "?run 90 (analytics_request ''u1'') sample_responses = (Inr a, s')"
    by (simp add: getAnalytics_route_def getAnalytics_def analytics_start_def analytics_request_def sample_responses_def
        read_response_def write_response_def stats_table_def tip_eval andThen_assoc)
  have "?run 100 (analytics_request ''u2'') s' = (Inr a, s')"
    by (rule analytics_cache_shared [OF response_cache.result_cache_axioms refl miss run])
      (simp_all add: analytics_request_def)
  with run show ?thesis by blast
qed

section \<open>Updating one's own account\<close>

lemma own_user_InrE:
  assumes "users_contract UR" and "own_user UR i s = (Inr v, s1)"
  obtains r where "r \<in> set (users_rows s)" and "u_id r = Some i" and "v = r\<lparr>u_password := None\<rparr>" and "s1 = s"
proof -
  have "findOne UR (query_of [any_user\<lparr>uw_id := Some i\<rparr>]) (users_rows s) = Inr (Some v)" and s: "s1 = s"
    using assms(2) by (auto simp: own_user_def find_user_def op_simps split: sum.splits option.splits)
  from repository.find_one_Some [OF assms(1) this(1)] s that show thesis
    by (auto simp: selects_user user_view_def)
qed

lemma own_user_state: "own_user UR i s = (r, s1) \<Longrightarrow> s1 = s"
  by (auto simp: own_user_def find_user_def op_simps split: sum.splits option.splits)

text \<open>Saving a loaded user: the row keeps its password, and no other row changes.\<close>

lemma store_user_InrE:
  assumes con: "users_contract UR" and ok: "users_ok (users_rows s)"
    and r: "r \<in> set (users_rows s)" "u_id r = Some i" and e: "u_id e = Some i" "u_password e = None"
    and run: "store_user UR now e s = (Inr x, s')"
  obtains rows where "x = e" and "s' = s\<lparr>users_rows := rows\<rparr>" and "users_ok rows"
    and "mset rows = add_mset (e\<lparr>u_password := u_password r\<rparr>) (mset (users_rows s) - {#r#})"
proof -
  obtain rows where sv: "saveRow UR now e (users_rows s) = Inr (x, rows)" and s': "s' = s\<lparr>users_rows := rows\<rparr>"
    using run by (auto simp: store_user_def write_users_Inr_iff)
  have "x = e \<and> mset rows = add_mset (user_merge r e) (mset (users_rows s) - {#r#})"
    by (rule repository.save_update [OF con, OF sv ok r e(1) TrueI])
  moreover have "users_ok rows" by (rule repository.save_constraint [OF con sv ok])
  ultimately show thesis using that s' e(2) by (simp add: user_merge_def)
qed

text \<open>The columns that make up an account.\<close>

definition same_account :: "user \<Rightarrow> user \<Rightarrow> bool" where
  "same_account u v \<longleftrightarrow> u_id v = u_id u \<and> u_username v = u_username u \<and> u_email v = u_email u
     \<and> u_password v = u_password u \<and> u_authMethod v = u_authMethod u \<and> u_role v = u_role u
     \<and> u_isActive v = u_isActive u \<and> u_createdAt v = u_createdAt u"

text \<open>One user's row is replaced by another for the same account, and nothing else changes.\<close>

definition updates_account :: "string \<Rightarrow> (user \<Rightarrow> user \<Rightarrow> bool) \<Rightarrow> 'z database_scheme \<Rightarrow> 'z database_scheme \<Rightarrow> bool" where
  "updates_account i P s s' \<longleftrightarrow> (\<exists>r\<in>set (users_rows s). \<exists>r'. u_id r = Some i \<and> same_account r r' \<and> P r r'
     \<and> mset (users_rows s') = add_mset r' (mset (users_rows s) - {#r#}) \<and> users_ok (users_rows s')
     \<and> s' = s\<lparr>users_rows := users_rows s'\<rparr>)"

lemma update_own_account:
  assumes con: "users_contract UR" and ok: "users_ok (users_rows s)"
    and run: "andThen (own_user UR i) (\<lambda>u. store_user UR now (f u)) s = (Inr x, s')"
    and f: "\<And>u. u_id (f u) = u_id u \<and> u_password (f u) = u_password u"
    and acc: "\<And>u p. same_account (u\<lparr>u_password := p\<rparr>) ((f u)\<lparr>u_password := p\<rparr>)"
    and P: "\<And>r. P r ((f (r\<lparr>u_password := None\<rparr>))\<lparr>u_password := u_password r\<rparr>)"
  shows "updates_account i P s s'"
proof -
  obtain v s1 where v: "own_user UR i s = (Inr v, s1)" and sv: "store_user UR now (f v) s1 = (Inr x, s')"
    using run by (rule andThen_InrE)
  obtain r where r: "r \<in> set (users_rows s)" "u_id r = Some i" and v': "v = r\<lparr>u_password := None\<rparr>" and s1: "s1 = s"
    by (rule own_user_InrE [OF con v])
  have e: "u_id (f v) = Some i" "u_password (f v) = None" using f [of v] r v' by simp_all
  obtain rows where "s' = s\<lparr>users_rows := rows\<rparr>" "users_ok rows"
    "mset rows = add_mset ((f v)\<lparr>u_password := u_password r\<rparr>) (mset (users_rows s) - {#r#})"
    by (rule store_user_InrE [OF con ok r e sv [unfolded s1]])
  moreover have "same_account r ((f v)\<lparr>u_password := u_password r\<rparr>)"
    using acc [of "u_password r" v] v' by simp
  ultimately show ?thesis using r P [of r] v' by (auto simp: updates_account_def)
qed

lemma updateProfile_updates:
  assumes "users_contract UR" and "users_ok (users_rows s)" and "updateProfile UR now i dto s = (Inr x, s')"
  shows "updates_account i (\<lambda>r r'. u_walletAddress r' = u_walletAddress r \<and> u_socialLinks r' = u_socialLinks r
        \<and> u_displayName r' = (if maybe_truthy (up_displayName dto) then maybe_option (up_displayName dto) else u_displayName r)
        \<and> u_bio r' = (if up_bio dto = Undef then u_bio r else maybe_option (up_bio dto))
        \<and> u_avatarUrl r' = (if up_avatarUrl dto = Undef then u_avatarUrl r else maybe_option (up_avatarUrl dto))) s s'"
  by (rule update_own_account [OF assms(1,2) assms(3) [unfolded updateProfile_def Let_def]])
    (simp_all add: same_account_def)

lemma updateSocialLinks_updates:
  assumes "users_contract UR" and "users_ok (users_rows s)" and run: "updateSocialLinks UR now i links s = (Inr x, s')"
  shows "bad_link links = None \<and> updates_account i (\<lambda>r r'. r' = r\<lparr>u_socialLinks := Some links\<rparr>) s s'"
proof
  show none: "bad_link links = None"
    using run by (auto simp: updateSocialLinks_def op_simps elim!: andThen_InrE split: option.splits)
  show "updates_account i (\<lambda>r r'. r' = r\<lparr>u_socialLinks := Some links\<rparr>) s s'"
    by (rule update_own_account [OF assms(1,2) run [unfolded updateSocialLinks_def none option.case]])
      (simp_all add: same_account_def)
qed

lemma updateWalletAddress_updates:
  assumes "users_contract UR" and "users_ok (users_rows s)" and run: "updateWalletAddress UR now i wallet s = (Inr x, s')"
  shows "updates_account i (\<lambda>r r'. r' = r\<lparr>u_walletAddress := Some wallet\<rparr>) s s'"
proof -
  have "andThen (own_user UR i) (\<lambda>u. store_user UR now (u\<lparr>u_walletAddress := Some wallet\<rparr>)) s = (Inr x, s')"
    using run by (auto simp: updateWalletAddress_def find_user_def op_simps split: sum.splits option.splits if_splits)
  from update_own_account [OF assms(1,2) this] show ?thesis by (simp add: same_account_def)
qed

text \<open>
  C21. What a user can change about the own account: an accepted update of the profile rewrites the
  display name, the bio and the avatar address as asked, one of the links stores links that are
  empty or start with \<open>https://\<close>, one of the wallet stores the wallet; each rewrites that one row,
  keeps its identity, credentials, role and activity, the uniqueness of wallets, and everything else.
\<close>

theorem account_updates:
  assumes "users_contract UR" and "users_ok (users_rows s)"
  shows "(updateProfile_route UR now i dto s = (Inr x, s') \<longrightarrow>
      updates_account i (\<lambda>r r'. u_walletAddress r' = u_walletAddress r \<and> u_socialLinks r' = u_socialLinks r
        \<and> u_displayName r' = (if maybe_truthy (up_displayName dto) then maybe_option (up_displayName dto) else u_displayName r)
        \<and> u_bio r' = (if up_bio dto = Undef then u_bio r else maybe_option (up_bio dto))
        \<and> u_avatarUrl r' = (if up_avatarUrl dto = Undef then u_avatarUrl r else maybe_option (up_avatarUrl dto))) s s')
    \<and> (updateSocialLinks_route UR now i links s = (Inr x, s') \<longrightarrow> bad_link links = None
      \<and> updates_account i (\<lambda>r r'. r' = r\<lparr>u_socialLinks := Some links\<rparr>) s s')
    \<and> (updateWalletAddress UR now i wallet s = (Inr x, s') \<longrightarrow>
      updates_account i (\<lambda>r r'. r' = r\<lparr>u_walletAddress := Some wallet\<rparr>) s s')"
  unfolding updateProfile_route_def updateSocialLinks_route_def
  using updateProfile_updates [OF assms] updateSocialLinks_updates [OF assms] updateWalletAddress_updates [OF assms]
  by (intro conjI impI) auto

lemma account_updates_witness:
  "\<exists>x s'. updateProfile_route users_table 9 ''u1'' \<lparr>up_displayName = Val ''Me'', up_bio = Undef, up_avatarUrl = Null\<rparr>
       creator_db = (Inr x, s')
     \<and> (\<exists>r'\<in>set (users_rows s'). u_displayName r' = Some ''Me'' \<and> u_isActive r' = Some True)"
proof -
  let ?dto = "\<lparr>up_displayName = Val ''Me'', up_bio = Undef, up_avatarUrl = Null\<rparr>"
  obtain x s' where run: "updateProfile_route users_table 9 ''u1'' ?dto creator_db = (Inr x, s')"
    by (simp add: updateProfile_route_def updateProfile_def own_user_def store_user_def tip_eval andThen_assoc)
  have ok: "users_ok (users_rows creator_db)" by (simp add: tip_eval)
  obtain r r' where "r \<in> set (users_rows creator_db)" "same_account r r'" "u_displayName r' = Some ''Me''"
    and m: "mset (users_rows s') = add_mset r' (mset (users_rows creator_db) - {#r#})"
    using account_updates [OF users_tbl.repository_axioms ok, THEN conjunct1, rule_format, OF run]
    by (auto simp: updates_account_def)
  moreover from this have "u_isActive r' = Some True"
    by (simp add: creator_db_def sample_creator_def same_account_def)
  ultimately show ?thesis using run replaced_row(1) [OF m] by blast
qed

section \<open>Avatars\<close>

text \<open>The files after an upload: without the one the old address names, with the new one.\<close>

definition files_after :: "user \<Rightarrow> string \<Rightarrow> string \<Rightarrow> (string \<Rightarrow> string option) \<Rightarrow> string \<Rightarrow> string option" where
  "files_after u name content files =
     (case or_null (u_avatarUrl u) of None \<Rightarrow> files | Some url \<Rightarrow> files(basename url := None))(name \<mapsto> content)"

lemma uploadAvatar_InrE:
  fixes s :: "'z files_state_scheme"
  assumes con: "users_contract UR" and ok: "users_ok (users_rows s)"
    and run: "uploadAvatar UR disk now uuid i file s = (Inr url, s')"
  obtains r rows where "r \<in> set (users_rows s)" and "u_id r = Some i"
    and "uf_mimetype file \<in> set allowedMimeTypes" and "uf_size file \<le> 5242880"
    and "url = ''/uploads/avatars/'' @ uuid @ ''.'' @ extension (uf_originalname file)"
    and "s' = s\<lparr>users_rows := rows,
      avatar_files := files_after r (uuid @ ''.'' @ extension (uf_originalname file)) (uf_buffer file) (avatar_files s)\<rparr>"
    and "mset rows = add_mset (r\<lparr>u_avatarUrl := Some url\<rparr>) (mset (users_rows s) - {#r#})" and "users_ok rows"
proof -
  let ?name = "uuid @ ''.'' @ extension (uf_originalname file)"
  let ?del = "\<lambda>u :: user. case or_null (u_avatarUrl u) of None \<Rightarrow> return_op () | Some url \<Rightarrow> unlink_avatar (basename url)"
  have g: "uf_mimetype file \<in> set allowedMimeTypes" "uf_size file \<le> 5242880"
    using run by (auto simp: uploadAvatar_def op_simps split: if_splits)
  let ?k = "\<lambda>u. andThen (?del u) (\<lambda>_. andThen (write_avatar disk ?name (uf_buffer file))
       (\<lambda>_. andThen (store_user UR now (u\<lparr>u_avatarUrl := Some (''/uploads/avatars/'' @ ?name)\<rparr>))
       (\<lambda>_. return_op (''/uploads/avatars/'' @ ?name))))"
  have "andThen (own_user UR i) ?k s = (Inr url, s')"
    using run g by (simp add: uploadAvatar_def op_simps Let_def)
  then obtain v s1 where v: "own_user UR i s = (Inr v, s1)" and k: "?k v s1 = (Inr url, s')" by (rule andThen_InrE)
  obtain r where r: "r \<in> set (users_rows s)" "u_id r = Some i" and v': "v = r\<lparr>u_password := None\<rparr>" and s1: "s1 = s"
    by (rule own_user_InrE [OF con v])
  obtain x0 s2 where d: "?del v s = (Inr x0, s2)" and
    k2: "andThen (write_avatar disk ?name (uf_buffer file))
       (\<lambda>_. andThen (store_user UR now (v\<lparr>u_avatarUrl := Some (''/uploads/avatars/'' @ ?name)\<rparr>))
       (\<lambda>_. return_op (''/uploads/avatars/'' @ ?name))) s2 = (Inr url, s')"
    using k unfolding s1 by (rule andThen_InrE)
  obtain x1 s3 where w: "write_avatar disk ?name (uf_buffer file) s2 = (Inr x1, s3)"
    and k3: "andThen (store_user UR now (v\<lparr>u_avatarUrl := Some (''/uploads/avatars/'' @ ?name)\<rparr>))
       (\<lambda>_. return_op (''/uploads/avatars/'' @ ?name)) s3 = (Inr url, s')"
    using k2 by (rule andThen_InrE)
  obtain x s4 where sv4: "store_user UR now (v\<lparr>u_avatarUrl := Some (''/uploads/avatars/'' @ ?name)\<rparr>) s3 = (Inr x, s4)"
    and k4: "return_op (''/uploads/avatars/'' @ ?name) s4 = (Inr url, s')"
    using k3 by (rule andThen_InrE)
  have url: "url = ''/uploads/avatars/'' @ ?name" and sv: "store_user UR now
      (v\<lparr>u_avatarUrl := Some (''/uploads/avatars/'' @ ?name)\<rparr>) s3 = (Inr x, s')"
    using k4 sv4 by (simp_all add: return_op_apply)
  have s3: "s3 = s\<lparr>avatar_files := files_after r ?name (uf_buffer file) (avatar_files s)\<rparr>"
    using d w v' by (auto simp: files_after_def write_avatar_def unlink_avatar_def return_op_def split: option.splits)
  have rows3: "users_rows s3 = users_rows s" by (simp add: s3)
  obtain rows where "s' = s3\<lparr>users_rows := rows\<rparr>" "users_ok rows"
    "mset rows = add_mset (v\<lparr>u_avatarUrl := Some url, u_password := u_password r\<rparr>) (mset (users_rows s) - {#r#})"
    by (rule store_user_InrE [OF con _ _ r(2) _ _ sv, unfolded rows3]) (use ok r v' url in auto)
  then show thesis using that [OF r g url, of rows] s3 v' by simp
qed

text \<open>
  C22. An accepted upload of an avatar: the file is an image of at most five megabytes by its own
  account, its content is stored under the new name, the old file is removed, the address of the
  user's row becomes that of the new file, and every other row and table stays.
\<close>

theorem uploadAvatar_effect:
  fixes s :: "'z files_state_scheme"
  assumes "users_contract UR" and "users_ok (users_rows s)"
    and "uploadAvatar_route UR disk now uuid i file s = (Inr url, s')"
  shows "uf_mimetype file \<in> set allowedMimeTypes \<and> uf_size file \<le> 5242880
    \<and> (\<exists>r\<in>set (users_rows s). \<exists>name. u_id r = Some i \<and> url = ''/uploads/avatars/'' @ name
        \<and> name = uuid @ ''.'' @ extension (uf_originalname file)
        \<and> avatar_files s' name = Some (uf_buffer file)
        \<and> (\<forall>f. f \<noteq> name \<longrightarrow> avatar_files s' f = (if truthy (u_avatarUrl r) \<and> basename (the (u_avatarUrl r)) = f
              then None else avatar_files s f))
        \<and> mset (users_rows s') = add_mset (r\<lparr>u_avatarUrl := Some url\<rparr>) (mset (users_rows s) - {#r#})
        \<and> users_ok (users_rows s') \<and> tips_rows s' = tips_rows s \<and> notifications_rows s' = notifications_rows s
        \<and> tokens_rows s' = tokens_rows s)"
proof (rule uploadAvatar_InrE [OF assms(1,2) assms(3) [unfolded uploadAvatar_route_def]], goal_cases)
  case (1 r rows)
  then show ?case
    by (intro conjI bexI [of _ r] exI [of _ "uuid @ ''.'' @ extension (uf_originalname file)"])
      (auto simp: files_after_def or_null_def split: if_splits option.splits)
qed

definition sample_victim :: user where
  "sample_victim = sample_creator\<lparr>u_id := Some ''u2'', u_username := Some ''v'', u_walletAddress := None,
     u_avatarUrl := Some ''/uploads/avatars/v.png''\<rparr>"

definition sample_files :: files_state where
  "sample_files = \<lparr>users_rows = [sample_creator, sample_victim], tips_rows = [], notifications_rows = [],
     tokens_rows = [], localVerificationCache = (\<lambda>k. None), avatar_files = [''v.png'' \<mapsto> ''picture'']\<rparr>"

definition sample_upload :: uploaded_file where
  "sample_upload = \<lparr>uf_mimetype = ''image/png'', uf_size = 10, uf_originalname = ''me.png'', uf_buffer = ''image''\<rparr>"

lemma sample_files_ok: "users_ok (users_rows sample_files)"
  by (simp add: sample_files_def sample_victim_def tip_eval)

lemma sample_extension: "extension ''me.png'' = ''png''"
  by code_simp

lemmas upload_eval = uploadAvatar_route_def uploadAvatar_def own_user_def store_user_def sample_upload_def
  allowedMimeTypes_def write_avatar_def unlink_avatar_def sample_files_def sample_victim_def sample_extension

lemma uploadAvatar_effect_witness:
  "\<exists>s'. uploadAvatar_route users_table None 9 ''id'' ''u1'' sample_upload sample_files
       = (Inr ''/uploads/avatars/id.png'', s')
     \<and> avatar_files s' ''id.png'' = Some ''image'' \<and> avatar_files s' ''v.png'' = Some ''picture''"
proof -
  obtain s' where run: "uploadAvatar_route users_table None 9 ''id'' ''u1'' sample_upload sample_files
       = (Inr ''/uploads/avatars/id.png'', s')"
    by (simp add: upload_eval tip_eval andThen_assoc andThen_def)
  obtain r where "r \<in> set (users_rows sample_files)" "u_id r = Some ''u1''"
    "avatar_files s' ''id.png'' = Some ''image''"
    "\<forall>f. f \<noteq> ''id.png'' \<longrightarrow> avatar_files s' f = (if truthy (u_avatarUrl r) \<and> basename (the (u_avatarUrl r)) = f
              then None else avatar_files sample_files f)"
    using uploadAvatar_effect [OF users_tbl.repository_axioms sample_files_ok run]
    by (auto simp: sample_upload_def sample_extension)
  with run show ?thesis
    by (auto simp: sample_files_def sample_victim_def sample_creator_def new_user_def)
qed

lemma basename_last: "CHR ''/'' \<notin> set f \<Longrightarrow> f \<noteq> '''' \<Longrightarrow> basename (p @ ''/'' @ f) = f"
proof -
  assume f: "CHR ''/'' \<notin> set f" "f \<noteq> ''''"
  then obtain c g where rf: "rev f = c # g" by (cases "rev f") auto
  have "c \<in> set f" using rf by (metis list.set_intros(1) set_rev)
  then have "c \<noteq> CHR ''/''" using f(1) by blast
  then have 1: "dropWhile (\<lambda>c. c = CHR ''/'') (rev (p @ ''/'' @ f)) = rev f @ CHR ''/'' # rev p"
    using rf by simp
  have "takeWhile (\<lambda>c. c \<noteq> CHR ''/'') (rev f @ CHR ''/'' # rev p) = rev f"
    by (subst takeWhile_append2) (use f(1) in auto)
  then show ?thesis unfolding basename_def Let_def 1 by simp
qed

text \<open>
  A user can remove the avatar file of somebody else: after setting the own avatar address to any
  address that ends in the name of the other's file, which the profile accepts, the next upload
  removes that file, while the other user's row still refers to it.
\<close>

theorem avatar_of_another_user_removed:
  fixes s :: "'z files_state_scheme"
  assumes "users_contract UR" and "users_ok (users_rows s)"
    and "v \<in> set (users_rows s)" and "u_id v \<noteq> Some i" and "u_avatarUrl v = Some (''/uploads/avatars/'' @ f)"
    and "f \<noteq> ''''" and "CHR ''/'' \<notin> set f" and "f \<noteq> uuid @ ''.'' @ extension (uf_originalname file)"
    and "up_avatarUrl dto = Val (p @ ''/'' @ f)"
    and "updateProfile_route UR now i dto s = (Inr x, s1)"
    and "uploadAvatar_route UR disk now' uuid i file s1 = (Inr url, s')"
  shows "v \<in> set (users_rows s') \<and> avatar_files s' f = None"
proof -
  obtain r r' where r: "r \<in> set (users_rows s)" "u_id r = Some i" "u_id r' = u_id r"
    and a: "u_avatarUrl r' = Some (p @ ''/'' @ f)"
    and m: "mset (users_rows s1) = add_mset r' (mset (users_rows s) - {#r#})" and ok: "users_ok (users_rows s1)"
    using updateProfile_updates [OF assms(1,2) assms(10) [unfolded updateProfile_route_def]] assms(9)
    by (auto simp: updates_account_def same_account_def)
  have v1: "v \<in> set (users_rows s1)" using replaced_row(2) [OF m assms(3)] r(2) assms(4) by auto
  have r1: "r' \<in> set (users_rows s1)" by (rule replaced_row(1) [OF m])
  show ?thesis
  proof (rule uploadAvatar_InrE [OF assms(1) ok assms(11) [unfolded uploadAvatar_route_def]], goal_cases)
    case (1 q rows)
    have "q = r'" using keyedD [of u_id "users_rows s1" q r'] ok 1(1,2) r1 r by (simp add: users_ok_def)
    then have "avatar_files s' f = None"
      using 1(6) a assms(8) basename_last [OF assms(7,6), of p] by (simp add: files_after_def)
    moreover have "v \<in> set (users_rows s')"
      using replaced_row(2) [OF 1(7) v1] 1(2,6) assms(4) by auto
    ultimately show ?case by simp
  qed
qed

lemma avatar_of_another_user_removed_witness:
  "\<exists>x s1 url s'. updateProfile_route users_table 9 ''u1''
       \<lparr>up_displayName = Undef, up_bio = Undef, up_avatarUrl = Val ''https://x.io/v.png''\<rparr> sample_files = (Inr x, s1)
     \<and> uploadAvatar_route users_table None 10 ''id'' ''u1'' sample_upload s1 = (Inr url, s')
     \<and> sample_victim \<in> set (users_rows s') \<and> avatar_files sample_files ''v.png'' = Some ''picture''
     \<and> avatar_files s' ''v.png'' = None"
proof -
  let ?dto = "\<lparr>up_displayName = Undef, up_bio = Undef, up_avatarUrl = Val ''https://x.io/v.png''\<rparr>"
  let ?s1 = "sample_files\<lparr>users_rows := [sample_creator\<lparr>u_avatarUrl := Some ''https://x.io/v.png''\<rparr>, sample_victim]\<rparr>"
  obtain x where r1: "updateProfile_route users_table 9 ''u1'' ?dto sample_files = (Inr x, ?s1)"
    by (simp add: updateProfile_route_def updateProfile_def upload_eval tip_eval andThen_assoc)
  have b: "basename ''https://x.io/v.png'' = ''v.png''" by code_simp
  obtain url s' where r2: "uploadAvatar_route users_table None 10 ''id'' ''u1'' sample_upload ?s1 = (Inr url, s')"
    by (simp add: upload_eval tip_eval andThen_assoc andThen_def b)
  have "sample_victim \<in> set (users_rows s') \<and> avatar_files s' ''v.png'' = None"
    by (rule avatar_of_another_user_removed [OF users_tbl.repository_axioms sample_files_ok _ _ _ _ _ _ _ r1 r2,
          where p = "''https://x.io''"])
      (simp_all add: sample_files_def sample_victim_def sample_creator_def sample_upload_def sample_extension)
  moreover have "avatar_files sample_files ''v.png'' = Some ''picture''" by (simp add: sample_files_def)
  ultimately show ?thesis using r1 r2 by blast
qed

end
