(* ===== verification/Redis_Wire.thy ===== *)
theory Redis_Wire
  imports Js_Values
begin

text \<open>
  The connection of the rate limiter to Redis (\<open>RedisCommandConnection\<close> of
  \<open>src/src/config/redis-throttler.storage.ts\<close>): the commands it writes, the parser of the replies,
  and the buffer that collects the chunks the socket delivers. A string is the sequence of its
  bytes. The listeners of a socket run in the order in which they were registered.
\<close>

section \<open>Commands\<close>

definition crlf :: string where
  "crlf = [CHR 0x0D, CHR 0x0A]"

definition serialize :: "string list \<Rightarrow> string" where
  "serialize args = ''*'' @ show_nat (length args) @ crlf
     @ concat (map (\<lambda>value. ''$'' @ show_nat (length value) @ crlf @ value @ crlf) args)"

section \<open>Replies\<close>

datatype reply =
    RString string
  | RNumber jsnum
  | RNull
  | RArray "reply list"

text \<open>
  \<open>Incomplete\<close> is the result \<open>null\<close>, \<open>Failed\<close> an exception, and \<open>Malformed\<close> a length that no Redis
  server sends (not a whole number, or infinite), after which the offsets mean nothing.
\<close>

datatype parsed = Incomplete | Failed string | Malformed | Parsed reply nat

text \<open>\<open>buffer.indexOf('\r\n', offset)\<close> and \<open>buffer.toString('utf8', start, end)\<close>\<close>

fun crlf_index :: "string \<Rightarrow> nat option" where
  "crlf_index (a # b # s) =
     (if a = CHR 0x0D \<and> b = CHR 0x0A then Some 0 else map_option Suc (crlf_index (b # s)))"
| "crlf_index _ = None"

definition indexOf_crlf :: "string \<Rightarrow> nat \<Rightarrow> nat option" where
  "indexOf_crlf buf offset = map_option (\<lambda>i. offset + i) (crlf_index (drop offset buf))"

definition slice :: "string \<Rightarrow> nat \<Rightarrow> nat \<Rightarrow> string" where
  "slice buf start finish = take (finish - start) (drop start buf)"

text \<open>The length of a bulk string, \<open>Some None\<close> standing for \<open>-1\<close>, and the rounds of the array's loop.\<close>

definition bulk_length :: "string \<Rightarrow> nat option option" where
  "bulk_length line = (case js_Number line of
      Fin r \<Rightarrow> if r = -1 then Some None
               else if 0 \<le> r \<and> of_int \<lfloor>r\<rfloor> = r then Some (Some (nat \<lfloor>r\<rfloor>)) else None
    | _ \<Rightarrow> None)"

definition array_length :: "string \<Rightarrow> nat option" where
  "array_length line = (case js_Number line of
      Fin r \<Rightarrow> Some (nat \<lceil>r\<rceil>) | PosInf \<Rightarrow> None | _ \<Rightarrow> Some 0)"

fun parse_values :: "(nat \<Rightarrow> parsed) \<Rightarrow> nat \<Rightarrow> nat \<Rightarrow> reply list \<Rightarrow> parsed" where
  "parse_values p 0 currentOffset values = Parsed (RArray values) currentOffset"
| "parse_values p (Suc n) currentOffset values =
     (case p currentOffset of
        Parsed v offset \<Rightarrow> parse_values p n offset (values @ [v])
      | r \<Rightarrow> r)"

text \<open>The recursion into arrays, by fuel: every level consumes bytes, so that the buffer's length is enough.\<close>

fun parse_at :: "nat \<Rightarrow> string \<Rightarrow> nat \<Rightarrow> parsed" where
  "parse_at 0 buf offset = Malformed"
| "parse_at (Suc fuel) buf offset =
     (if offset \<ge> length buf then Incomplete
      else case indexOf_crlf buf offset of
        None \<Rightarrow> Incomplete
      | Some lineEnd \<Rightarrow>
          (let prefix = buf ! offset;
               line = slice buf (offset + 1) lineEnd;
               nextOffset = lineEnd + 2
           in if prefix = CHR ''+'' then Parsed (RString line) nextOffset
              else if prefix = CHR ''-'' then Failed line
              else if prefix = CHR '':'' then Parsed (RNumber (js_Number line)) nextOffset
              else if prefix = CHR ''$'' then
                (case bulk_length line of
                   None \<Rightarrow> Malformed
                 | Some None \<Rightarrow> Parsed RNull nextOffset
                 | Some (Some len) \<Rightarrow>
                     if length buf < nextOffset + len + 2 then Incomplete
                     else Parsed (RString (slice buf nextOffset (nextOffset + len))) (nextOffset + len + 2))
              else if prefix = CHR ''*'' then
                (case array_length line of
                   None \<Rightarrow> Malformed
                 | Some n \<Rightarrow> parse_values (parse_at fuel buf) n nextOffset [])
              else Failed (''Unsupported Redis response prefix: '' @ [prefix])))"

definition parse :: "string \<Rightarrow> nat \<Rightarrow> parsed" where
  "parse buf offset = parse_at (Suc (length buf)) buf offset"

section \<open>Collecting the chunks\<close>

text \<open>
  The listener of one command: what it does with a chunk, and the buffer it leaves. A rejected
  command leaves the buffer as it is.
\<close>

datatype outcome = Waiting | Resolved reply | Rejected string | Undetermined

definition onData :: "string \<Rightarrow> string \<Rightarrow> outcome \<times> string" where
  "onData buffer chunk =
     (let buffer' = buffer @ chunk
      in case parse buffer' 0 of
           Incomplete \<Rightarrow> (Waiting, buffer')
         | Parsed v offset \<Rightarrow> (Resolved v, drop offset buffer')
         | Failed e \<Rightarrow> (Rejected e, buffer')
         | Malformed \<Rightarrow> (Undetermined, buffer'))"

text \<open>The chunks that arrive while one command waits, until it is settled.\<close>

fun receive :: "string \<Rightarrow> string list \<Rightarrow> outcome \<times> string" where
  "receive buffer [] = (Waiting, buffer)"
| "receive buffer (c # cs) =
     (case onData buffer c of
        (Waiting, buffer') \<Rightarrow> receive buffer' cs
      | r \<Rightarrow> r)"

text \<open>
  A chunk that arrives while several commands wait: every listener gets it, each appends it to the
  one buffer and parses from the start. The result has the buffer, the commands that still wait,
  and those that are settled.
\<close>

fun emit :: "string \<Rightarrow> 'k list \<Rightarrow> string \<Rightarrow> string \<times> 'k list \<times> ('k \<times> outcome) list" where
  "emit buffer [] chunk = (buffer, [], [])"
| "emit buffer (k # ks) chunk =
     (let (out, buffer') = onData buffer chunk;
          (buffer'', waiting, settled) = emit buffer' ks chunk
      in if out = Waiting then (buffer'', k # waiting, settled)
         else (buffer'', waiting, (k, out) # settled))"

section \<open>The parser\<close>

lemma crlf_index_bound: "crlf_index s = Some i \<Longrightarrow> i + 1 < length s"
  by (induction s arbitrary: i rule: crlf_index.induct) (auto split: if_splits)

lemma indexOf_crlf_bound: "indexOf_crlf buf offset = Some e \<Longrightarrow> offset \<le> e \<and> e + 1 < length buf"
  using crlf_index_bound [of "drop offset buf"] by (auto simp: indexOf_crlf_def)

lemma parse_values_advance:
  assumes "\<And>o1 v o2. p o1 = Parsed v o2 \<Longrightarrow> o1 \<le> o2"
  shows "parse_values p n off acc = Parsed v off' \<Longrightarrow> off \<le> off'"
proof (induction n arbitrary: off acc)
  case 0
  then show ?case by simp
next
  case (Suc n)
  then obtain w o2 where o2: "p off = Parsed w o2" "parse_values p n o2 (acc @ [w]) = Parsed v off'"
    by (cases "p off") simp_all
  from assms [OF o2(1)] Suc.IH [OF o2(2)] show ?case by simp
qed

text \<open>A parsed reply ends behind its start.\<close>

lemma parse_at_advance: "parse_at n buf off = Parsed v off' \<Longrightarrow> off < off'"
proof (induction n arbitrary: off v off')
  case 0
  then show ?case by simp
next
  case (Suc n)
  show ?case
  proof (cases "indexOf_crlf buf off")
    case None
    with Suc.prems show ?thesis by (simp split: if_splits)
  next
    case (Some e)
    have "e + 2 \<le> off'" if "parse_values (parse_at n buf) k (e + 2) [] = Parsed v off'" for k
      by (rule parse_values_advance [OF _ that]) (simp add: Suc.IH less_imp_le)
    with Suc.prems Some indexOf_crlf_bound [OF Some] show ?thesis
      by (auto simp: Let_def split: if_splits option.splits) fastforce+
  qed
qed

lemma parse_values_cong:
  assumes "\<And>o'. off \<le> o' \<Longrightarrow> p o' = q o'" and "\<And>o1 v o2. p o1 = Parsed v o2 \<Longrightarrow> o1 \<le> o2"
  shows "parse_values p n off acc = parse_values q n off acc"
  using assms(1)
proof (induction n arbitrary: off acc)
  case 0
  show ?case by simp
next
  case (Suc n)
  have "p off = q off" using Suc.prems by simp
  moreover have "parse_values p n o2 a = parse_values q n o2 a" if "p off = Parsed v o2" for v o2 a
    using Suc.IH [of o2 a] Suc.prems assms(2) [OF that] by simp
  ultimately show ?case by (simp split: parsed.splits)
qed

text \<open>Fuel beyond the bytes that are left changes nothing.\<close>

lemma parse_at_fuel: "length buf - off < n \<Longrightarrow> length buf - off < m \<Longrightarrow> parse_at n buf off = parse_at m buf off"
proof (induction n arbitrary: m off)
  case 0
  then show ?case by simp
next
  case (Suc n)
  obtain m' where m: "m = Suc m'" using Suc.prems(2) by (cases m) auto
  show ?case
  proof (cases "off < length buf \<and> indexOf_crlf buf off \<noteq> None")
    case False
    then show ?thesis by (auto simp: m)
  next
    case True
    then obtain e where e: "indexOf_crlf buf off = Some e" and off: "off < length buf" by auto
    have "parse_values (parse_at n buf) k (e + 2) [] = parse_values (parse_at m' buf) k (e + 2) []" for k
    proof (rule parse_values_cong)
      show "parse_at n buf o' = parse_at m' buf o'" if "e + 2 \<le> o'" for o'
        using Suc.prems m that indexOf_crlf_bound [OF e] off by (intro Suc.IH) auto
      show "o1 \<le> o2" if "parse_at n buf o1 = Parsed v o2" for o1 v o2
        using parse_at_advance [OF that] by simp
    qed
    then show ?thesis by (simp add: m e Let_def split: option.split)
  qed
qed

section \<open>The replies of a server\<close>

text \<open>The replies of the protocol, how a server writes them, and the values they stand for.\<close>

datatype wire =
    WSimple string
  | WInteger int
  | WBulk string
  | WNull
  | WArray "wire list"

fun encode :: "wire \<Rightarrow> string" where
  "encode (WSimple s) = ''+'' @ s @ crlf"
| "encode (WInteger i) = '':'' @ show_int i @ crlf"
| "encode (WBulk s) = ''$'' @ show_nat (length s) @ crlf @ s @ crlf"
| "encode WNull = ''$'' @ show_int (- 1) @ crlf"
| "encode (WArray ws) = ''*'' @ show_nat (length ws) @ crlf @ concat (map encode ws)"

fun reply_of :: "wire \<Rightarrow> reply" where
  "reply_of (WSimple s) = RString s"
| "reply_of (WInteger i) = RNumber (Fin (of_int i))"
| "reply_of (WBulk s) = RString s"
| "reply_of WNull = RNull"
| "reply_of (WArray ws) = RArray (map reply_of ws)"

text \<open>A simple string holds no line break; lengths and integers are not astronomically large.\<close>

fun sendable :: "wire \<Rightarrow> bool" where
  "sendable (WSimple s) \<longleftrightarrow> CHR 0x0D \<notin> set s"
| "sendable (WInteger i) \<longleftrightarrow> \<bar>i\<bar> \<le> 10 ^ 30"
| "sendable (WBulk s) \<longleftrightarrow> length s \<le> 10 ^ 30"
| "sendable WNull \<longleftrightarrow> True"
| "sendable (WArray ws) \<longleftrightarrow> length ws \<le> 10 ^ 30 \<and> (\<forall>w\<in>set ws. sendable w)"

lemma serialize_encode: "serialize args = encode (WArray (map WBulk args))"
  by (simp add: serialize_def comp_def)

subsection \<open>Numbers on a line\<close>

lemma digit_not_special: "is_digit c \<Longrightarrow> c \<noteq> CHR ''-'' \<and> c \<noteq> CHR ''+'' \<and> c \<noteq> CHR 0x0D \<and> c \<noteq> CHR ''I''
    \<and> to_lower_char c = c \<and> c \<noteq> CHR ''x'' \<and> c \<noteq> CHR ''o'' \<and> c \<noteq> CHR ''b''"
  by (auto simp: is_digit_def char_code_def to_lower_char_def)

lemma trim_no_space: "\<forall>c\<in>set s. \<not> is_space c \<Longrightarrow> trim s = s"
proof -
  assume s: "\<forall>c\<in>set s. \<not> is_space c"
  have dw: "dropWhile is_space x = x" if "\<forall>c\<in>set x. \<not> is_space c" for x
    using that by (cases x) auto
  show ?thesis using s by (simp add: trim_def trim_start_def trim_end_def dw [of s] dw [of "rev s"])
qed

lemma scan_unsigned_nat: "scan_unsigned (show_nat n) = Some (of_nat n, '''')"
proof -
  have "takeWhile is_digit (show_nat n) = show_nat n" "dropWhile is_digit (show_nat n) = ''''"
    using show_nat_digits by (simp_all add: takeWhile_eq_all_conv dropWhile_eq_Nil_conv)
  then show ?thesis
    by (simp add: scan_unsigned_def Let_def scan_exponent_def pow10_def del: takeWhile_eq_all_conv dropWhile_eq_Nil_conv)
qed

lemma show_nat_Cons: "\<exists>c t. show_nat n = c # t \<and> is_digit c"
  using show_nat_digits [of n] by (cases "show_nat n") auto

lemma radix_prefix_digits: "\<forall>c\<in>set s. is_digit c \<or> c = CHR ''-'' \<Longrightarrow> radix_prefix s = None"
proof -
  assume d: "\<forall>c\<in>set s. is_digit c \<or> c = CHR ''-''"
  have "\<forall>c\<in>set (take 2 s). to_lower_char c \<noteq> CHR ''x'' \<and> to_lower_char c \<noteq> CHR ''o'' \<and> to_lower_char c \<noteq> CHR ''b''"
    using d digit_not_special by (force dest: in_set_takeD simp: to_lower_char_def char_code_def)
  then have "CHR ''x'' \<notin> set (toLowerCase (take 2 s))" "CHR ''o'' \<notin> set (toLowerCase (take 2 s))"
    "CHR ''b'' \<notin> set (toLowerCase (take 2 s))" by (auto simp: toLowerCase_def)
  then have "toLowerCase (take 2 s) \<noteq> ''0x'' \<and> toLowerCase (take 2 s) \<noteq> ''0o'' \<and> toLowerCase (take 2 s) \<noteq> ''0b''"
    by (metis list.set_intros(1,2))
  then show ?thesis by (simp add: radix_prefix_def Let_def)
qed

lemma js_Number_show_int: "\<bar>i\<bar> \<le> 10 ^ 30 \<Longrightarrow> js_Number (show_int i) = Fin (of_int i)"
proof -
  assume i: "\<bar>i\<bar> \<le> 10 ^ 30"
  let ?n = "nat \<bar>i\<bar>"
  obtain c t where n: "show_nat ?n = c # t" and c: "is_digit c" using show_nat_Cons by blast
  have chars: "\<forall>c\<in>set (show_int i). is_digit c \<or> c = CHR ''-''"
    using show_nat_digits by (auto simp: show_int_def)
  have "\<not> is_space CHR ''-''" by (simp add: is_space_def char_code_def)
  with chars have "trim (show_int i) = show_int i"
    using char_code_of_digit by (intro trim_no_space) blast
  moreover have "radix_prefix (show_int i) = None" by (rule radix_prefix_digits [OF chars])
  moreover have "show_int i \<noteq> ''''" by (simp add: show_int_def)
  moreover have "scan_decimal (show_int i) = Some (to_number (of_int i), '''')"
  proof (cases "i < 0")
    case True
    then show ?thesis
      using scan_unsigned_nat [of "nat (- i)"] n digit_not_special [OF c]
      by (simp add: show_int_def scan_decimal_def scan_sign_def startsWith_def)
  next
    case False
    then show ?thesis
      using scan_unsigned_nat [of "nat i"] n digit_not_special [OF c]
      by (simp add: show_int_def scan_decimal_def scan_sign_def startsWith_def)
  qed
  moreover have "to_number (of_int i) = Fin (of_int i)"
  proof (rule to_number_small)
    have "of_int \<bar>i\<bar> \<le> (of_int (10 ^ 30) :: rat)" using i by (simp only: of_int_le_iff)
    then show "\<bar>of_int i :: rat\<bar> \<le> 10 ^ 30" by simp
  qed
  ultimately show ?thesis by (simp add: js_Number_def Let_def)
qed

lemma js_Number_show_nat: "n \<le> 10 ^ 30 \<Longrightarrow> js_Number (show_nat n) = Fin (of_nat n)"
proof -
  assume "n \<le> 10 ^ 30"
  then have "int n \<le> int (10 ^ 30)" by (simp only: of_nat_le_iff)
  then have "\<bar>int n\<bar> \<le> 10 ^ 30" by simp
  from js_Number_show_int [OF this] show ?thesis by (simp add: show_int_def)
qed

lemma lengths_of_shown:
  "n \<le> 10 ^ 30 \<Longrightarrow> bulk_length (show_nat n) = Some (Some n)" "bulk_length (show_int (- 1)) = Some None"
  "n \<le> 10 ^ 30 \<Longrightarrow> array_length (show_nat n) = Some n"
  using js_Number_show_int [of "- 1"]
  by (simp_all add: bulk_length_def array_length_def js_Number_show_nat)

lemma line_no_cr: "CHR 0x0D \<notin> set (show_nat n)" "CHR 0x0D \<notin> set (show_int i)"
  using show_nat_digits digit_not_special by (auto simp: show_int_def)

subsection \<open>A line in the buffer\<close>

lemma crlf_index_line:
  "CHR 0x0D \<notin> set l \<Longrightarrow> crlf_index (l @ crlf @ rest) = Some (length l)"
proof (induction l)
  case Nil
  show ?case by (simp add: crlf_def)
next
  case (Cons a l)
  then show ?case by (cases "l @ crlf @ rest") (auto simp: crlf_def)
qed

lemma crlf_index_none: "CHR 0x0D \<notin> set l \<Longrightarrow> crlf_index l = None"
  by (induction l rule: crlf_index.induct) auto

lemma crlf_index_cut: "CHR 0x0D \<notin> set l \<Longrightarrow> crlf_index (l @ [CHR 0x0D]) = None"
proof (induction l)
  case Nil
  show ?case by simp
next
  case (Cons a l)
  then show ?case by (cases "l @ [CHR 0x0D]") auto
qed

text \<open>What the parser does with a complete line.\<close>

definition after_line :: "nat \<Rightarrow> string \<Rightarrow> char \<Rightarrow> string \<Rightarrow> nat \<Rightarrow> parsed" where
  "after_line fuel buf prefix line nextOffset =
     (if prefix = CHR ''+'' then Parsed (RString line) nextOffset
      else if prefix = CHR ''-'' then Failed line
      else if prefix = CHR '':'' then Parsed (RNumber (js_Number line)) nextOffset
      else if prefix = CHR ''$'' then
        (case bulk_length line of
           None \<Rightarrow> Malformed
         | Some None \<Rightarrow> Parsed RNull nextOffset
         | Some (Some len) \<Rightarrow>
             if length buf < nextOffset + len + 2 then Incomplete
             else Parsed (RString (slice buf nextOffset (nextOffset + len))) (nextOffset + len + 2))
      else if prefix = CHR ''*'' then
        (case array_length line of
           None \<Rightarrow> Malformed
         | Some n \<Rightarrow> parse_values (parse_at fuel buf) n nextOffset [])
      else Failed (''Unsupported Redis response prefix: '' @ [prefix]))"

lemma parse_at_line:
  assumes c: "c \<noteq> CHR 0x0D" and l: "CHR 0x0D \<notin> set line"
  shows "parse_at (Suc fuel) (pre @ c # line @ crlf @ rest) (length pre)
    = after_line fuel (pre @ c # line @ crlf @ rest) c line (length pre + length line + 3)"
proof -
  have "indexOf_crlf (pre @ c # line @ crlf @ rest) (length pre) = Some (length pre + Suc (length line))"
    using crlf_index_line [of "c # line" rest] c l by (simp add: indexOf_crlf_def)
  then show ?thesis
    by (simp add: after_line_def slice_def nth_append Let_def numeral_3_eq_3)
qed

lemma length_crlf [simp]: "length crlf = 2"
  by (simp add: crlf_def)

lemma slice_mid: "slice (a @ s @ b) (length a) (length a + length s) = s"
  by (simp add: slice_def)

lemma slice_body: "slice (pre @ c # l @ crlf @ s @ r) (length pre + length l + 3) (length pre + length l + 3 + length s) = s"
  using slice_mid [of "pre @ c # l @ crlf" s r] by (simp add: add.assoc numeral_3_eq_3)

text \<open>A line that is cut before its end is incomplete.\<close>

lemma parse_at_cut_line:
  assumes c: "c \<noteq> CHR 0x0D" and l: "CHR 0x0D \<notin> set line" and k: "k < length line + 3"
  shows "parse_at (Suc fuel) (pre @ take k (c # line @ crlf)) (length pre) = Incomplete"
proof -
  have cl: "CHR 0x0D \<notin> set (c # line)" using c l by auto
  have t: "take k (c # line @ crlf) = take k (c # line) \<or> take k (c # line @ crlf) = c # line @ [CHR 0x0D]"
  proof (cases "k \<le> length (c # line)")
    case True
    then have "take k ((c # line) @ crlf) = take k (c # line)" by (simp only: take_append) simp
    then show ?thesis by simp
  next
    case False
    then have "k = Suc (length (c # line))" using k by simp
    then have "take k ((c # line) @ crlf) = (c # line) @ [CHR 0x0D]" by (simp add: crlf_def)
    then show ?thesis by simp
  qed
  have "CHR 0x0D \<notin> set (take k (c # line))" using cl by (meson in_set_takeD)
  then have "crlf_index (take k (c # line @ crlf)) = None"
    using t crlf_index_none crlf_index_cut [OF cl] by fastforce
  then show ?thesis by (simp add: indexOf_crlf_def)
qed

section \<open>Round trip\<close>

lemma parse_values_encode:
  assumes IH: "\<And>w pre rest. w \<in> set ws \<Longrightarrow> p (pre @ encode w @ rest) (length pre)
      = Parsed (reply_of w) (length pre + length (encode w))"
  shows "parse_values (p (pre @ concat (map encode ws) @ rest)) (length ws) (length pre) acc
    = Parsed (RArray (acc @ map reply_of ws)) (length pre + length (concat (map encode ws)))"
  using assms
proof (induction ws arbitrary: pre acc)
  case Nil
  then show ?case by simp
next
  case (Cons w ws)
  have "p (pre @ encode w @ (concat (map encode ws) @ rest)) (length pre)
      = Parsed (reply_of w) (length pre + length (encode w))"
    by (rule Cons.prems) simp
  moreover have "parse_values (p ((pre @ encode w) @ concat (map encode ws) @ rest)) (length ws)
      (length (pre @ encode w)) (acc @ [reply_of w])
    = Parsed (RArray ((acc @ [reply_of w]) @ map reply_of ws)) (length (pre @ encode w) + length (concat (map encode ws)))"
    by (rule Cons.IH) (use Cons.prems in auto)
  ultimately show ?case by (simp add: add.assoc)
qed

lemma encode_not_empty: "encode w \<noteq> ''''"
  by (cases w) simp_all

text \<open>The fuel that a reply takes: the depth of its arrays.\<close>

fun depth :: "wire \<Rightarrow> nat" where
  "depth (WArray ws) = Suc (Max (insert 0 (set (map depth ws))))"
| "depth _ = 0"

lemma depth_element: "w \<in> set ws \<Longrightarrow> depth w < depth (WArray ws)"
  by (simp add: less_Suc_eq_le)

lemma depth_length: "depth w < length (encode w)"
proof (induction w)
  case (WArray ws)
  have len: "length (encode w) \<le> length (concat (map encode ws))" if "w \<in> set ws" for w
    using that by (induction ws) auto
  have "depth w < length (concat (map encode ws)) + 1" if "w \<in> set ws" for w
    using WArray [OF that] len [OF that] by linarith
  then have "Max (insert 0 (set (map depth ws))) < length (concat (map encode ws)) + 1"
    by (subst Max_less_iff) auto
  moreover have "length (concat (map encode ws)) + 2 \<le> length (encode (WArray ws))" by simp
  ultimately show ?case unfolding depth.simps by linarith
qed (simp_all add: encode_not_empty)

lemma parse_at_encode:
  "sendable w \<Longrightarrow> depth w < n \<Longrightarrow>
   parse_at n (pre @ encode w @ rest) (length pre) = Parsed (reply_of w) (length pre + length (encode w))"
proof (induction n arbitrary: w pre rest)
  case 0
  then show ?case by simp
next
  case (Suc n)
  show ?case
  proof (cases w)
    case (WSimple s)
    then show ?thesis
      using parse_at_line [of "CHR ''+''" s n pre rest] Suc.prems
      by (simp add: after_line_def del: parse_at.simps)
  next
    case (WInteger i)
    then show ?thesis
      using parse_at_line [of "CHR '':''" "show_int i" n pre rest] Suc.prems
      by (simp add: after_line_def line_no_cr js_Number_show_int del: parse_at.simps)
  next
    case (WBulk s)
    then show ?thesis
      using parse_at_line [of "CHR ''$''" "show_nat (length s)" n pre "s @ crlf @ rest"] Suc.prems
      slice_body [of pre "CHR ''$''" "show_nat (length s)" s "crlf @ rest"]
      by (simp add: after_line_def line_no_cr lengths_of_shown del: parse_at.simps)
  next
    case WNull
    then show ?thesis
      using parse_at_line [of "CHR ''$''" "show_int (- 1)" n pre rest] Suc.prems
      by (simp add: after_line_def line_no_cr lengths_of_shown del: parse_at.simps)
  next
    case (WArray ws)
    let ?h = "''*'' @ show_nat (length ws) @ crlf"
    have "parse_values (parse_at n ((pre @ ?h) @ concat (map encode ws) @ rest)) (length ws) (length (pre @ ?h)) []
      = Parsed (RArray ([] @ map reply_of ws)) (length (pre @ ?h) + length (concat (map encode ws)))"
    proof (rule parse_values_encode)
      fix v pre rest
      assume v: "v \<in> set ws"
      show "parse_at n (pre @ encode v @ rest) (length pre) = Parsed (reply_of v) (length pre + length (encode v))"
        using Suc.prems v depth_element [OF v] unfolding WArray by (intro Suc.IH) auto
    qed
    moreover have "parse_at (Suc n) (pre @ CHR ''*'' # show_nat (length ws) @ crlf @ concat (map encode ws) @ rest) (length pre)
      = after_line n (pre @ CHR ''*'' # show_nat (length ws) @ crlf @ concat (map encode ws) @ rest) CHR ''*''
          (show_nat (length ws)) (length pre + length (show_nat (length ws)) + 3)"
      by (rule parse_at_line) (simp_all add: line_no_cr)
    ultimately show ?thesis
      using Suc.prems unfolding WArray
      by (simp add: after_line_def lengths_of_shown add.assoc numeral_3_eq_3 del: parse_at.simps)
  qed
qed

lemma parse_encode:
  assumes "sendable w"
  shows "parse (encode w @ rest) 0 = Parsed (reply_of w) (length (encode w))"
  using parse_at_encode [of w "Suc (length (encode w @ rest))" "''''" rest] depth_length [of w] assms
  by (simp add: parse_def)

section \<open>Replies that are cut\<close>

lemma parse_values_cut:
  assumes whole: "\<And>w pre rest. w \<in> set ws \<Longrightarrow> p (pre @ encode w @ rest) (length pre)
      = Parsed (reply_of w) (length pre + length (encode w))"
    and cut: "\<And>w pre k. w \<in> set ws \<Longrightarrow> k < length (encode w) \<Longrightarrow>
      p (pre @ take k (encode w)) (length pre) = Incomplete"
    and k: "k < length (concat (map encode ws))"
  shows "parse_values (p (pre @ take k (concat (map encode ws)))) (length ws) (length pre) acc = Incomplete"
  using assms
proof (induction ws arbitrary: pre acc k)
  case Nil
  then show ?case by simp
next
  case (Cons w ws)
  show ?case
  proof (cases "k < length (encode w)")
    case True
    have "p (pre @ take k (encode w)) (length pre) = Incomplete"
      by (rule Cons.prems(2)) (use True in auto)
    then show ?thesis using True by simp
  next
    case False
    have "p (pre @ encode w @ take (k - length (encode w)) (concat (map encode ws))) (length pre)
        = Parsed (reply_of w) (length pre + length (encode w))"
      by (rule Cons.prems(1)) simp
    moreover have "parse_values (p ((pre @ encode w) @ take (k - length (encode w)) (concat (map encode ws))))
        (length ws) (length (pre @ encode w)) (acc @ [reply_of w]) = Incomplete"
      by (rule Cons.IH) (use Cons.prems False in auto)
    ultimately show ?thesis using False by simp
  qed
qed

lemma parse_at_cut:
  "sendable w \<Longrightarrow> depth w < n \<Longrightarrow> k < length (encode w) \<Longrightarrow>
   parse_at n (pre @ take k (encode w)) (length pre) = Incomplete"
proof (induction n arbitrary: w pre k)
  case 0
  then show ?case by simp
next
  case (Suc n)
  show ?case
  proof (cases w)
    case (WSimple s)
    then show ?thesis
      using parse_at_cut_line [of "CHR ''+''" s k n pre] Suc.prems by (simp del: parse_at.simps)
  next
    case (WInteger i)
    then show ?thesis
      using parse_at_cut_line [of "CHR '':''" "show_int i" k n pre] Suc.prems
      by (simp add: line_no_cr del: parse_at.simps)
  next
    case WNull
    then show ?thesis
      using parse_at_cut_line [of "CHR ''$''" "show_int (- 1)" k n pre] Suc.prems
      by (simp add: line_no_cr del: parse_at.simps)
  next
    case (WBulk s)
    let ?l = "show_nat (length s)"
    show ?thesis
    proof (cases "k < length ?l + 3")
      case True
      then have "take k (encode w) = take k (CHR ''$'' # ?l @ crlf)"
        unfolding WBulk by (simp add: take_Cons' )
      then show ?thesis using parse_at_cut_line [OF _ line_no_cr(1) True] by simp
    next
      case False
      define r where "r = take (k - (length ?l + 3)) (s @ crlf)"
      have t: "take k (encode w) = CHR ''$'' # ?l @ crlf @ r"
        using False unfolding WBulk r_def by (simp add: take_Cons' numeral_3_eq_3)
      have "length r < length s + 2" using Suc.prems(3) False unfolding WBulk r_def by simp
      then show ?thesis
        using parse_at_line [of "CHR ''$''" ?l n pre r] Suc.prems(1) WBulk unfolding t
        by (simp add: after_line_def line_no_cr lengths_of_shown del: parse_at.simps)
    qed
  next
    case (WArray ws)
    let ?l = "show_nat (length ws)"
    show ?thesis
    proof (cases "k < length ?l + 3")
      case True
      then have "take k (encode w) = take k (CHR ''*'' # ?l @ crlf)"
        unfolding WArray by (simp add: take_Cons')
      then show ?thesis using parse_at_cut_line [OF _ line_no_cr(1) True] by simp
    next
      case False
      define j where "j = k - (length ?l + 3)"
      let ?r = "take j (concat (map encode ws))"
      have t: "take k (encode w) = CHR ''*'' # ?l @ crlf @ ?r"
        using False unfolding WArray j_def by (simp add: take_Cons' numeral_3_eq_3)
      have "parse_values (parse_at n ((pre @ CHR ''*'' # ?l @ crlf) @ ?r)) (length ws)
          (length (pre @ CHR ''*'' # ?l @ crlf)) [] = Incomplete"
      proof (rule parse_values_cut)
        show "j < length (concat (map encode ws))"
          using Suc.prems(3) False unfolding WArray j_def by simp
      next
        fix v pre rest
        assume v: "v \<in> set ws"
        show "parse_at n (pre @ encode v @ rest) (length pre) = Parsed (reply_of v) (length pre + length (encode v))"
          using Suc.prems v depth_element [OF v] unfolding WArray by (intro parse_at_encode) auto
      next
        fix v pre i
        assume v: "v \<in> set ws" and i: "i < length (encode v)"
        show "parse_at n (pre @ take i (encode v)) (length pre) = Incomplete"
          using Suc.prems v i depth_element [OF v] unfolding WArray by (intro Suc.IH) auto
      qed
      then show ?thesis
        using parse_at_line [of "CHR ''*''" ?l n pre ?r] Suc.prems(1) WArray unfolding t
        by (simp add: after_line_def line_no_cr lengths_of_shown numeral_3_eq_3 del: parse_at.simps)
    qed
  qed
qed

lemma parse_cut: 
  assumes "sendable w" and "k < length (encode w)"
  shows "parse (take k (encode w)) 0 = Incomplete"
proof -
  let ?n = "Suc (max (length (take k (encode w))) (depth w))"
  have "parse (take k (encode w)) 0 = parse_at ?n (take k (encode w)) 0"
    unfolding parse_def by (rule parse_at_fuel) auto
  also have "\<dots> = Incomplete"
    using parse_at_cut [of w ?n k "''''"] assms by (simp del: parse_at.simps)
  finally show ?thesis .
qed

text \<open>A server that reads a command finds the arguments again.\<close>

lemma parse_serialize:
  assumes "length args \<le> 10 ^ 30" and "\<forall>a\<in>set args. length a \<le> 10 ^ 30"
  shows "parse (serialize args @ rest) 0 = Parsed (RArray (map RString args)) (length (serialize args))"
  using parse_encode [of "WArray (map WBulk args)" rest] assms
  by (simp add: serialize_encode comp_def del: encode.simps)



end
