(* ===== verification/Redis_Connection.thy ===== *)
theory Redis_Connection
  imports Redis_Wire
begin

text \<open>
  The life of the connection to Redis (\<open>src/src/config/redis-throttler.storage.ts\<close>): where it connects
  to, the commands that wait for a reply, and what chunks, errors and the end of a socket do to
  them. The commands are named by a type of the model. The bytes that a socket delivers are the
  server's, any sequence of chunks.
\<close>

section \<open>Where to connect\<close>

text \<open>The fields of the parsed \<open>REDIS_URL\<close>; \<open>decodeURIComponent\<close> is a parameter (\<open>None\<close>: it throws).\<close>

record redis_url =
  url_hostname :: string
  url_port :: string
  url_password :: string
  url_pathname :: string

record redis_target =
  target_host :: string
  target_port :: jsnum
  target_password :: "string option"
  target_database :: "string option"

definition redis_target_of :: "(string \<Rightarrow> string option) \<Rightarrow> redis_url \<Rightarrow> redis_target option" where
  "redis_target_of decodeURIComponent parsed =
     (case (if url_password parsed = '''' then Some None
            else map_option Some (decodeURIComponent (url_password parsed))) of
        None \<Rightarrow> None
      | Some pw \<Rightarrow> Some \<lparr>
          target_host = (if url_hostname parsed = '''' then ''localhost'' else url_hostname parsed),
          target_port = js_Number (if url_port parsed = '''' then ''6379'' else url_port parsed),
          target_password = pw,
          target_database = (if url_pathname parsed \<noteq> '''' \<and> url_pathname parsed \<noteq> ''/''
            then Some (drop 1 (url_pathname parsed)) else None)\<rparr>)"

text \<open>The commands that a new socket sends first, one after the other.\<close>

definition handshake :: "redis_target \<Rightarrow> string list list" where
  "handshake target =
     (case target_password target of
        Some p \<Rightarrow> if p = '''' then [] else [[''AUTH'', p]] | None \<Rightarrow> [])
     @ (case target_database target of
        Some d \<Rightarrow> if d = '''' then [] else [[''SELECT'', d]] | None \<Rightarrow> [])"

section \<open>Events of a connection\<close>

text \<open>
  The buffer belongs to the connection, the waiting commands to its present socket. \<open>Issue\<close> is the
  start of a command on that socket, or on a new one when it is destroyed; \<open>Closed\<close> is the end of the socket without
  an error, of which no listener of a command takes note.
\<close>

record 'k connection =
  buffer :: string
  pending :: "'k list"
  destroyed :: bool

datatype 'k event = Issue 'k | WriteFailed 'k string | Data string | SocketError string | Closed

fun connection_step :: "'k event \<Rightarrow> 'k connection \<Rightarrow> 'k connection \<times> ('k \<times> outcome) list" where
  "connection_step (Issue k) c =
     (if destroyed c then (c\<lparr>pending := [k], destroyed := False\<rparr>, [])
      else (c\<lparr>pending := pending c @ [k]\<rparr>, []))"
| "connection_step (WriteFailed k e) c =
     (if k \<in> set (pending c) then (c\<lparr>pending := filter (\<lambda>j. j \<noteq> k) (pending c)\<rparr>, [(k, Rejected e)])
      else (c, []))"
| "connection_step (Data chunk) c =
     (let (buf, waiting, settled) = emit (buffer c) (pending c) chunk
      in (c\<lparr>buffer := buf, pending := waiting\<rparr>, settled))"
| "connection_step (SocketError e) c =
     (c\<lparr>pending := [], destroyed := True\<rparr>, map (\<lambda>k. (k, Rejected e)) (pending c))"
| "connection_step Closed c = (c\<lparr>pending := [], destroyed := True\<rparr>, [])"

fun connection_run :: "'k event list \<Rightarrow> 'k connection \<Rightarrow> 'k connection \<times> ('k \<times> outcome) list" where
  "connection_run [] c = (c, [])"
| "connection_run (e # es) c =
     (let (c', out) = connection_step e c; (c'', outs) = connection_run es c' in (c'', out @ outs))"

definition idle :: "'k connection" where
  "idle = \<lparr>buffer = '''', pending = [], destroyed = False\<rparr>"

lemma connection_run_append:
  "connection_run (es @ fs) c =
     (let (c', out) = connection_run es c; (c'', outs) = connection_run fs c' in (c'', out @ outs))"
  by (induction es arbitrary: c) (simp_all add: split_beta Let_def)

section \<open>One command at a time\<close>

lemma onData_encode:
  assumes "sendable w" and "b @ chunk = encode w @ rest"
  shows "onData b chunk = (Resolved (reply_of w), rest)"
  using assms(2) parse_encode [OF assms(1), of rest] by (simp add: onData_def)

lemma onData_cut:
  assumes "sendable w" and "b @ chunk @ later = encode w" and "later \<noteq> ''''"
  shows "onData b chunk = (Waiting, b @ chunk)"
proof -
  have "take (length (b @ chunk)) (encode w) = b @ chunk" unfolding assms(2) [symmetric] by simp
  moreover have "length (b @ chunk) < length (encode w)"
    unfolding assms(2) [symmetric] using assms(3) by simp
  ultimately have "parse (b @ chunk) 0 = Incomplete" using parse_cut [OF assms(1)] by metis
  then show ?thesis by (simp add: onData_def)
qed

lemma run_reply:
  assumes "sendable w" and "\<forall>c\<in>set cs. c \<noteq> ''''" and "cs \<noteq> []" and "b @ concat cs = encode w"
  shows "connection_run (map Data cs) \<lparr>buffer = b, pending = [k], destroyed = False\<rparr>
    = (idle, [(k, Resolved (reply_of w))])"
  using assms(2-)
proof (induction cs arbitrary: b)
  case Nil
  then show ?case by simp
next
  case (Cons c cs)
  show ?case
  proof (cases "cs = []")
    case True
    then show ?thesis
      using onData_encode [OF assms(1), of b c "''''"] Cons.prems by (simp add: idle_def)
  next
    case False
    then have "concat cs \<noteq> ''''" using Cons.prems(1) by (cases cs) auto
    then have "onData b c = (Waiting, b @ c)"
      using onData_cut [OF assms(1)] Cons.prems(3) by simp
    then show ?thesis using Cons.IH [of "b @ c"] Cons.prems False by simp
  qed
qed

lemma run_sequential:
  assumes "\<forall>(k, w, cs)\<in>set xs. sendable w \<and> concat cs = encode w \<and> (\<forall>c\<in>set cs. c \<noteq> '''')"
  shows "connection_run (concat (map (\<lambda>(k, w, cs). Issue k # map Data cs) xs)) idle
    = (idle, map (\<lambda>(k, w, cs). (k, Resolved (reply_of w))) xs)"
  using assms
proof (induction xs)
  case Nil
  then show ?case by simp
next
  case (Cons x xs)
  obtain k w cs where x: "x = (k, w, cs)" by (cases x)
  have w: "sendable w" "concat cs = encode w" "\<forall>c\<in>set cs. c \<noteq> ''''" using Cons.prems x by auto
  then have "cs \<noteq> []" using encode_not_empty [of w] by auto
  then have "connection_run (map Data cs) \<lparr>buffer = '''', pending = [k], destroyed = False\<rparr>
      = (idle, [(k, Resolved (reply_of w))])"
    using run_reply [of w cs "''''" k] w by simp
  then have "connection_run (Issue k # map Data cs) idle = (idle, [(k, Resolved (reply_of w))])"
    by (simp add: idle_def)
  moreover have "connection_run (concat (map (\<lambda>(k, w, cs). Issue k # map Data cs) xs)) idle
      = (idle, map (\<lambda>(k, w, cs). (k, Resolved (reply_of w))) xs)"
    using Cons.IH Cons.prems by simp
  ultimately show ?case
    unfolding x list.map concat.simps prod.case connection_run_append by simp
qed

section \<open>Commands that wait together\<close>

lemma emit_shared:
  assumes "sendable w" and "ks \<noteq> []"
  shows "emit '''' ks (encode w) = ('''', [], map (\<lambda>k. (k, Resolved (reply_of w))) ks)"
  using assms(2)
proof (induction ks)
  case Nil
  then show ?case by simp
next
  case (Cons k ks)
  then show ?case using onData_encode [OF assms(1), of "''''" "encode w" "''''"] by (cases ks) simp_all
qed

lemma run_issue:
  "\<not> destroyed c \<Longrightarrow> connection_run (map Issue ks) c = (c\<lparr>pending := pending c @ ks\<rparr>, [])"
  by (induction ks arbitrary: c) simp_all

section \<open>After an error reply\<close>

text \<open>A buffer that starts with an error line is never parsed past it.\<close>

definition poisoned :: "string \<Rightarrow> string \<Rightarrow> bool" where
  "poisoned msg buf \<longleftrightarrow> CHR 0x0D \<notin> set msg \<and> (\<exists>rest. buf = ''-'' @ msg @ crlf @ rest)"

lemma poisoned_onData:
  assumes "poisoned msg (b @ chunk)"
  shows "onData b chunk = (Rejected msg, b @ chunk)"
proof -
  obtain rest where cr: "CHR 0x0D \<notin> set msg" and b: "b @ chunk = CHR ''-'' # msg @ crlf @ rest"
    using assms by (auto simp: poisoned_def)
  have "parse (b @ chunk) 0 = Failed msg"
    using parse_at_line [of "CHR ''-''" msg "length (b @ chunk)" "''''" rest] cr
    unfolding parse_def b by (simp add: after_line_def del: parse_at.simps)
  then show ?thesis by (simp add: onData_def)
qed

lemma poisoned_append: "poisoned msg b \<Longrightarrow> poisoned msg (b @ chunk)"
  unfolding poisoned_def by auto

lemma poisoned_emit:
  "poisoned msg b \<Longrightarrow> emit b ks chunk = (b', waiting, settled) \<Longrightarrow>
   poisoned msg b' \<and> waiting = [] \<and> snd ` set settled \<subseteq> {Rejected msg}"
proof (induction ks arbitrary: b b' waiting settled)
  case Nil
  then show ?case by simp
next
  case (Cons k ks)
  have o: "onData b chunk = (Rejected msg, b @ chunk)"
    by (rule poisoned_onData) (rule poisoned_append [OF Cons.prems(1)])
  obtain b2 w2 s2 where e: "emit (b @ chunk) ks chunk = (b2, w2, s2)" by (metis prod_cases3)
  with o Cons.prems(2) have "b' = b2" "waiting = w2" "settled = (k, Rejected msg) # s2" by simp_all
  with Cons.IH [OF poisoned_append [OF Cons.prems(1)] e] show ?case by simp
qed

lemma poisoned_step:
  "poisoned msg (buffer c) \<Longrightarrow> connection_step e c = (c', out) \<Longrightarrow>
   poisoned msg (buffer c') \<and> (\<forall>r\<in>snd ` set out. \<exists>m. r = Rejected m)"
proof (cases e)
  case (Data chunk)
  assume p: "poisoned msg (buffer c)" and s: "connection_step e c = (c', out)"
  obtain b w ss where em: "emit (buffer c) (pending c) chunk = (b, w, ss)" by (metis prod_cases3)
  with s Data have "buffer c' = b" "out = ss" by auto
  with poisoned_emit [OF p em] show ?thesis by auto
qed (auto split: if_splits)

lemma poisoned_run:
  "poisoned msg (buffer c) \<Longrightarrow> connection_run es c = (c', outs) \<Longrightarrow>
   poisoned msg (buffer c') \<and> (\<forall>r\<in>snd ` set outs. \<exists>m. r = Rejected m)"
proof (induction es arbitrary: c outs)
  case Nil
  then show ?case by simp
next
  case (Cons e es)
  obtain c1 out where s: "connection_step e c = (c1, out)" by fastforce
  obtain outs' where r: "connection_run es c1 = (c', outs')" "outs = out @ outs'"
    using Cons.prems(2) s by (auto split: prod.splits)
  from poisoned_step [OF Cons.prems(1) s] Cons.IH [OF _ r(1)] r(2) show ?case by auto
qed

end
