(* ===== verification/Throttler.thy ===== *)
theory Throttler
  imports Redis_Connection
begin

text \<open>
  Rate limiting: the key of a request (\<open>generateKey\<close> in \<open>src/src/app.module.ts\<close>), the Lua script and
  \<open>RedisThrottlerStorage.increment\<close> (\<open>src/src/config/redis-throttler.storage.ts\<close>). The commands of Redis
  that the script calls are a parameter; a script runs without interruption, at one time of the
  server's clock, in milliseconds.
\<close>

section \<open>The Redis commands of the script\<close>

record 's redis =
  redis_get :: "int \<Rightarrow> string \<Rightarrow> 's \<Rightarrow> int option"
  redis_pttl :: "int \<Rightarrow> string \<Rightarrow> 's \<Rightarrow> int"
  redis_incr :: "int \<Rightarrow> string \<Rightarrow> 's \<Rightarrow> int \<times> 's"
  redis_pexpire :: "int \<Rightarrow> string \<Rightarrow> int \<Rightarrow> 's \<Rightarrow> 's"
  redis_set_px :: "int \<Rightarrow> string \<Rightarrow> int \<Rightarrow> int \<Rightarrow> 's \<Rightarrow> 's"

text \<open>
  \<open>redis_get\<close> and \<open>redis_set_px\<close> have the value as a number, which is all the script stores.
  The documented behaviour is stated over the entries that are alive at a time, a value and a time of expiry.
\<close>

type_synonym entry = "int \<times> int option"

fun alive :: "int \<Rightarrow> entry option \<Rightarrow> entry option" where
  "alive t (Some (v, Some e)) = (if t < e then Some (v, Some e) else None)"
| "alive t x = x"

fun ttl_of :: "int \<Rightarrow> entry option \<Rightarrow> int" where
  "ttl_of now None = -2"
| "ttl_of now (Some (v, None)) = -1"
| "ttl_of now (Some (v, Some e)) = e - now"

locale redis_server =
  fixes R :: "'s redis" and view :: "int \<Rightarrow> 's \<Rightarrow> string \<Rightarrow> entry option"
  assumes view_later: "now \<le> t \<Longrightarrow> view t s k = alive t (view now s k)"
    and get: "redis_get R now k s = map_option fst (view now s k)"
    and pttl: "redis_pttl R now k s = ttl_of now (view now s k)"
    and incr: "redis_incr R now k s = (n, s') \<Longrightarrow>
      n = (case view now s k of None \<Rightarrow> 1 | Some (v, e) \<Rightarrow> v + 1) \<and>
      view now s' = (view now s)(k \<mapsto> (n, case view now s k of None \<Rightarrow> None | Some (v, e) \<Rightarrow> e))"
    and pexpire: "view now s k = Some (v, e) \<Longrightarrow> 0 < ms \<Longrightarrow>
      view now (redis_pexpire R now k ms s) = (view now s)(k \<mapsto> (v, Some (now + ms)))"
    and set_px: "0 < ms \<Longrightarrow>
      view now (redis_set_px R now k v ms s) = (view now s)(k \<mapsto> (v, Some (now + ms)))"

section \<open>The script\<close>

text \<open>The four numbers of the reply and the new state.\<close>

definition throttle_script ::
  "'s redis \<Rightarrow> int \<Rightarrow> string \<Rightarrow> string \<Rightarrow> int \<Rightarrow> int \<Rightarrow> int \<Rightarrow> 's \<Rightarrow> int list \<times> 's" where
  "throttle_script R now hitsKey blockKey ttl limit blockDuration s =
     (let blockTtl = redis_pttl R now blockKey s
      in if blockTtl > 0 then
           (let currentHits = (case redis_get R now hitsKey s of None \<Rightarrow> 0 | Some h \<Rightarrow> h);
                hitTtl = redis_pttl R now hitsKey s
            in ([currentHits, hitTtl, 1, blockTtl], s))
         else
           (let (hits, s1) = redis_incr R now hitsKey s;
                s2 = (if hits = 1 then redis_pexpire R now hitsKey ttl s1 else s1);
                hitTtl = redis_pttl R now hitsKey s2
            in if hits > limit
               then ([hits, hitTtl, 1, blockDuration], redis_set_px R now blockKey 1 blockDuration s2)
               else ([hits, hitTtl, 0, 0], s2)))"

section \<open>The record of a request\<close>

definition js_max0 :: "jsnum \<Rightarrow> jsnum" where
  "js_max0 x = (if x = NaN then NaN else if js_lt (Fin 0) x then x else Fin 0)"

definition millisecondsToSeconds :: "jsnum \<Rightarrow> jsnum" where
  "millisecondsToSeconds milliseconds = js_max0 (js_ceil (js_div milliseconds (Fin 1000)))"

text \<open>
  \<open>result[i]\<close>: \<open>Undef\<close> for an index that is not there, and no result at all when \<open>result\<close> is null.
  A string has characters.
\<close>

fun index_reply :: "reply \<Rightarrow> nat \<Rightarrow> reply maybe" where
  "index_reply (RArray vs) i = (if i < length vs then (if vs ! i = RNull then Null else Val (vs ! i)) else Undef)"
| "index_reply (RString s) i = (if i < length s then Val (RString [s ! i]) else Undef)"
| "index_reply _ i = Undef"

fun reply_or :: "reply maybe \<Rightarrow> reply \<Rightarrow> reply" where
  "reply_or (Val v) d = v"
| "reply_or _ d = d"

fun reply_truthy :: "reply maybe \<Rightarrow> bool" where
  "reply_truthy (Val (RString s)) = (s \<noteq> '''')"
| "reply_truthy (Val (RNumber n)) = num_truthy n"
| "reply_truthy (Val RNull) = False"
| "reply_truthy (Val (RArray vs)) = True"
| "reply_truthy _ = False"

text \<open>The operand of the division; a nested array, which the script never sends, has no number here.\<close>

fun reply_number :: "reply \<Rightarrow> jsnum option" where
  "reply_number (RNumber n) = Some n"
| "reply_number (RString s) = Some (js_Number s)"
| "reply_number RNull = Some (Fin 0)"
| "reply_number (RArray vs) = None"

record throttler_record =
  totalHits :: reply
  timeToExpire :: jsnum
  isBlocked :: bool
  timeToBlockExpire :: jsnum

text \<open>The record when Redis fails: the request is allowed.\<close>

definition fallback_record :: "jsnum \<Rightarrow> throttler_record" where
  "fallback_record ttl = \<lparr>totalHits = RNumber (Fin 0), timeToExpire = millisecondsToSeconds ttl,
     isBlocked = False, timeToBlockExpire = Fin 0\<rparr>"

text \<open>
  \<open>increment\<close> from the outcome of its command on; it gives no record while the command waits.
  Reading an index of null throws, which the same handler catches.
\<close>

fun increment_record :: "jsnum \<Rightarrow> outcome \<Rightarrow> throttler_record option" where
  "increment_record ttl (Resolved RNull) = Some (fallback_record ttl)"
| "increment_record ttl (Resolved result) =
     (case (reply_number (reply_or (index_reply result 1) (RNumber ttl)),
            reply_number (reply_or (index_reply result 3) (RNumber (Fin 0)))) of
        (Some expire, Some block) \<Rightarrow> Some \<lparr>
          totalHits = reply_or (index_reply result 0) (RNumber (Fin 0)),
          timeToExpire = millisecondsToSeconds expire,
          isBlocked = reply_truthy (index_reply result 2),
          timeToBlockExpire = millisecondsToSeconds block\<rparr>
      | _ \<Rightarrow> None)"
| "increment_record ttl (Rejected e) = Some (fallback_record ttl)"
| "increment_record ttl _ = None"

text \<open>The keys and the command of \<open>increment\<close>; \<open>script\<close> is the text of the script.\<close>

definition hits_key :: "string \<Rightarrow> string" where
  "hits_key key = key @ '':hits''"

definition blocked_key :: "string \<Rightarrow> string" where
  "blocked_key key = key @ '':blocked''"

definition increment_command :: "string \<Rightarrow> string \<Rightarrow> nat \<Rightarrow> nat \<Rightarrow> nat \<Rightarrow> string list" where
  "increment_command script key ttl limit blockDuration =
     [''EVAL'', script, show_nat 2, hits_key key, blocked_key key,
      show_nat ttl, show_nat limit, show_nat blockDuration]"

text \<open>\<open>increment\<close> on a connection that delivers the script's reply.\<close>

definition increment ::
  "'s redis \<Rightarrow> int \<Rightarrow> string \<Rightarrow> int \<Rightarrow> int \<Rightarrow> int \<Rightarrow> 's \<Rightarrow> throttler_record option \<times> 's" where
  "increment R now key ttl limit blockDuration s =
     (let (numbers, s') = throttle_script R now (hits_key key) (blocked_key key) ttl limit blockDuration s
      in (increment_record (Fin (of_int ttl)) (Resolved (reply_of (WArray (map WInteger numbers)))), s'))"

text \<open>The requests of one key at the given times, one after the other.\<close>

fun increments ::
  "'s redis \<Rightarrow> int \<Rightarrow> int \<Rightarrow> int \<Rightarrow> (int \<times> string) list \<Rightarrow> 's \<Rightarrow> throttler_record option list \<times> 's" where
  "increments R ttl limit blockDuration [] s = ([], s)"
| "increments R ttl limit blockDuration ((now, key) # calls) s =
     (let (r, s1) = increment R now key ttl limit blockDuration s;
          (rs, s2) = increments R ttl limit blockDuration calls s1
      in (r # rs, s2))"

section \<open>The key of a request\<close>

record throttled_request =
  request_method :: "string option"
  request_url :: "string option"

definition generateKey :: "throttled_request \<Rightarrow> string \<Rightarrow> string" where
  "generateKey request tracker =
     (let endpoint = (case request_method request of None \<Rightarrow> ''UNKNOWN'' | Some m \<Rightarrow> m) @ '':''
            @ (case request_url request of None \<Rightarrow> ''unknown'' | Some u \<Rightarrow> u)
      in ''rl:'' @ tracker @ '':'' @ endpoint)"

lemma keys_apart [simp]:
  "hits_key k = hits_key k' \<longleftrightarrow> k = k'" "blocked_key k = blocked_key k' \<longleftrightarrow> k = k'"
  "hits_key k \<noteq> blocked_key k'" "blocked_key k' \<noteq> hits_key k"
proof -
  have "last (hits_key k) \<noteq> last (blocked_key k')" by (simp add: hits_key_def blocked_key_def)
  then show "hits_key k \<noteq> blocked_key k'" "blocked_key k' \<noteq> hits_key k" by metis+
qed (simp_all add: hits_key_def blocked_key_def)

text \<open>The flag of the record is the script's.\<close>

lemma increment_flag:
  assumes "throttle_script R now (hits_key key) (blocked_key key) ttl limit blk s = ([h, e, b, t], s')"
  shows "\<exists>r. increment R now key ttl limit blk s = (Some r, s') \<and>
    (isBlocked r \<longleftrightarrow> b \<noteq> 0) \<and> totalHits r = RNumber (Fin (of_int h))"
  using assms by (simp add: increment_def num_truthy_def)

section \<open>Laws of the script\<close>

context redis_server begin

lemma gone: "view now s k = None \<Longrightarrow> now \<le> t \<Longrightarrow> view t s k = None"
  by (simp add: view_later)

text \<open>A call while the block lasts changes nothing and is blocked.\<close>

lemma script_blocked:
  assumes "0 < ttl_of now (view now s b)"
  shows "\<exists>h e t. throttle_script R now k b ttl limit blk s = ([h, e, 1, t], s)"
  using assms by (simp add: throttle_script_def pttl Let_def)

text \<open>A call that is not blocked counts, and is refused beyond the limit.\<close>

lemma script_counts:
  assumes "view now s b = None" and "0 < ttl" and "0 < blk" and "k \<noteq> b"
    and n: "n = (case view now s k of None \<Rightarrow> 1 | Some (v, e) \<Rightarrow> v + 1)"
    and e: "e = (if n = 1 then Some (now + ttl) else case view now s k of None \<Rightarrow> None | Some (v, e) \<Rightarrow> e)"
  shows "\<exists>t x s'. throttle_script R now k b ttl limit blk s = ([n, t, if n > limit then 1 else 0, x], s') \<and>
    view now s' = (view now s)(k \<mapsto> (n, e), b := (if n > limit then Some (1, Some (now + blk)) else None))"
proof -
  obtain m s1 where i: "redis_incr R now k s = (m, s1)" by fastforce
  from incr [OF i] n have m: "m = n"
    and v1: "view now s1 = (view now s)(k \<mapsto> (n, case view now s k of None \<Rightarrow> None | Some (v, e) \<Rightarrow> e))"
    by simp_all
  define s2 where "s2 = (if n = 1 then redis_pexpire R now k ttl s1 else s1)"
  have v2: "view now s2 = (view now s)(k \<mapsto> (n, e))"
  proof (cases "n = 1")
    case True
    have "view now s1 k = Some (n, case view now s k of None \<Rightarrow> None | Some (v, e) \<Rightarrow> e)" by (simp add: v1)
    from pexpire [OF this assms(2)] True v1 e show ?thesis by (simp add: s2_def)
  qed (simp add: s2_def v1 e)
  have p: "redis_pttl R now b s = - 2" by (simp add: pttl assms(1))
  have off: "(view now s)(k \<mapsto> (n, e)) = (view now s)(k \<mapsto> (n, e), b := None)"
    using assms(1,4) by (simp add: fun_eq_iff)
  show ?thesis
  proof (cases "n > limit")
    case True
    have "view now (redis_set_px R now b 1 blk s2) = (view now s2)(b \<mapsto> (1, Some (now + blk)))"
      using set_px [OF assms(3)] by simp
    then show ?thesis using True v2 unfolding throttle_script_def p i m by (simp add: s2_def Let_def)
  next
    case False
    then show ?thesis using v2 off unfolding throttle_script_def p i m by (simp add: s2_def Let_def)
  qed
qed

text \<open>Other keys are left alone.\<close>

lemma script_other:
  assumes "j \<noteq> k" and "j \<noteq> b" and "0 < ttl" and "0 < blk" and "k \<noteq> b"
    and v: "\<And>x e. view now s b = Some (x, e) \<Longrightarrow> 0 < ttl_of now (view now s b)"
    and r: "throttle_script R now k b ttl limit blk s = (out, s')"
  shows "view now s' j = view now s j"
proof (cases "view now s b")
  case None
  obtain t x e s1 n where "throttle_script R now k b ttl limit blk s = ([n, t, if n > limit then 1 else 0, x], s1)"
    and "view now s1 = (view now s)(k \<mapsto> (n, e), b := (if n > limit then Some (1, Some (now + blk)) else None))"
    using script_counts [OF None assms(3-5) refl refl, of limit] by blast
  with r assms(1,2) show ?thesis by simp
next
  case (Some x)
  then have "0 < ttl_of now (view now s b)" using v by (cases x) simp
  then obtain out' where "throttle_script R now k b ttl limit blk s = (out', s)"
    using script_blocked [of now s b k ttl limit blk] by blast
  with r show ?thesis by simp
qed

text \<open>The calls of one key within its window: \<open>h\<close> have been counted, the window ends at \<open>w\<close>.\<close>

lemma window_calls:
  assumes pos: "0 < ttl" "0 < blk"
  shows "view now s (hits_key key) = Some (h, Some w) \<Longrightarrow> 0 < h \<Longrightarrow>
    (h \<le> limit \<longrightarrow> view now s (blocked_key key) = None) \<Longrightarrow>
    (\<And>x. view now s (blocked_key key) \<noteq> Some (x, None)) \<Longrightarrow>
    sorted (now # ts) \<Longrightarrow> (\<forall>t\<in>set ts. t < w) \<Longrightarrow>
    map (map_option isBlocked) (fst (increments R ttl limit blk (map (\<lambda>t. (t, key)) ts) s))
      = map (\<lambda>i. Some (limit < h + 1 + int i)) [0..<length ts]"
proof (induction ts arbitrary: now s h)
  case Nil
  then show ?case by simp
next
  case (Cons t ts)
  let ?k = "hits_key key" and ?b = "blocked_key key"
  have le: "now \<le> t" using Cons.prems(5) by simp
  have vk: "view t s ?k = Some (h, Some w)"
    using view_later [OF le, of s ?k] Cons.prems(1,6) by simp
  show ?case
  proof (cases "view t s ?b")
    case None
    obtain x y s1 where sc: "throttle_script R t ?k ?b ttl limit blk s
          = ([h + 1, x, if h + 1 > limit then 1 else 0, y], s1)"
      and v1: "view t s1 = (view t s)(?k \<mapsto> (h + 1, Some w), ?b := (if h + 1 > limit then Some (1, Some (t + blk)) else None))"
    proof -
      have "\<exists>x y s1. throttle_script R t ?k ?b ttl limit blk s = ([h + 1, x, if h + 1 > limit then 1 else 0, y], s1) \<and>
          view t s1 = (view t s)(?k \<mapsto> (h + 1, Some w), ?b := (if h + 1 > limit then Some (1, Some (t + blk)) else None))"
        by (rule script_counts [OF None pos]) (use vk Cons.prems(2) in simp_all)
      then show thesis using that by blast
    qed
    from increment_flag [OF sc] obtain r where r: "increment R t key ttl limit blk s = (Some r, s1)"
      "isBlocked r \<longleftrightarrow> h + 1 > limit" by (auto split: if_splits)
    have "map (map_option isBlocked) (fst (increments R ttl limit blk (map (\<lambda>t. (t, key)) ts) s1))
        = map (\<lambda>i. Some (limit < (h + 1) + 1 + int i)) [0..<length ts]"
    proof (rule Cons.IH [of t])
      show "view t s1 (hits_key key) = Some (h + 1, Some w)" by (simp add: v1)
      show "h + 1 \<le> limit \<longrightarrow> view t s1 (blocked_key key) = None" by (simp add: v1)
      show "view t s1 (blocked_key key) \<noteq> Some (x, None)" for x by (simp add: v1)
      show "0 < h + 1" "sorted (t # ts)" "\<forall>u\<in>set ts. u < w" using Cons.prems(2,5,6) by simp_all
    qed
    then show ?thesis using r by (simp add: map_upt_Suc split_beta algebra_simps del: upt_Suc)
  next
    case (Some e)
    then obtain z u where e: "e = (z, Some u)" "t < u"
      using Cons.prems(4) [of "fst e"] view_later [OF le, of s ?b]
      by (cases e; cases "view now s ?b"; cases "snd (the (view now s ?b))") (auto split: if_splits)
    have h: "limit < h" using Some Cons.prems(3) view_later [OF le, of s ?b] by (cases "h \<le> limit") auto
    obtain x y q where sc: "throttle_script R t ?k ?b ttl limit blk s = ([x, y, 1, q], s)"
      using script_blocked [of t s ?b ?k ttl limit blk] Some e by auto
    from increment_flag [OF sc] obtain r where r: "increment R t key ttl limit blk s = (Some r, s)" "isBlocked r" by auto
    have "map (map_option isBlocked) (fst (increments R ttl limit blk (map (\<lambda>t. (t, key)) ts) s))
        = map (\<lambda>i. Some (limit < h + 1 + int i)) [0..<length ts]"
    proof (rule Cons.IH [of t])
      show "view t s (hits_key key) = Some (h, Some w)" by (rule vk)
      show "h \<le> limit \<longrightarrow> view t s (blocked_key key) = None" using h by simp
      show "view t s (blocked_key key) \<noteq> Some (x, None)" for x using Some e by simp
      show "0 < h" "sorted (t # ts)" "\<forall>u\<in>set ts. u < w" using Cons.prems(2,5,6) by simp_all
    qed
    then show ?thesis using r h by (simp add: map_upt_Suc split_beta del: upt_Suc)
  qed
qed

text \<open>The first call of a key opens its window.\<close>

lemma window_first:
  assumes pos: "0 < ttl" "0 < blk" and "0 \<le> limit"
    and new: "view t s (hits_key key) = None" "view t s (blocked_key key) = None"
  shows "\<exists>r s'. increment R t key ttl limit blk s = (Some r, s') \<and> (isBlocked r \<longleftrightarrow> limit = 0) \<and>
    view t s' = (view t s)(hits_key key \<mapsto> (1, Some (t + ttl)),
      blocked_key key := (if limit = 0 then Some (1, Some (t + blk)) else None))"
proof -
  obtain x y s' where sc: "throttle_script R t (hits_key key) (blocked_key key) ttl limit blk s
        = ([1, x, if 1 > limit then 1 else 0, y], s')"
    and v: "view t s' = (view t s)(hits_key key \<mapsto> (1, Some (t + ttl)),
      blocked_key key := (if 1 > limit then Some (1, Some (t + blk)) else None))"
    using script_counts [OF new(2) pos, of "hits_key key" 1 "Some (t + ttl)" limit] new(1) by auto
  from increment_flag [OF sc] v assms(3) show ?thesis by auto
qed

lemma window_run:
  assumes "0 < ttl" and "0 < blk" and "0 \<le> limit"
    and "view t s (hits_key key) = None" and "view t s (blocked_key key) = None"
    and "sorted (t # ts)" and "\<forall>u\<in>set ts. u < t + ttl"
  shows "map (map_option isBlocked) (fst (increments R ttl limit blk (map (\<lambda>t. (t, key)) (t # ts)) s))
      = map (\<lambda>i. Some (limit \<le> int i)) [0..<length (t # ts)]"
proof -
  from window_first [OF assms(1-5)] obtain r s' where
    r: "increment R t key ttl limit blk s = (Some r, s')" "isBlocked r \<longleftrightarrow> limit = 0"
    and v: "view t s' = (view t s)(hits_key key \<mapsto> (1, Some (t + ttl)),
      blocked_key key := (if limit = 0 then Some (1, Some (t + blk)) else None))" by auto
  have "map (map_option isBlocked) (fst (increments R ttl limit blk (map (\<lambda>t. (t, key)) ts) s'))
      = map (\<lambda>i. Some (limit < 1 + 1 + int i)) [0..<length ts]"
    by (rule window_calls [OF assms(1,2), of t _ _ _ "t + ttl"]) (use v assms in \<open>simp_all split: if_splits\<close>)
  then show ?thesis using r assms(3) by (auto simp: map_upt_Suc split_beta simp del: upt_Suc)
qed

text \<open>Requests whose keys differ are never refused.\<close>

lemma fresh_run:
  assumes "0 < ttl" and "0 < blk" and "0 < limit"
  shows "sorted (now # map fst calls) \<Longrightarrow> distinct (map snd calls) \<Longrightarrow>
    (\<forall>k\<in>snd ` set calls. view now s (hits_key k) = None \<and> view now s (blocked_key k) = None) \<Longrightarrow>
    map (map_option isBlocked) (fst (increments R ttl limit blk calls s)) = replicate (length calls) (Some False)"
proof (induction calls arbitrary: now s)
  case Nil
  then show ?case by simp
next
  case (Cons c calls)
  obtain t k where c: "c = (t, k)" by (cases c)
  have le: "now \<le> t" using Cons.prems(1) c by simp
  have lim: "0 \<le> limit" using assms(3) by simp
  have new: "view t s (hits_key j) = None \<and> view t s (blocked_key j) = None" if "j \<in> snd ` set (c # calls)" for j
  proof -
    from bspec [OF Cons.prems(3) that] have "view now s (hits_key j) = None" "view now s (blocked_key j) = None"
      by simp_all
    then show ?thesis using gone [OF _ le] by simp
  qed
  have "view t s (hits_key k) = None" "view t s (blocked_key k) = None" using new [of k] c by simp_all
  from window_first [OF assms(1,2) lim this] obtain r s' where
    r: "increment R t k ttl limit blk s = (Some r, s')" "isBlocked r \<longleftrightarrow> limit = 0"
    and v: "view t s' = (view t s)(hits_key k \<mapsto> (1, Some (t + ttl)),
      blocked_key k := (if limit = 0 then Some (1, Some (t + blk)) else None))" by blast
  have "map (map_option isBlocked) (fst (increments R ttl limit blk calls s')) = replicate (length calls) (Some False)"
  proof (rule Cons.IH [of t])
    show "sorted (t # map fst calls)" "distinct (map snd calls)" using Cons.prems c by simp_all
    show "\<forall>j\<in>snd ` set calls. view t s' (hits_key j) = None \<and> view t s' (blocked_key j) = None"
    proof
      fix j
      assume j: "j \<in> snd ` set calls"
      then have "j \<noteq> k" "j \<in> snd ` set (c # calls)" using Cons.prems(2) c by auto
      then show "view t s' (hits_key j) = None \<and> view t s' (blocked_key j) = None"
        using new [of j] v by simp
    qed
  qed
  then show ?case using r assms(3) by (simp add: c split_beta)
qed

end

section \<open>A server\<close>

text \<open>A server that keeps its entries in a map and drops the expired ones when it reads them.\<close>

type_synonym redis_state = "string \<Rightarrow> entry option"

definition map_view :: "int \<Rightarrow> redis_state \<Rightarrow> string \<Rightarrow> entry option" where
  "map_view now s k = alive now (s k)"

definition map_redis :: "redis_state redis" where
  "map_redis = \<lparr>
     redis_get = (\<lambda>now k s. map_option fst (map_view now s k)),
     redis_pttl = (\<lambda>now k s. ttl_of now (map_view now s k)),
     redis_incr = (\<lambda>now k s.
       (let (n, e) = (case map_view now s k of None \<Rightarrow> (1, None) | Some (v, e) \<Rightarrow> (v + 1, e))
        in (n, s(k \<mapsto> (n, e))))),
     redis_pexpire = (\<lambda>now k ms s. (case map_view now s k of
         None \<Rightarrow> s | Some (v, e) \<Rightarrow> s(k \<mapsto> (v, Some (now + ms))))),
     redis_set_px = (\<lambda>now k v ms s. s(k \<mapsto> (v, Some (now + ms))))\<rparr>"

lemma alive_alive [simp]: "now \<le> t \<Longrightarrow> alive t (alive now x) = alive t x"
  by (cases "(now, x)" rule: alive.cases) auto

lemma alive_value: "alive now x = Some (v, e) \<Longrightarrow> alive now (Some (n, e)) = Some (n, e)"
  by (cases "(now, x)" rule: alive.cases) (auto split: if_splits)

interpretation map_server: redis_server map_redis map_view
proof unfold_locales
  fix now k n and s s' :: redis_state
  assume "redis_incr map_redis now k s = (n, s')"
  then have "n = (case map_view now s k of None \<Rightarrow> 1 | Some (v, e) \<Rightarrow> v + 1)"
    and "s' = s(k \<mapsto> (n, case map_view now s k of None \<Rightarrow> None | Some (v, e) \<Rightarrow> e))"
    by (auto simp: map_redis_def split: option.splits)
  then show "n = (case map_view now s k of None \<Rightarrow> 1 | Some (v, e) \<Rightarrow> v + 1) \<and>
      map_view now s' = (map_view now s)(k \<mapsto> (n, case map_view now s k of None \<Rightarrow> None | Some (v, e) \<Rightarrow> e))"
    by (auto simp: map_view_def fun_eq_iff alive_value split: option.split)
qed (auto simp: map_redis_def map_view_def fun_eq_iff)

end
