(* ===== verification/Throttler_Properties.thy ===== *)
theory Throttler_Properties
  imports Throttler
begin

text \<open>
  What rate limiting through Redis promises: replies reach their commands, a window lets through as
  many requests as the limit; and where it does not hold: commands that wait together, an error
  reply, and requests that differ in their query string.
\<close>

section \<open>The connection\<close>

text \<open>
  C18. The connection serves commands that are sent one after the other: however the server's
  replies are cut into chunks, each command is resolved with the value of its own reply, and the
  buffer is empty again.
\<close>

theorem sequential_commands_served:
  assumes "\<forall>(k, w, chunks)\<in>set xs.
      sendable w \<and> concat chunks = encode w \<and> (\<forall>c\<in>set chunks. c \<noteq> '''')"
  shows "connection_run (concat (map (\<lambda>(k, w, chunks). Issue k # map Data chunks) xs)) idle
    = (idle, map (\<lambda>(k, w, chunks). (k, Resolved (reply_of w))) xs)"
  using assms by (rule run_sequential)


theorem sequential_commands_served_witness:
  "connection_run [Issue (0::nat), Data [CHR '':'', CHR ''7''], Data [CHR 0x0D], Data [CHR 0x0A],
      Issue 1, Data (CHR ''+'' # CHR ''O'' # CHR ''K'' # crlf)] idle
    = (idle, [(0, Resolved (RNumber (Fin 7))), (1, Resolved (RString ''OK''))])"
proof -
  have "show_nat 7 = ''7''" by code_simp
  then show ?thesis
    using sequential_commands_served [of "[(0::nat, WInteger 7, [[CHR '':'', CHR ''7''], [CHR 0x0D], [CHR 0x0A]]),
      (1, WSimple ''OK'', [CHR ''+'' # CHR ''O'' # CHR ''K'' # crlf])]"]
    by (simp add: show_int_def crlf_def del: connection_run.simps)
qed



text \<open>
  C23. One error reply disables rate limiting for good: the listener leaves the line in the buffer,
  so that whatever happens afterwards, on this socket or on later ones, no request is blocked any
  more, and each later command fails at its first chunk with the old message.
\<close>

theorem error_reply_disables_limiter:
  assumes "CHR 0x0D \<notin> set msg"
    and "connection_run (Issue k # Data (''-'' @ msg @ crlf @ rest) # es) idle = (c, outs)"
  shows "(\<forall>(j, out)\<in>set outs. increment_record ttl out = Some (fallback_record ttl)) \<and>
    snd (connection_run [Issue j, Data chunk] (c\<lparr>pending := []\<rparr>)) = [(j, Rejected msg)]"
proof -
  let ?b = "''-'' @ msg @ crlf @ rest"
  let ?c = "\<lparr>buffer = ?b, pending = [], destroyed = False\<rparr>"
  have p: "poisoned msg ?b" using assms(1) by (auto simp: poisoned_def)
  have s: "connection_run [Issue k, Data ?b] idle = (?c, [(k, Rejected msg)])"
    using poisoned_onData [of msg "''''" ?b] p by (simp add: idle_def)
  have "connection_run ([Issue k, Data ?b] @ es) idle = (c, outs)" using assms(2) by simp
  then obtain outs' where r: "connection_run es ?c = (c, outs')" "outs = (k, Rejected msg) # outs'"
    unfolding connection_run_append s by (auto split: prod.splits)
  from poisoned_run [OF _ r(1), of msg] p have pc: "poisoned msg (buffer c)"
    and rej: "\<forall>o'\<in>snd ` set outs'. \<exists>m. o' = Rejected m" by simp_all
  have "increment_record ttl out = Some (fallback_record ttl)" if "(i, out) \<in> set outs" for i out
    using that rej r(2) by force
  moreover have "snd (connection_run [Issue j, Data chunk] (c\<lparr>pending := []\<rparr>)) = [(j, Rejected msg)]"
    using poisoned_onData [OF poisoned_append [OF pc], of chunk] by simp
  ultimately show ?thesis by blast
qed

theorem error_reply_disables_limiter_witness:
  "snd (connection_run [Issue (1::nat), Data (encode (WArray []))]
      \<lparr>buffer = ''-OOM'' @ crlf, pending = [], destroyed = True\<rparr>) = [(1, Rejected ''OOM'')]"
proof -
  have "connection_run (Issue (0::nat) # Data (''-'' @ ''OOM'' @ crlf @ '''') # [Closed]) idle
      = (\<lparr>buffer = ''-OOM'' @ crlf, pending = [], destroyed = True\<rparr>, [(0, Rejected ''OOM'')])"
    using poisoned_onData [of "''OOM''" "''''" "''-OOM'' @ crlf"]
    by (simp add: idle_def poisoned_def)
  from error_reply_disables_limiter [OF _ this, of "Fin 60000" 1 "encode (WArray [])"] show ?thesis
    by simp
qed

section \<open>The limit\<close>

text \<open>
  C17. From the first request of a key on, the script and \<open>increment\<close> let exactly \<open>limit\<close> requests
  through until the window of \<open>ttl\<close> milliseconds ends: the request number \<open>i\<close>, counted from 0, is
  blocked exactly if \<open>limit \<le> i\<close>, also when the block's own time runs out within the window.
\<close>

theorem limit_enforced_in_window:
  assumes "redis_server R view" and "0 < ttl" and "0 < blockDuration" and "0 \<le> limit"
    and "view t s (hits_key key) = None" and "view t s (blocked_key key) = None"
    and "sorted (t # ts)" and "\<forall>u\<in>set ts. u < t + ttl"
  shows "map (map_option isBlocked)
      (fst (increments R ttl limit blockDuration (map (\<lambda>t. (t, key)) (t # ts)) s))
    = map (\<lambda>i. Some (limit \<le> int i)) [0..<length (t # ts)]"
  using redis_server.window_run [OF assms] .

theorem limit_enforced_in_window_witness:
  "map (map_option isBlocked) (fst (increments map_redis 60000 2 1000
      [(0, ''a''), (10, ''a''), (20, ''a''), (1030, ''a''), (59999, ''a'')] (\<lambda>k. None)))
    = [Some False, Some False, Some True, Some True, Some True]"
  using limit_enforced_in_window [of map_redis map_view 60000 1000 2 0 "\<lambda>k. None" "''a''" "[10, 20, 1030, 59999]"]
    map_server.redis_server_axioms
  by (simp add: map_view_def map_upt_Suc del: upt_Suc increments.simps)

text \<open>
  The key of a request holds its URL with the query string, so that a client evades every limit:
  of requests to one path with different query strings, from one address and at any rate, none
  is blocked.
\<close>

theorem query_string_evades_limit:
  assumes "redis_server R view" and "0 < ttl" and "0 < blockDuration" and "0 < limit"
    and "sorted (map fst requests)" and "distinct (map snd requests)" and "\<forall>t k. view t s k = None"
  shows "map (map_option isBlocked) (fst (increments R ttl limit blockDuration
      (map (\<lambda>(t, query). (t, generateKey \<lparr>request_method = Some verb,
         request_url = Some (path @ ''?'' @ query)\<rparr> tracker)) requests) s))
    = replicate (length requests) (Some False)"
proof -
  let ?key = "\<lambda>query. generateKey \<lparr>request_method = Some verb, request_url = Some (path @ ''?'' @ query)\<rparr> tracker"
  let ?calls = "map (\<lambda>(t, query). (t, ?key query)) requests"
  define start where "start = (case requests of [] \<Rightarrow> 0 | r # _ \<Rightarrow> fst r)"
  have "inj ?key" by (rule injI) (simp add: generateKey_def)
  then have "distinct (map ?key (map snd requests))"
    using assms(6) unfolding distinct_map [of ?key] by (blast intro: inj_on_subset)
  moreover have "map snd ?calls = map ?key (map snd requests)" by (induction requests) auto
  ultimately have "distinct (map snd ?calls)" by metis
  moreover have "sorted (start # map fst ?calls)"
    using assms(5) by (cases requests) (auto simp: start_def split_beta comp_def)
  ultimately show ?thesis
    using redis_server.fresh_run [OF assms(1-4), of start ?calls s] assms(7) by simp
qed

theorem query_string_evades_limit_witness:
  "map (map_option isBlocked) (fst (increments map_redis 60000 1 60000
      (map (\<lambda>(t, query). (t, generateKey \<lparr>request_method = Some ''POST'',
         request_url = Some (''/auth/login/email'' @ ''?'' @ query)\<rparr> ''10.0.0.1''))
       [(0, ''1''), (0, ''2''), (1, ''3'')]) (\<lambda>k. None)))
    = [Some False, Some False, Some False]"
  using query_string_evades_limit [of map_redis map_view 60000 60000 1 "[(0, ''1''), (0, ''2''), (1, ''3'')]"
      "\<lambda>k. None" "''POST''" "''/auth/login/email''" "''10.0.0.1''"] map_server.redis_server_axioms
  by (simp add: map_view_def numeral_3_eq_3 del: increments.simps)

end
