(* ===== verification/Api.thy ===== *)
theory Api
  imports Auth Webhook Profiles Sessions Profile_Properties Webhook_Properties
begin

text \<open>
  The routes of the application together: one request on the server's state, with the guard of the
  routes that need a token, and a sequence of requests. The health routes and those of
  \<open>StellarController\<close> that only ask Horizon keep no state and are left out.
\<close>

section \<open>The server\<close>

text \<open>What the deployment fixes: the repositories, the libraries and the configuration.\<close>

record server =
  sv_users :: "(user_where, user) repository_ops"
  sv_tips :: "(tip_where, tip) repository_ops"
  sv_notifications :: "(notification_where, notification) repository_ops"
  sv_tokens :: "(token_where, refresh_token) repository_ops"
  sv_queries :: tip_queries
  sv_search :: "(user \<Rightarrow> bool) \<Rightarrow> string list \<Rightarrow> nat \<Rightarrow> user list \<Rightarrow> string + user list"
  sv_sign :: signer
  sv_hash :: "string \<Rightarrow> nat \<Rightarrow> string"
  sv_compare :: "string \<Rightarrow> string \<Rightarrow> bool"
  sv_config :: auth_config
  sv_show_num :: "jsnum \<Rightarrow> string"
  sv_date_parse :: "string \<Rightarrow> int option"
  sv_date_string :: "int \<Rightarrow> string"
  sv_usdc_issuer :: "string option"
  sv_chain :: chain_env
  sv_webhook :: webhook_env

text \<open>What a request finds: the clock at its start and at its end, random values, the disk.\<close>

record moment =
  at_now :: int
  at_later :: int
  at_random :: rat
  at_random_hex :: string
  at_uuid :: string
  at_disk_error :: "string option"

text \<open>
  The requests. A guarded one carries the claims of its token, whose signature and expiry Passport
  has checked.
\<close>

datatype api_request =
    WalletLogin jsval
  | Nonce "string option"
  | Signup string string string "string option"
  | EmailLogin string string
  | Refresh "string option"
  | OwnProfile claims
  | CreateTip create_tip_dto
  | GetTip string
  | ReceivedTips claims tip_query
  | SentTips claims tip_query
  | WalletTips string tip_query
  | OwnStats claims
  | ConfirmTip string "string option"
  | VerifyOnChain string
  | TippingPage string
  | PublicProfile string
  | SearchProfiles "string option"
  | Analytics claims "string option" "string option"
  | UpdateProfile claims update_profile_dto
  | UpdateLinks claims social_links
  | UploadAvatar claims uploaded_file
  | Inbox claims "string option" "string option"
  | UnreadCount claims
  | MarkRead claims string
  | ContractEvent event_payload "string option" "string option"

definition quietly :: "('s, 'a) op \<Rightarrow> ('s, unit) op" where
  "quietly m = andThen m (\<lambda>_. return_op ())"

text \<open>\<open>JwtAuthGuard\<close>, and \<open>req.user.id\<close> in the handler.\<close>

definition authenticated :: "server \<Rightarrow> claims \<Rightarrow> (string \<Rightarrow> ('z database_scheme, unit) op) \<Rightarrow> ('z database_scheme, unit) op" where
  "authenticated S payload f =
     andThen (jwt_validate (sv_users S) payload)
     (\<lambda>user. case u_id user of None \<Rightarrow> throw (NotFound ''User not found'') | Some i \<Rightarrow> f i)"

fun handle :: "server \<Rightarrow> moment \<Rightarrow> api_request \<Rightarrow> ('z files_state_scheme, unit) op" where
  "handle S m (WalletLogin w) =
     quietly (loginStellar (sv_users S) (sv_tokens S) (sv_sign S) (sv_config S) (at_now m) (at_random_hex m) w)"
| "handle S m (Nonce w) = quietly (getNonce_route (at_random m) w)"
| "handle S m (Signup e p n d) =
     quietly (signup_route (sv_users S) (sv_tokens S) (sv_hash S) (sv_sign S) (sv_config S) (at_now m) (at_random_hex m) e p n d)"
| "handle S m (EmailLogin e p) =
     quietly (login_route (sv_users S) (sv_tokens S) (sv_compare S) (sv_sign S) (sv_config S) (at_now m) (at_random_hex m) e p)"
| "handle S m (Refresh t) =
     quietly (refresh_route (sv_users S) (sv_tokens S) (sv_sign S) (sv_config S) (at_now m) (at_random_hex m) t)"
| "handle S m (OwnProfile c) = authenticated S c (\<lambda>_. return_op ())"
| "handle S m (CreateTip dto) =
     quietly (createTip_route (sv_tips S) (sv_users S) (sv_usdc_issuer S) (at_now m) dto)"
| "handle S m (GetTip i) = quietly (getTip_route (sv_tips S) (sv_users S) i)"
| "handle S m (ReceivedTips c q) =
     authenticated S c (\<lambda>u. quietly (getMyReceivedTips_route (sv_tips S) (sv_date_parse S) u q))"
| "handle S m (SentTips c q) =
     authenticated S c (\<lambda>u. quietly (getMySentTips_route (sv_tips S) (sv_date_parse S) u q))"
| "handle S m (WalletTips w q) = quietly (getTipsByWallet_route (sv_tips S) (sv_date_parse S) w q)"
| "handle S m (OwnStats c) = authenticated S c (\<lambda>u. quietly (getMyStats_route (sv_queries S) u))"
| "handle S m (ConfirmTip i h) = quietly (confirmTip_route (sv_tips S) (at_now m) i h)"
| "handle S m (VerifyOnChain i) =
     quietly (verifyOnChain_route (sv_tips S) (sv_users S) (sv_notifications S) (sv_chain S) (at_now m) (at_later m) i)"
| "handle S m (TippingPage n) = quietly (getTippingInfo_route (sv_queries S) (sv_tips S) (sv_users S) n)"
| "handle S m (PublicProfile n) = quietly (getProfile_route (sv_users S) n)"
| "handle S m (SearchProfiles q) = quietly (searchProfiles_route (sv_search S) q)"
| "handle S m (Analytics c p a) = authenticated S c
     (\<lambda>u. quietly (getAnalytics (sv_queries S) (sv_users S) (sv_date_string S) (at_now m) u p a))"
| "handle S m (UpdateProfile c dto) =
     authenticated S c (\<lambda>u. quietly (updateProfile_route (sv_users S) (at_now m) u dto))"
| "handle S m (UpdateLinks c l) =
     authenticated S c (\<lambda>u. quietly (updateSocialLinks_route (sv_users S) (at_now m) u l))"
| "handle S m (UploadAvatar c f) = authenticated S c
     (\<lambda>u. quietly (uploadAvatar_route (sv_users S) (at_disk_error m) (at_now m) (at_uuid m) u f))"
| "handle S m (Inbox c p l) =
     authenticated S c (\<lambda>u. quietly (getNotifications_route (sv_notifications S) u p l))"
| "handle S m (UnreadCount c) = authenticated S c (\<lambda>u. quietly (getUnreadCount_route (sv_notifications S) u))"
| "handle S m (MarkRead c i) =
     authenticated S c (\<lambda>u. quietly (markAsRead_route (sv_notifications S) (at_now m) u i))"
| "handle S m (ContractEvent p raw sig) =
     quietly (handleContractWebhook_route (sv_tips S) (sv_users S) (sv_notifications S) (sv_show_num S)
       (sv_webhook S) (at_now m) p raw sig)"

text \<open>A sequence of requests, whatever they answer.\<close>

fun serve :: "server \<Rightarrow> (moment \<times> api_request) list \<Rightarrow> 'z files_state_scheme \<Rightarrow> 'z files_state_scheme" where
  "serve S [] s = s"
| "serve S ((m, r) # rs) s = serve S rs (snd (handle S m r s))"

end
