(* ===== verification/Api_Properties.thy ===== *)
theory Api_Properties
  imports Api
begin

text \<open>
  What every sequence of requests keeps: the constraints of the tables, and the history of the
  application. No row is lost, an account keeps its identity, a tip its terms, a completed tip stays
  completed, a read notification read and a revoked token revoked.
\<close>

section \<open>Rows that are kept\<close>

definition rows_kept :: "('e \<Rightarrow> 'e \<Rightarrow> bool) \<Rightarrow> 'e list \<Rightarrow> 'e list \<Rightarrow> bool" where
  "rows_kept rel rows rows' \<longleftrightarrow> (\<forall>r\<in>set rows. \<exists>r'\<in>set rows'. rel r r')"

definition account_kept :: "user \<Rightarrow> user \<Rightarrow> bool" where
  "account_kept u v \<longleftrightarrow> same_account u v \<and> u_walletAddress v = u_walletAddress u"

definition tip_kept :: "tip \<Rightarrow> tip \<Rightarrow> bool" where
  "tip_kept t u \<longleftrightarrow> t_id u = t_id t \<and> t_creatorId u = t_creatorId t \<and> t_supporterId u = t_supporterId t
     \<and> t_senderWallet u = t_senderWallet t \<and> t_receiverWallet u = t_receiverWallet t
     \<and> t_amount u = t_amount t \<and> t_asset u = t_asset t \<and> t_assetIssuer u = t_assetIssuer t
     \<and> t_message u = t_message t \<and> t_createdAt u = t_createdAt t
     \<and> (t_status t = COMPLETED \<longrightarrow> t_status u = COMPLETED)
     \<and> (t_transactionHash t \<noteq> None \<longrightarrow> t_transactionHash u \<noteq> None)"

definition notification_kept :: "notification \<Rightarrow> notification \<Rightarrow> bool" where
  "notification_kept n m \<longleftrightarrow> (m = n \<or> m = n\<lparr>n_isRead := Some True\<rparr>)"

lemma kept_refl [simp]: "reflp account_kept" "reflp tip_kept" "reflp notification_kept"
  by (simp_all add: reflp_def account_kept_def same_account_def tip_kept_def notification_kept_def)

lemma kept_trans: "transp account_kept" "transp tip_kept" "transp notification_kept"
  by (auto simp: transp_def account_kept_def same_account_def tip_kept_def notification_kept_def)

lemma rows_kept_refl: "reflp rel \<Longrightarrow> rows_kept rel rows rows"
  by (auto simp: rows_kept_def reflp_def)

lemma rows_kept_trans:
  "transp rel \<Longrightarrow> rows_kept rel a b \<Longrightarrow> rows_kept rel b c \<Longrightarrow> rows_kept rel a c"
  unfolding rows_kept_def by (meson transpD)

lemma rows_kept_subset: "reflp rel \<Longrightarrow> set rows \<subseteq> set rows' \<Longrightarrow> rows_kept rel rows rows'"
  by (auto simp: rows_kept_def reflp_def)

lemma rows_kept_insert: "reflp rel \<Longrightarrow> mset rows' = add_mset e (mset rows) \<Longrightarrow> rows_kept rel rows rows'"
  by (rule rows_kept_subset) (metis set_mset_add_mset_insert set_mset_mset subset_insertI)+

lemma rows_kept_replace:
  assumes "reflp rel" and m: "mset rows' = add_mset b (mset rows - {#a#})" and "rel a b"
  shows "rows_kept rel rows rows'"
  unfolding rows_kept_def
proof
  fix r
  assume "r \<in> set rows"
  then show "\<exists>r'\<in>set rows'. rel r r'"
    using replaced_row [OF m] assms(1,3) by (cases "r = a") (auto simp: reflp_def)
qed

section \<open>States that are kept\<close>

definition api_sound :: "'z database_scheme \<Rightarrow> bool" where
  "api_sound s \<longleftrightarrow> users_ok (users_rows s) \<and> tips_sound (tips_rows s)
     \<and> notifications_ok (notifications_rows s) \<and> refresh_tokens_ok (tokens_rows s)"

definition history_kept :: "'z database_scheme \<Rightarrow> 'z database_scheme \<Rightarrow> bool" where
  "history_kept s s' \<longleftrightarrow> rows_kept account_kept (users_rows s) (users_rows s')
     \<and> rows_kept tip_kept (tips_rows s) (tips_rows s')
     \<and> rows_kept notification_kept (notifications_rows s) (notifications_rows s')
     \<and> tokens_evolve s s'"

definition kept :: "'z database_scheme \<Rightarrow> 'z database_scheme \<Rightarrow> bool" where
  "kept s s' \<longleftrightarrow> (api_sound s \<longrightarrow> api_sound s' \<and> history_kept s s')"

lemma api_sound_database_ok: "api_sound s \<longleftrightarrow> database_ok s \<and> (\<forall>t\<in>set (tips_rows s). fits_decimal (t_amount t))"
  by (auto simp: api_sound_def database_ok_def tips_sound_def)

lemma history_kept_refl: "history_kept s s"
  by (simp add: history_kept_def rows_kept_refl tokens_evolve_same)

lemma history_kept_trans: "history_kept a b \<Longrightarrow> history_kept b c \<Longrightarrow> history_kept a c"
  using tokens_evolve_preorder unfolding history_kept_def preorder_rel_def
  by (meson kept_trans rows_kept_trans transpD)

lemma kept_preorder [simp]: "preorder_rel kept"
  unfolding preorder_rel_def kept_def
  by (auto intro!: reflpI transpI intro: history_kept_refl history_kept_trans)

lemma kept_frame:
  "users_rows s' = users_rows s \<Longrightarrow> tips_rows s' = tips_rows s \<Longrightarrow>
   notifications_rows s' = notifications_rows s \<Longrightarrow> tokens_rows s' = tokens_rows s \<Longrightarrow> kept s s'"
  by (simp add: kept_def api_sound_def history_kept_def rows_kept_refl tokens_evolve_same)

lemma kept_same: "kept s s"
  by (rule kept_frame) simp_all

text \<open>A write of one table keeps the others.\<close>

lemma kept_users:
  "(users_ok (users_rows s) \<Longrightarrow> users_ok rows \<and> rows_kept account_kept (users_rows s) rows) \<Longrightarrow>
   kept s (s\<lparr>users_rows := rows\<rparr>)"
  by (simp add: kept_def api_sound_def history_kept_def rows_kept_refl tokens_evolve_same)

lemma kept_tips:
  "(tips_sound (tips_rows s) \<Longrightarrow> tips_sound rows \<and> rows_kept tip_kept (tips_rows s) rows) \<Longrightarrow>
   kept s (s\<lparr>tips_rows := rows\<rparr>)"
  by (simp add: kept_def api_sound_def history_kept_def rows_kept_refl tokens_evolve_same)

lemma kept_notifications:
  "(notifications_ok (notifications_rows s) \<Longrightarrow>
     notifications_ok rows \<and> rows_kept notification_kept (notifications_rows s) rows) \<Longrightarrow>
   kept s (s\<lparr>notifications_rows := rows\<rparr>)"
  by (simp add: kept_def api_sound_def history_kept_def rows_kept_refl tokens_evolve_same)

text \<open>Handlers that read first: the rest runs in the state that was read.\<close>

lemma advances_read_then:
  "preorder_rel R \<Longrightarrow> (\<And>s x. fu (users_rows s) = Inr x \<Longrightarrow> R s (snd (gu x s))) \<Longrightarrow>
   advances R (andThen (read_users fu) gu)"
  "preorder_rel R \<Longrightarrow> (\<And>s x. ft (tips_rows s) = Inr x \<Longrightarrow> R s (snd (gt x s))) \<Longrightarrow>
   advances R (andThen (read_tips ft) gt)"
  by (auto simp: advances_def op_simps preorder_rel_def reflp_def split: sum.split)

lemma advances_outcome:
  "(\<And>s x s'. m s = (Inr x, s') \<Longrightarrow> R s s') \<Longrightarrow> (\<And>s e s'. m s = (Inl e, s') \<Longrightarrow> R s s') \<Longrightarrow> advances R m"
  by (rule advancesI) (metis sumE)

lemma advances_quietly [advances_intros]: "preorder_rel R \<Longrightarrow> advances R m \<Longrightarrow> advances R (quietly m)"
  unfolding quietly_def by (intro advances_intros)

lemmas api_intros = advances_intros kept_preorder advances_read

lemma advances_authenticated:
  "preorder_rel R \<Longrightarrow> (\<And>i. advances R (f i)) \<Longrightarrow> advances R (authenticated S c f)"
  unfolding authenticated_def jwt_validate_def find_user_def by (intro advances_intros)

section \<open>Sessions\<close>

text \<open>What the session handlers do outside the tokens: they only add users.\<close>

definition users_grow :: "'z database_scheme \<Rightarrow> 'z database_scheme \<Rightarrow> bool" where
  "users_grow s s' \<longleftrightarrow> set (users_rows s) \<subseteq> set (users_rows s') \<and> tips_rows s' = tips_rows s
     \<and> notifications_rows s' = notifications_rows s"

lemma users_grow_preorder [simp]: "preorder_rel users_grow"
proof -
  have "transp users_grow" by (rule transpI) (simp add: users_grow_def, blast)
  then show ?thesis by (simp add: preorder_rel_def reflp_def users_grow_def)
qed

lemma kept_session:
  assumes "preserves database_ok m" and "advances tokens_evolve m" and "advances users_grow m"
  shows "advances kept m"
proof (rule advancesI)
  fix s r s'
  assume run: "m s = (r, s')"
  have g: "users_grow s s'" by (rule advancesD [OF assms(3) run])
  moreover have "tokens_evolve s s'" by (rule advancesD [OF assms(2) run])
  moreover have "database_ok s \<Longrightarrow> database_ok s'" by (rule preservesD [OF assms(1) run])
  ultimately show "kept s s'"
    by (auto simp: kept_def api_sound_database_ok history_kept_def users_grow_def rows_kept_refl rows_kept_subset)
qed

context session_service
begin

lemma save_user_grows: "u_id u = None \<Longrightarrow> advances users_grow (Auth.save_user UR now u)"
  unfolding Auth.save_user_def
  by (intro advances_intros users_grow_preorder advances_write)
    (auto simp: users_grow_def dest: users.save_insert_set(1))

lemma issue_grows: "advances users_grow (createRefreshToken RR cfg now rnd u)"
  by (rule advances_outcome)
    (auto dest!: token_issuer.issue_Inr [OF issuer] token_issuer.issue_Inl [OF issuer] simp: users_grow_def)

lemma tokens_write_grows: "advances users_grow (write_tokens f)"
  by (rule advances_write) (simp_all add: users_grow_def)

lemma refresh_lookup_grows: "advances users_grow (refresh_lookup UR RR now t)"
  by (rule advancesI) (auto dest: refresh_lookup_state simp: users_grow_def)

lemmas grows_intros = advances_intros users_grow_preorder issue_grows tokens_write_grows refresh_lookup_grows

lemma loginStellar_kept: "advances kept (loginStellar UR RR sign cfg now rnd w)"
proof (rule kept_session [OF loginStellar_ok loginStellar_advances])
  show "advances users_grow (loginStellar UR RR sign cfg now rnd w)"
    unfolding loginStellar_def Let_def validateStellarUser_def find_user_def login_def
    by (cases w; simp only: jsval.case; intro grows_intros save_user_grows; simp)
qed

lemma signup_kept: "advances kept (signup UR RR hash sign cfg now rnd e p n d)"
proof (rule kept_session [OF signup_ok signup_advances])
  show "advances users_grow (signup UR RR hash sign cfg now rnd e p n d)"
    unfolding signup_def find_user_def email_session_def
    by (intro grows_intros save_user_grows) (simp add: new_user_def)
qed

lemma loginWithEmail_kept: "advances kept (loginWithEmail UR RR cmp sign cfg now rnd e p)"
proof (rule kept_session [OF loginWithEmail_ok loginWithEmail_advances])
  show "advances users_grow (loginWithEmail UR RR cmp sign cfg now rnd e p)"
    unfolding loginWithEmail_def email_session_def by (intro grows_intros)
qed

lemma refresh_kept: "advances kept (refreshToken UR RR sign cfg now rnd t)"
proof (rule kept_session [OF refresh_ok refresh_advances])
  show "advances users_grow (refreshToken UR RR sign cfg now rnd t)"
    unfolding refreshToken_def refresh_rotate_def by (intro grows_intros)
qed

end

section \<open>Tips\<close>

lemma insert_tip_kept:
  assumes con: "tips_contract TR" and new: "t_id e = None" "fits_decimal (t_amount e)"
  shows "advances kept (write_tips (saveRow TR now e))"
proof (rule advances_write [OF kept_preorder])
  fix s x rows
  assume sv: "saveRow TR now e (tips_rows s) = Inr (x, rows)"
  obtain k where x: "x = tip_fill k now e" and m: "mset rows = add_mset x (mset (tips_rows s))"
    using repository.save_insert [OF con, OF sv new] by blast
  have "set rows = insert x (set (tips_rows s))" using m by (metis set_mset_add_mset_insert set_mset_mset)
  moreover have "fits_decimal (t_amount x)" using x new by (simp add: tip_fill_def)
  ultimately show "kept s (s\<lparr>tips_rows := rows\<rparr>)"
    using repository.save_constraint [OF con sv] m
    by (intro kept_tips) (auto simp: tips_sound_def intro: rows_kept_insert)
qed

text \<open>A tip that was loaded and is saved with other states or hashes.\<close>

lemma update_tip_kept:
  assumes con: "tips_contract TR" and f: "findOne TR q (tips_rows s) = Inr (Some t)"
    and e: "t_id e = t_id t" "t_amount e = t_amount t" "tip_kept t (tip_merge t e)"
    and sv: "saveRow TR now e (tips_rows s) = Inr (x, rows)"
  shows "kept s (s\<lparr>tips_rows := rows\<rparr>)"
proof (rule kept_tips)
  assume sound: "tips_sound (tips_rows s)"
  have t: "t \<in> set (tips_rows s)" using repository.find_one_Some [OF con f] by auto
  have ok: "tips_ok (tips_rows s)" using sound by (simp add: tips_sound_def)
  obtain i where i: "t_id t = Some i" using ok t by (auto simp: tips_ok_def dest: keyed_key)
  have st: "t_id e = Some i" "fits_decimal (t_amount e)" using sound t i e by (auto simp: tips_sound_def)
  have m: "mset rows = add_mset (tip_merge t e) (mset (tips_rows s) - {#t#})"
    using repository.save_update [OF con, OF sv ok t i st] by simp
  have "set rows \<subseteq> insert (tip_merge t e) (set (tips_rows s))"
    using m by (metis in_diffD insertCI insertE set_mset_add_mset_insert set_mset_mset subsetI)
  then have "\<forall>r\<in>set rows. fits_decimal (t_amount r)"
    using sound st by (auto simp: tips_sound_def tip_merge_def)
  then show "tips_sound rows \<and> rows_kept tip_kept (tips_rows s) rows"
    using repository.save_constraint [OF con sv ok] rows_kept_replace [OF kept_refl(2) m e(3)]
    by (simp add: tips_sound_def)
qed

lemma createTip_kept:
  assumes "tips_contract TR" and "fits_decimal (dto_amount dto)"
  shows "advances kept (createTip_route TR UR usdc now dto)"
  unfolding createTip_route_def createTip_def find_user_def Let_def
  by (intro api_intros insert_tip_kept [OF assms(1)]) (simp_all add: tip_of_dto_def assms(2))

lemma confirmTip_kept:
  assumes "tips_contract TR"
  shows "advances kept (confirmTip_route TR now i h)"
  unfolding confirmTip_route_def confirmTip_def find_tip_def
proof (rule advances_read_then [OF kept_preorder])
  fix s x
  assume f: "findOne TR (query_of [any_tip\<lparr>tw_id := Some i\<rparr>]) (tips_rows s) = Inr x"
  show "kept s (snd ((case x of None \<Rightarrow> throw (NotFound ''Tip not found'')
      | Some tip \<Rightarrow> write_tips (saveRow TR now (tip\<lparr>t_transactionHash := h, t_status := COMPLETED\<rparr>))) s))"
  proof (cases x)
    case None
    then show ?thesis by (simp add: throw_apply kept_same)
  next
    case (Some t)
    let ?e = "t\<lparr>t_transactionHash := h, t_status := COMPLETED\<rparr>"
    have "tip_kept t (tip_merge t ?e)" by (simp add: tip_kept_def tip_merge_def keep_def split: option.split)
    then show ?thesis
      using Some update_tip_kept [OF assms f [unfolded Some], of ?e]
      by (auto simp: write_tips_def kept_same split: sum.split)
  qed
qed

section \<open>Notifications and on-chain verification\<close>

context notifications_service
begin

lemma create_kept: "advances kept (createNotification NR now u ty ti m md)"
proof (rule advances_outcome)
  fix s n s'
  assume run: "createNotification NR now u ty ti m md s = (Inr n, s')"
  obtain rows where s': "s' = s\<lparr>notifications_rows := rows\<rparr>"
    and m: "mset rows = add_mset n (mset (notifications_rows s))"
    using create_Inr [OF run] by blast
  show "kept s s'" unfolding s'
    by (rule kept_notifications)
      (use create_constraint [OF run] s' rows_kept_insert [OF kept_refl(3) m] in simp)
qed (auto dest: create_Inl intro: kept_same)

lemma markAsRead_kept: "advances kept (markAsRead_route NR now u i)"
proof (rule advances_outcome)
  fix s n s'
  assume run: "markAsRead_route NR now u i s = (Inr n, s')"
  then have run': "markAsRead NR now i u s = (Inr n, s')" by (simp add: markAsRead_route_def)
  show "kept s s'"
  proof (cases "notifications_ok (notifications_rows s)")
    case True
    obtain r rows where n: "n = r\<lparr>n_isRead := Some True\<rparr>" and s': "s' = s\<lparr>notifications_rows := rows\<rparr>"
      and m: "mset rows = add_mset n (mset (notifications_rows s) - {#r#})"
      by (rule mark_Inr [OF run' True])
    have "rows_kept notification_kept (notifications_rows s) rows"
      by (rule rows_kept_replace [OF kept_refl(3) m]) (simp add: n notification_kept_def)
    then show ?thesis
      using mark_constraint [OF run' True] unfolding s' by (intro kept_notifications) simp
  next
    case False
    then show ?thesis by (simp add: kept_def api_sound_def)
  qed
qed (auto simp: markAsRead_route_def dest: mark_Inl intro: kept_same)

lemma notify_kept: "advances kept (notifyTipReceived NR show_num now c w a x)"
  unfolding notifyTipReceived_def by (rule create_kept)

lemma verifyOnChain_kept: "advances kept (verifyOnChain_route TR UR NR env now later i)"
proof -
  have "advances kept (readVerificationCache now i)" "advances kept (writeVerificationCache later i v)" for v
    by (auto intro!: advancesI kept_frame simp: readVerificationCache_def writeVerificationCache_def Let_def
        split: option.splits prod.splits if_splits)
  then show ?thesis
    unfolding verifyOnChain_route_def verifyTipOnChain_def verify_uncached_def find_tip_def load_user_def
      find_user_def getCreatorTipIndex_def notifyDiscrepancyDetected_def Let_def
    by (intro api_intros create_kept)
qed

end

section \<open>Contract events\<close>

lemma withdrawal_kept:
  assumes "tips_contract TR"
  shows "advances kept (persistWithdrawalEvent TR now p)"
proof (rule advancesI)
  fix s r s'
  assume run: "persistWithdrawalEvent TR now p s = (r, s')"
  show "kept s s'"
  proof (cases "s' = s")
    case True
    then show ?thesis by (simp add: kept_same)
  next
    case False
    with run obtain q t w t' rows where f: "findOne TR q (tips_rows s) = Inr (Some t)"
      and sv: "saveRow TR now (t\<lparr>t_withdrawalStatus := Some w, t_withdrawalTransactionHash := ev_transactionHash p\<rparr>)
        (tips_rows s) = Inr (t', rows)"
      and s': "s' = s\<lparr>tips_rows := rows\<rparr>"
      by (auto simp: persistWithdrawalEvent_def Let_def find_tip_def op_simps write_tips_def andThen_def
          split: if_splits option.splits sum.splits prod.splits)
    show ?thesis unfolding s'
      by (rule update_tip_kept [OF assms f _ _ _ sv]) (simp_all add: tip_kept_def tip_merge_def)
  qed
qed

lemma contract_event_kept:
  assumes tips: "tips_contract TR" and notifs: "notifications_contract NR" and p: "storable_event p"
  shows "advances kept (handleContractWebhook_route TR UR NR show_num env now p raw sig)"
proof -
  have srv: "notifications_service NR" by (simp add: notifications_service_def notifs)
  have tip: "advances kept (persistTipEvent TR UR (notifyTipReceived NR show_num now) usdc now p)" for usdc
    unfolding persistTipEvent_def find_user_def
  proof (rule advances_lift_then [OF kept_preorder])
    fix e
    assume e: "read_tip_event (event_data p) = Inr e"
    have ins: "advances kept (write_tips (saveRow TR now (tip_of_event u e i (ev_transactionHash p))))" for u i
      by (rule insert_tip_kept [OF tips]) (use p e in \<open>simp_all add: tip_of_event_def storable_event_def\<close>)
    show "advances kept (andThen (read_users (findOne UR
      (query_of [any_user\<lparr>uw_walletAddress := Some (te_receiverWallet e)\<rparr>])))
     (\<lambda>creator. case creator of
        None \<Rightarrow> throw (NotFound ''Creator not found with this wallet address'')
      | Some c \<Rightarrow> (case u_id c of
          None \<Rightarrow> throw (JsError ''null value in column creator_id violates not-null constraint'')
        | Some creatorId \<Rightarrow>
            andThen (write_tips (saveRow TR now
              (tip_of_event (or_null usdc) e creatorId (ev_transactionHash p))))
            (\<lambda>saved. andThen (notifyTipReceived NR show_num now (t_creatorId saved) (t_senderWallet saved)
                (Fin (t_amount saved)) (asset_value (t_asset saved)))
            (\<lambda>_. return_op ())))))"
      by (intro api_intros ins notifications_service.notify_kept [OF srv])
  qed
  show ?thesis
    unfolding handleContractWebhook_route_def handleContractWebhook_def isDuplicateTransaction_def find_tip_def
      persistEvent_def
    by (intro api_intros tip withdrawal_kept [OF tips])
qed

section \<open>Profiles\<close>

lemma updates_account_kept:
  assumes "updates_account i P s s'" and "\<And>r r'. P r r' \<Longrightarrow> u_walletAddress r' = u_walletAddress r"
  shows "kept s s'"
proof -
  obtain r r' where m: "mset (users_rows s') = add_mset r' (mset (users_rows s) - {#r#})"
    and "same_account r r'" "P r r'" and ok: "users_ok (users_rows s')" and s': "s' = s\<lparr>users_rows := users_rows s'\<rparr>"
    using assms(1) by (auto simp: updates_account_def)
  then have "rows_kept account_kept (users_rows s) (users_rows s')"
    using assms(2) by (intro rows_kept_replace [OF kept_refl(1) m]) (simp add: account_kept_def)
  then have "kept s (s\<lparr>users_rows := users_rows s'\<rparr>)" using ok by (intro kept_users) simp
  then show ?thesis using s' by simp
qed

lemma updateProfile_kept:
  assumes "users_contract UR"
  shows "advances kept (updateProfile_route UR now i dto)"
proof (rule advances_outcome)
  fix s x s'
  assume run: "updateProfile_route UR now i dto s = (Inr x, s')"
  show "kept s s'"
  proof (cases "users_ok (users_rows s)")
    case True
    show ?thesis
      by (rule updates_account_kept [OF updateProfile_updates [OF assms True run [unfolded updateProfile_route_def]]]) simp
  qed (simp add: kept_def api_sound_def)
next
  fix s e s'
  assume "updateProfile_route UR now i dto s = (Inl e, s')"
  then show "kept s s'"
    unfolding updateProfile_route_def updateProfile_def Let_def
    by (auto elim!: andThen_InlE dest!: own_user_state write_Inl(1) simp: store_user_def kept_same)
qed

lemma updateSocialLinks_kept:
  assumes "users_contract UR"
  shows "advances kept (updateSocialLinks_route UR now i links)"
proof (rule advances_outcome)
  fix s x s'
  assume run: "updateSocialLinks_route UR now i links s = (Inr x, s')"
  show "kept s s'"
  proof (cases "users_ok (users_rows s)")
    case True
    show ?thesis
      by (rule updates_account_kept [OF updateSocialLinks_updates
            [OF assms True run [unfolded updateSocialLinks_route_def], THEN conjunct2]]) simp
  qed (simp add: kept_def api_sound_def)
next
  fix s e s'
  assume "updateSocialLinks_route UR now i links s = (Inl e, s')"
  then show "kept s s'"
    unfolding updateSocialLinks_route_def updateSocialLinks_def
    by (auto elim!: andThen_InlE dest!: own_user_state write_Inl(1) simp: store_user_def throw_apply kept_same
        split: option.splits)
qed

lemma uploadAvatar_kept:
  assumes con: "users_contract UR"
  shows "advances kept (uploadAvatar_route UR disk now uuid i file :: ('z files_state_scheme, string) op)"
proof (rule advances_outcome)
  fix s url and s' :: "'z files_state_scheme"
  assume run: "uploadAvatar_route UR disk now uuid i file s = (Inr url, s')"
  show "kept s s'"
  proof (cases "users_ok (users_rows s)")
    case True
    then show ?thesis
    proof (rule uploadAvatar_InrE [OF con _ run [unfolded uploadAvatar_route_def]], goal_cases)
      case (1 r rows)
      have "rows_kept account_kept (users_rows s) rows"
        by (rule rows_kept_replace [OF kept_refl(1) 1(7)]) (simp add: account_kept_def same_account_def)
      then have "kept s (s\<lparr>users_rows := rows\<rparr>)" using 1(8) by (intro kept_users) simp
      moreover have "kept (s\<lparr>users_rows := rows\<rparr>) s'" by (rule kept_frame) (simp_all add: 1(6))
      ultimately show ?case using kept_preorder by (metis preorder_rel_def transpD)
    qed
  qed (simp add: kept_def api_sound_def)
next
  fix s e and s' :: "'z files_state_scheme"
  assume "uploadAvatar_route UR disk now uuid i file s = (Inl e, s')"
  then show "kept s s'"
    unfolding uploadAvatar_route_def uploadAvatar_def Let_def
    by (intro kept_frame)
      (auto elim!: andThen_InlE andThen_InrE dest!: own_user_state write_Inl(1)
        simp: store_user_def op_simps write_avatar_def unlink_avatar_def split: option.splits if_splits)
qed

section \<open>The requests\<close>

text \<open>Requests whose amounts the column stores exactly, at times at which a token's expiry is a date.\<close>

definition admissible :: "server \<Rightarrow> moment \<times> api_request \<Rightarrow> bool" where
  "admissible S = (\<lambda>(m, r). add_days (at_now m) (refreshTokenExpiresInDays (sv_config S)) \<noteq> None
     \<and> (case r of CreateTip dto \<Rightarrow> fits_decimal (dto_amount dto)
        | ContractEvent p raw sig \<Rightarrow> storable_event p | _ \<Rightarrow> True))"

definition server_contracts :: "server \<Rightarrow> bool" where
  "server_contracts S \<longleftrightarrow> users_contract (sv_users S) \<and> tips_contract (sv_tips S)
     \<and> notifications_contract (sv_notifications S) \<and> tokens_contract (sv_tokens S)"

lemma session_serviceI:
  assumes "server_contracts S" and "admissible S (m, r)"
  shows "session_service (sv_users S) (sv_tokens S) (sv_config S) (at_now m)"
  using assms by (auto simp: session_service_def session_service_axioms_def auth_store_def server_contracts_def
      admissible_def)

lemmas read_routes = getTip_route_def getTipById_def find_tip_def load_user_def find_user_def
  getMyReceivedTips_route_def getMySentTips_route_def getTipsByWallet_route_def getTipsByCreator_def
  getTipsBySupporter_def getTipsByWallet_def list_tips_def getMyStats_route_def getTipStats_def
  getTippingInfo_route_def getTippingInfo_def find_profile_def getProfile_route_def getProfile_def
  searchProfiles_route_def searchProfiles_def getAnalytics_def getNotifications_route_def
  getNotifications_def getUnreadCount_route_def getUnreadCount_def getNonce_route_def Let_def

lemma handle_kept:
  assumes S: "server_contracts S" and r: "admissible S (m, r)"
  shows "advances kept (handle S m r)"
proof -
  note ses = session_serviceI [OF S r]
  have srv: "notifications_service (sv_notifications S)"
    using S by (simp add: notifications_service_def server_contracts_def)
  have cons: "users_contract (sv_users S)" "tips_contract (sv_tips S)" "notifications_contract (sv_notifications S)"
    using S by (simp_all add: server_contracts_def)
  show ?thesis
  proof (cases r)
    case (CreateTip dto)
    then have "fits_decimal (dto_amount dto)" using r by (simp add: admissible_def)
    then show ?thesis unfolding CreateTip handle.simps
      by (intro advances_quietly kept_preorder createTip_kept [OF cons(2)])
  next
    case (ContractEvent p raw sig)
    then have "storable_event p" using r by (simp add: admissible_def)
    then show ?thesis unfolding ContractEvent handle.simps
      by (intro advances_quietly kept_preorder contract_event_kept [OF cons(2,3)])
  qed (simp_all only: handle.simps signup_route_def login_route_def refresh_route_def read_routes,
      (intro api_intros advances_authenticated confirmTip_kept [OF cons(2)] updateProfile_kept [OF cons(1)]
        updateSocialLinks_kept [OF cons(1)] uploadAvatar_kept [OF cons(1)]
        notifications_service.markAsRead_kept [OF srv] notifications_service.verifyOnChain_kept [OF srv]
        session_service.loginStellar_kept [OF ses] session_service.signup_kept [OF ses]
        session_service.loginWithEmail_kept [OF ses] session_service.refresh_kept [OF ses])+)
qed

lemma serve_kept:
  assumes "server_contracts S"
  shows "list_all (admissible S) rs \<Longrightarrow> kept s (serve S rs s)"
proof (induction rs arbitrary: s)
  case Nil
  show ?case by (simp add: kept_same)
next
  case (Cons x rs)
  obtain m r where x: "x = (m, r)" by (cases x)
  have "admissible S (m, r)" using Cons.prems x by simp
  then have "kept s (snd (handle S m r s))"
    by (rule advancesD [OF handle_kept [OF assms], where r = "fst (handle S m r s)"]) simp
  moreover have "kept (snd (handle S m r s)) (serve S rs (snd (handle S m r s)))"
    using Cons by simp
  ultimately show ?case using kept_preorder unfolding x serve.simps by (metis preorder_rel_def transpD)
qed

section \<open>The rows of others\<close>

text \<open>Everything that does not belong to the user \<open>i\<close>, and the public tips.\<close>

definition rows_of_others :: "string \<Rightarrow> 'z database_scheme \<Rightarrow>
    user multiset \<times> tip list \<times> notification multiset \<times> refresh_token list" where
  "rows_of_others i s =
     (filter_mset (\<lambda>u. u_id u \<noteq> Some i) (mset (users_rows s)), tips_rows s,
      filter_mset (\<lambda>n. n_userId n \<noteq> i) (mset (notifications_rows s)), tokens_rows s)"

text \<open>The claims of a guarded request.\<close>

fun guard_of :: "api_request \<Rightarrow> claims option" where
  "guard_of (OwnProfile c) = Some c"
| "guard_of (ReceivedTips c q) = Some c"
| "guard_of (SentTips c q) = Some c"
| "guard_of (OwnStats c) = Some c"
| "guard_of (Analytics c p a) = Some c"
| "guard_of (UpdateProfile c dto) = Some c"
| "guard_of (UpdateLinks c l) = Some c"
| "guard_of (UploadAvatar c f) = Some c"
| "guard_of (Inbox c p l) = Some c"
| "guard_of (UnreadCount c) = Some c"
| "guard_of (MarkRead c i) = Some c"
| "guard_of _ = None"

text \<open>The guard lets the handler run for the active user whose key the claims name, or stops.\<close>

lemma authenticated_cases:
  assumes con: "users_contract (sv_users S)" and c: "c_sub c = Some i"
    and run: "authenticated S c f s = (r, s')"
  obtains "s' = s" | "f i s = (r, s')" and "\<exists>u\<in>set (users_rows s). u_id u = Some i \<and> u_isActive u = Some True"
proof (cases "findOne (sv_users S) (query_of [any_user\<lparr>uw_id := Some i\<rparr>]) (users_rows s)")
  case (Inl e)
  then show thesis using run c that(1)
    by (auto simp: authenticated_def jwt_validate_def find_user_def op_simps andThen_def split: prod.splits)
next
  case (Inr x)
  note f = this
  show thesis
  proof (cases "\<exists>u. x = Some u \<and> u_isActive u = Some True")
    case False
    then have "s' = s" using run c f
      by (cases x) (auto simp: authenticated_def jwt_validate_def find_user_def op_simps andThen_def split: prod.splits)
    then show thesis by (rule that(1))
  next
    case True
    then obtain u where x: "x = Some u" and a: "u_isActive u = Some True" by blast
    obtain v where v: "v \<in> set (users_rows s)" "u_id v = Some i" "u = user_view None v"
      using repository.find_one_Some [OF con f [unfolded x]] by (auto simp: selects_user)
    have "u_id u = Some i" "u_isActive v = Some True" using v a by (simp_all add: user_view_def)
    then show thesis using that(2) v run c f x a
      by (auto simp: authenticated_def jwt_validate_def find_user_def op_simps andThen_def split: prod.splits)
  qed
qed

lemma filter_replaced:
  assumes "mset ys = add_mset b (mset xs - {#a#})" and "a \<in> set xs" and "\<not> P a" and "\<not> P b"
  shows "filter_mset P (mset ys) = filter_mset P (mset xs)"
proof -
  obtain M where M: "mset xs = add_mset a M" using multi_member_split [of a "mset xs"] assms(2) by auto
  show ?thesis unfolding assms(1) M using assms(3,4) by simp
qed

lemma others_after_update:
  "updates_account i P s s' \<Longrightarrow> rows_of_others i s' = rows_of_others i s"
proof -
  assume "updates_account i P s s'"
  then obtain r r' where r: "r \<in> set (users_rows s)" "u_id r = Some i" "u_id r' = Some i"
    and m: "mset (users_rows s') = add_mset r' (mset (users_rows s) - {#r#})"
    and s': "s' = s\<lparr>users_rows := users_rows s'\<rparr>"
    by (auto simp: updates_account_def same_account_def)
  have "filter_mset (\<lambda>u. u_id u \<noteq> Some i) (mset (users_rows s'))
      = filter_mset (\<lambda>u. u_id u \<noteq> Some i) (mset (users_rows s))"
    by (rule filter_replaced [OF m r(1)]) (use r in simp_all)
  moreover have "tips_rows s' = tips_rows s \<and> notifications_rows s' = notifications_rows s \<and> tokens_rows s' = tokens_rows s"
    using arg_cong [OF s', of tips_rows] arg_cong [OF s', of notifications_rows] arg_cong [OF s', of tokens_rows]
    by simp
  ultimately show ?thesis by (simp add: rows_of_others_def)
qed

lemma others_frame:
  "users_rows s' = users_rows s \<Longrightarrow> tips_rows s' = tips_rows s \<Longrightarrow>
   notifications_rows s' = notifications_rows s \<Longrightarrow> tokens_rows s' = tokens_rows s \<Longrightarrow>
   rows_of_others i s' = rows_of_others i s"
  by (simp add: rows_of_others_def)

lemma updateProfile_others:
  assumes "users_contract UR" and "users_ok (users_rows s)" and run: "updateProfile_route UR now i dto s = (r, s')"
  shows "rows_of_others i s' = rows_of_others i s"
proof (cases r)
  case (Inr x)
  with run have "updateProfile UR now i dto s = (Inr x, s')" by (simp add: updateProfile_route_def)
  from others_after_update [OF updateProfile_updates [OF assms(1,2) this]] show ?thesis .
next
  case (Inl e)
  with run have "s' = s" unfolding updateProfile_route_def updateProfile_def Let_def
    by (auto elim!: andThen_InlE dest!: own_user_state write_Inl(1) simp: store_user_def)
  then show ?thesis by simp
qed

lemma updateSocialLinks_others:
  assumes "users_contract UR" and "users_ok (users_rows s)" and run: "updateSocialLinks_route UR now i l s = (r, s')"
  shows "rows_of_others i s' = rows_of_others i s"
proof (cases r)
  case (Inr x)
  with run have "updateSocialLinks UR now i l s = (Inr x, s')" by (simp add: updateSocialLinks_route_def)
  from others_after_update [OF updateSocialLinks_updates [OF assms(1,2) this, THEN conjunct2]] show ?thesis .
next
  case (Inl e)
  with run have "s' = s" unfolding updateSocialLinks_route_def updateSocialLinks_def
    by (auto elim!: andThen_InlE dest!: own_user_state write_Inl(1) simp: store_user_def throw_apply split: option.splits)
  then show ?thesis by simp
qed

lemma uploadAvatar_Inl:
  "uploadAvatar UR disk now uuid i file s = (Inl e, s') \<Longrightarrow>
   users_rows s' = users_rows s \<and> tips_rows s' = tips_rows s \<and> notifications_rows s' = notifications_rows s
   \<and> tokens_rows s' = tokens_rows s"
  unfolding uploadAvatar_def Let_def
  by (auto elim!: andThen_InlE andThen_InrE dest!: own_user_state write_Inl(1)
      simp: store_user_def op_simps write_avatar_def unlink_avatar_def split: option.splits if_splits)

lemma uploadAvatar_others:
  fixes s :: "'z files_state_scheme"
  assumes con: "users_contract UR" and ok: "users_ok (users_rows s)"
    and run: "uploadAvatar_route UR disk now uuid i file s = (r, s')"
  shows "rows_of_others i s' = rows_of_others i s"
proof (cases r)
  case (Inr url)
  with run have run: "uploadAvatar UR disk now uuid i file s = (Inr url, s')" by (simp add: uploadAvatar_route_def)
  show ?thesis
  proof (rule uploadAvatar_InrE [OF con ok run], goal_cases)
    case (1 v rows)
    have "updates_account i (\<lambda>_ _. True) s (s\<lparr>users_rows := rows\<rparr>)"
      unfolding updates_account_def
      by (rule bexI [OF _ 1(1)], rule exI [of _ "v\<lparr>u_avatarUrl := Some url\<rparr>"]) (use 1 in \<open>simp add: same_account_def\<close>)
    from others_after_update [OF this] show ?case using 1(6) by (simp add: rows_of_others_def)
  qed
next
  case (Inl e)
  with run have "uploadAvatar UR disk now uuid i file s = (Inl e, s')" by (simp add: uploadAvatar_route_def)
  from uploadAvatar_Inl [OF this] show ?thesis by (intro others_frame) simp_all
qed

context notifications_service
begin

lemma markAsRead_others:
  assumes "notifications_ok (notifications_rows s)" and run: "markAsRead_route NR now u i s = (x, s')"
  shows "rows_of_others u s' = rows_of_others u s"
proof (cases x)
  case (Inr n)
  with run have "markAsRead NR now i u s = (Inr n, s')" by (simp add: markAsRead_route_def)
  then show ?thesis
  proof (rule mark_Inr [OF _ assms(1)])
    fix r rows
    assume "r \<in> set (notifications_rows s)" "n_userId r = u" "n = r\<lparr>n_isRead := Some True\<rparr>"
      and s': "s' = s\<lparr>notifications_rows := rows\<rparr>"
      and m: "mset rows = add_mset n (mset (notifications_rows s) - {#r#})"
    then show ?thesis using filter_replaced [OF m, of "\<lambda>n. n_userId n \<noteq> u"] by (simp add: rows_of_others_def)
  qed
next
  case (Inl e)
  with run have "markAsRead NR now i u s = (Inl e, s')" by (simp add: markAsRead_route_def)
  from mark_Inl [OF this] show ?thesis by simp
qed

end

lemma quietly_state: "quietly m s = (r, s') \<Longrightarrow> \<exists>r'. m s = (r', s')"
  by (auto simp: quietly_def andThen_def return_op_def split: prod.splits sum.splits)

lemma unchanged_preorder: "preorder_rel (\<lambda>s s'. s' = s)"
  by (auto simp: preorder_rel_def reflp_def transp_def)

text \<open>The guarded requests that write.\<close>

fun writes :: "api_request \<Rightarrow> bool" where
  "writes (UpdateProfile c dto) = True"
| "writes (UpdateLinks c l) = True"
| "writes (UploadAvatar c f) = True"
| "writes (MarkRead c i) = True"
| "writes _ = False"

lemma guarded_reads:
  assumes "guard_of q = Some c" and "\<not> writes q"
  shows "advances (\<lambda>s s'. s' = s) (handle S m q)"
  using assms
  by (cases q; simp only: guard_of.simps writes.simps option.distinct simp_thms handle.simps read_routes;
      intro advances_authenticated advances_intros unchanged_preorder)

lemma handle_others:
  assumes S: "server_contracts S" and s: "api_sound s" and g: "guard_of q = Some c" "c_sub c = Some i"
    and run: "handle S m q s = (r, s')"
  shows "rows_of_others i s' = rows_of_others i s"
proof -
  have con: "users_contract (sv_users S)" and srv: "notifications_service (sv_notifications S)"
    using S by (simp_all add: notifications_service_def server_contracts_def)
  have ok: "users_ok (users_rows s)" "notifications_ok (notifications_rows s)" using s by (simp_all add: api_sound_def)
  note sub = authenticated_cases [OF con g(2)]
  show ?thesis
  proof (cases q)
    case (UpdateProfile c' dto)
    with g run have "authenticated S c (\<lambda>u. quietly (updateProfile_route (sv_users S) (at_now m) u dto)) s = (r, s')" by simp
    then show ?thesis
      by (rule sub) (auto dest!: quietly_state intro: updateProfile_others [OF con ok(1)])
  next
    case (UpdateLinks c' l)
    with g run have "authenticated S c (\<lambda>u. quietly (updateSocialLinks_route (sv_users S) (at_now m) u l)) s = (r, s')" by simp
    then show ?thesis
      by (rule sub) (auto dest!: quietly_state intro: updateSocialLinks_others [OF con ok(1)])
  next
    case (UploadAvatar c' f)
    with g run have "authenticated S c (\<lambda>u. quietly (uploadAvatar_route (sv_users S) (at_disk_error m) (at_now m) (at_uuid m) u f)) s = (r, s')" by simp
    then show ?thesis
      by (rule sub) (auto dest!: quietly_state intro: uploadAvatar_others [OF con ok(1)])
  next
    case (MarkRead c' j)
    with g run have "authenticated S c (\<lambda>u. quietly (markAsRead_route (sv_notifications S) (at_now m) u j)) s = (r, s')" by simp
    then show ?thesis
      by (rule sub) (auto dest!: quietly_state intro: notifications_service.markAsRead_others [OF srv ok(2)])
  qed (use advancesD [OF guarded_reads [OF g(1)] run] in simp_all)
qed

lemma guarded_handler: "guard_of q = Some c \<Longrightarrow> \<exists>f. handle S m q = authenticated S c f"
  by (cases q) auto

lemma handle_without_account:
  assumes "users_contract (sv_users S)" and "guard_of q = Some c" and "c_sub c = Some i"
    and "\<forall>u\<in>set (users_rows s). u_id u = Some i \<longrightarrow> u_isActive u \<noteq> Some True"
    and "handle S m q s = (r, s')"
  shows "s' = s"
proof -
  obtain f :: "string \<Rightarrow> ('a files_state_scheme, unit) op" where "handle S m q = authenticated S c f"
    using guarded_handler [OF assms(2)] by blast
  with assms(5) have "authenticated S c f s = (r, s')" by simp
  then show ?thesis
    by (rule authenticated_cases [OF assms(1,3)]) (use assms(4) in auto)
qed

end
