(* ===== verification/Schema.thy ===== *)
theory Schema
  imports Entities
begin

text \<open>
  The schema of the database: the statements of the two migrations of \<open>src/src/migrations\<close> with
  what PostgreSQL does for them, the columns that the entities of \<open>src/src/entities\<close> declare to
  TypeORM, and the choice between the two that \<open>src/src/config/typeorm.config.ts\<close> makes. The
  lemmas show that each migration is undone by its \<open>down\<close>, that the indexes can be applied again
  after a statement was not reached, and on which columns the migrations and the entities differ.
\<close>

section \<open>The catalogue\<close>

datatype column_type =
    T_Uuid | T_Varchar | T_Text | T_Jsonb | T_Boolean | T_Timestamp | T_Numeric nat nat | T_Enum string

datatype column_default = D_None | D_Uuid | D_Now | D_Value string

record column =
  col_name :: string
  col_type :: column_type
  col_not_null :: bool
  col_default :: column_default

text \<open>A foreign key: its column, the table and the column it references.\<close>

type_synonym foreign_key = "string \<times> string \<times> string"

record table =
  tb_columns :: "column list"
  tb_unique :: "(string \<times> string) list"
  tb_primary :: "string \<times> string"
  tb_foreign :: "(string \<times> foreign_key) list"

text \<open>
  An index: its table, its key expressions and its predicate. A build outside a transaction that
  fails leaves the index behind, marked invalid.
\<close>

record index =
  ix_table :: string
  ix_keys :: "string list"
  ix_where :: "string option"
  ix_valid :: bool

record schema =
  sc_extensions :: "string list"
  sc_types :: "(string \<times> string list) list"
  sc_tables :: "(string \<times> table) list"
  sc_indexes :: "(string \<times> index) list"

definition empty_schema :: schema where
  "empty_schema = \<lparr>sc_extensions = [], sc_types = [], sc_tables = [], sc_indexes = []\<rparr>"

section \<open>Statements\<close>

text \<open>
  The statements that the migrations send. \<open>CreateExtension\<close>, \<open>CreateIndex\<close> and \<open>DropIndex\<close> carry
  \<open>IF NOT EXISTS\<close> or \<open>IF EXISTS\<close>; a foreign key is \<open>NO ACTION\<close> on deletion and update.
\<close>

datatype ddl =
    CreateExtension string
  | CreateType string "string list"
  | CreateTable string "column list" "(string \<times> string) list" "string \<times> string"
  | AddForeignKey string string foreign_key
  | DropForeignKey string string
  | DropTable string
  | DropType string
  | CreateIndex string string "string list" "string option"
  | DropIndex string

definition known_names :: "('k \<times> 'v) list \<Rightarrow> 'k list" where
  "known_names xs = map fst xs"

definition without :: "'k \<Rightarrow> ('k \<times> 'v) list \<Rightarrow> ('k \<times> 'v) list" where
  "without n xs = filter (\<lambda>x. fst x \<noteq> n) xs"

definition update_at :: "'k \<Rightarrow> ('v \<Rightarrow> 'v) \<Rightarrow> ('k \<times> 'v) list \<Rightarrow> ('k \<times> 'v) list" where
  "update_at n f xs = map (\<lambda>x. if fst x = n then (n, f (snd x)) else x) xs"

fun type_known :: "schema \<Rightarrow> column_type \<Rightarrow> bool" where
  "type_known s (T_Enum n) = (n \<in> set (known_names (sc_types s)))"
| "type_known s t = True"

definition default_known :: "schema \<Rightarrow> column_default \<Rightarrow> bool" where
  "default_known s d = (d = D_Uuid \<longrightarrow> ''uuid-ossp'' \<in> set (sc_extensions s))"

definition column_names :: "table \<Rightarrow> string list" where
  "column_names t = map col_name (tb_columns t)"

definition constraint_names :: "table \<Rightarrow> string list" where
  "constraint_names t = fst (tb_primary t) # known_names (tb_unique t) @ known_names (tb_foreign t)"

definition is_key :: "table \<Rightarrow> string \<Rightarrow> bool" where
  "is_key t c = (c = snd (tb_primary t) \<or> c \<in> snd ` set (tb_unique t))"

definition references :: "string \<Rightarrow> table \<Rightarrow> bool" where
  "references n t = (n \<in> (\<lambda>f. fst (snd (snd f))) ` set (tb_foreign t))"

definition uses_type :: "string \<Rightarrow> table \<Rightarrow> bool" where
  "uses_type n t = (T_Enum n \<in> col_type ` set (tb_columns t))"

fun exec :: "ddl \<Rightarrow> schema \<Rightarrow> string + schema" where
  "exec (CreateExtension e) s = Inr (s\<lparr>sc_extensions := List.insert e (sc_extensions s)\<rparr>)"
| "exec (CreateType n vs) s =
     (if n \<in> set (known_names (sc_types s)) then Inl ''type already exists''
      else Inr (s\<lparr>sc_types := sc_types s @ [(n, vs)]\<rparr>))"
| "exec (CreateTable n cols us pk) s =
     (if n \<in> set (known_names (sc_tables s)) \<or> n \<in> set (known_names (sc_indexes s)) then Inl ''relation already exists''
      else if \<exists>c\<in>set cols. \<not> type_known s (col_type c) then Inl ''type does not exist''
      else if \<exists>c\<in>set cols. \<not> default_known s (col_default c) then Inl ''function does not exist''
      else Inr (s\<lparr>sc_tables := sc_tables s @
        [(n, \<lparr>tb_columns = cols, tb_unique = us, tb_primary = pk, tb_foreign = []\<rparr>)]\<rparr>))"
| "exec (AddForeignKey n k (c, n', c')) s =
     (case map_of (sc_tables s) n of None \<Rightarrow> Inl ''relation does not exist''
      | Some t \<Rightarrow> if k \<in> set (constraint_names t) then Inl ''constraint already exists''
        else if c \<notin> set (column_names t) then Inl ''column does not exist''
        else (case map_of (sc_tables s) n' of None \<Rightarrow> Inl ''relation does not exist''
          | Some t' \<Rightarrow> if \<not> is_key t' c' then Inl ''no unique constraint matches the referenced column''
            else Inr (s\<lparr>sc_tables := update_at n (\<lambda>t. t\<lparr>tb_foreign := tb_foreign t @ [(k, c, n', c')]\<rparr>) (sc_tables s)\<rparr>)))"
| "exec (DropForeignKey n k) s =
     (case map_of (sc_tables s) n of None \<Rightarrow> Inl ''relation does not exist''
      | Some t \<Rightarrow> if k \<notin> set (known_names (tb_foreign t)) then Inl ''constraint does not exist''
        else Inr (s\<lparr>sc_tables := update_at n (\<lambda>t. t\<lparr>tb_foreign := without k (tb_foreign t)\<rparr>) (sc_tables s)\<rparr>))"
| "exec (DropTable n) s =
     (if n \<notin> set (known_names (sc_tables s)) then Inl ''relation does not exist''
      else if \<exists>x\<in>set (sc_tables s). fst x \<noteq> n \<and> references n (snd x) then Inl ''other objects depend on it''
      else Inr (s\<lparr>sc_tables := without n (sc_tables s),
                 sc_indexes := filter (\<lambda>x. ix_table (snd x) \<noteq> n) (sc_indexes s)\<rparr>))"
| "exec (DropType n) s =
     (if n \<notin> set (known_names (sc_types s)) then Inl ''type does not exist''
      else if \<exists>x\<in>set (sc_tables s). uses_type n (snd x) then Inl ''other objects depend on it''
      else Inr (s\<lparr>sc_types := without n (sc_types s)\<rparr>))"
| "exec (CreateIndex i n ks w) s =
     (if n \<notin> set (known_names (sc_tables s)) then Inl ''relation does not exist''
      else if i \<in> set (known_names (sc_indexes s)) \<or> i \<in> set (known_names (sc_tables s)) then Inr s
      else Inr (s\<lparr>sc_indexes := sc_indexes s @ [(i, \<lparr>ix_table = n, ix_keys = ks, ix_where = w, ix_valid = True\<rparr>)]\<rparr>))"
| "exec (DropIndex i) s = Inr (s\<lparr>sc_indexes := without i (sc_indexes s)\<rparr>)"

text \<open>
  \<open>queryRunner.query\<close> for one statement after the other: the first refusal rejects, and what was
  reached before it stays. A migration runs in a transaction of its own
  (\<open>migrationsTransactionMode: 'each'\<close>) unless it opts out.
\<close>

fun run :: "ddl list \<Rightarrow> schema \<Rightarrow> string option \<times> schema" where
  "run [] s = (None, s)"
| "run (d # ds) s = (case exec d s of Inl e \<Rightarrow> (Some e, s) | Inr s' \<Rightarrow> run ds s')"

definition in_transaction :: "ddl list \<Rightarrow> schema \<Rightarrow> string option \<times> schema" where
  "in_transaction ds s = (case run ds s of (None, s') \<Rightarrow> (None, s') | (Some e, s') \<Rightarrow> (Some e, s))"

section \<open>The migrations\<close>

definition not_null :: "string \<Rightarrow> column_type \<Rightarrow> column_default \<Rightarrow> column" where
  "not_null n t d = \<lparr>col_name = n, col_type = t, col_not_null = True, col_default = d\<rparr>"

definition nullable :: "string \<Rightarrow> column_type \<Rightarrow> column" where
  "nullable n t = \<lparr>col_name = n, col_type = t, col_not_null = False, col_default = D_None\<rparr>"

definition users_columns :: "column list" where
  "users_columns =
    [not_null ''id'' T_Uuid D_Uuid, not_null ''username'' T_Varchar D_None, nullable ''displayName'' T_Varchar,
     nullable ''bio'' T_Text, nullable ''avatarUrl'' T_Varchar, nullable ''socialLinks'' T_Jsonb,
     nullable ''email'' T_Varchar, nullable ''password'' T_Varchar, nullable ''walletAddress'' T_Varchar,
     not_null ''authMethod'' (T_Enum ''users_authmethod_enum'') (D_Value ''email''),
     not_null ''role'' (T_Enum ''users_role_enum'') (D_Value ''user''),
     not_null ''isActive'' T_Boolean (D_Value ''true''),
     not_null ''createdAt'' T_Timestamp D_Now, not_null ''updatedAt'' T_Timestamp D_Now]"

definition tips_columns :: "column list" where
  "tips_columns =
    [not_null ''id'' T_Uuid D_Uuid, not_null ''creator_id'' T_Uuid D_None, nullable ''supporter_id'' T_Uuid,
     not_null ''sender_wallet'' T_Varchar D_None, not_null ''receiver_wallet'' T_Varchar D_None,
     not_null ''amount'' (T_Numeric 20 7) D_None, not_null ''asset'' (T_Enum ''tips_asset_enum'') (D_Value ''XLM''),
     nullable ''asset_issuer'' T_Varchar, nullable ''message'' T_Varchar, nullable ''transactionHash'' T_Varchar,
     not_null ''status'' (T_Enum ''tips_status_enum'') (D_Value ''pending''), not_null ''createdAt'' T_Timestamp D_Now]"

definition notifications_columns :: "column list" where
  "notifications_columns =
    [not_null ''id'' T_Uuid D_Uuid, not_null ''user_id'' T_Uuid D_None,
     not_null ''type'' (T_Enum ''notifications_type_enum'') (D_Value ''tip_received''),
     not_null ''title'' T_Varchar D_None, not_null ''message'' T_Text D_None,
     not_null ''isRead'' T_Boolean (D_Value ''false''), nullable ''metadata'' T_Jsonb,
     not_null ''createdAt'' T_Timestamp D_Now]"

definition refresh_tokens_columns :: "column list" where
  "refresh_tokens_columns =
    [not_null ''id'' T_Uuid D_Uuid, not_null ''user_id'' T_Uuid D_None, not_null ''token'' T_Varchar D_None,
     not_null ''expiresAt'' T_Timestamp D_None, not_null ''isRevoked'' T_Boolean (D_Value ''false''),
     not_null ''createdAt'' T_Timestamp D_Now]"

definition initial_up :: "ddl list" where
  "initial_up =
    [CreateExtension ''uuid-ossp'',
     CreateType ''users_authmethod_enum'' [''email'', ''stellar''],
     CreateType ''users_role_enum'' [''user'', ''admin''],
     CreateType ''tips_asset_enum'' [''XLM'', ''USDC''],
     CreateType ''tips_status_enum'' [''pending'', ''completed'', ''failed''],
     CreateType ''notifications_type_enum'' [''tip_received''],
     CreateTable ''users'' users_columns
       [(''UQ_users_username'', ''username''), (''UQ_users_email'', ''email''), (''UQ_users_walletAddress'', ''walletAddress'')]
       (''PK_users_id'', ''id''),
     CreateTable ''tips'' tips_columns [(''UQ_tips_transactionHash'', ''transactionHash'')] (''PK_tips_id'', ''id''),
     CreateTable ''notifications'' notifications_columns [] (''PK_notifications_id'', ''id''),
     CreateTable ''refresh_tokens'' refresh_tokens_columns [(''UQ_refresh_tokens_token'', ''token'')]
       (''PK_refresh_tokens_id'', ''id''),
     AddForeignKey ''tips'' ''FK_tips_creator_id'' (''creator_id'', ''users'', ''id''),
     AddForeignKey ''tips'' ''FK_tips_supporter_id'' (''supporter_id'', ''users'', ''id''),
     AddForeignKey ''notifications'' ''FK_notifications_user_id'' (''user_id'', ''users'', ''id''),
     AddForeignKey ''refresh_tokens'' ''FK_refresh_tokens_user_id'' (''user_id'', ''users'', ''id'')]"

definition initial_down :: "ddl list" where
  "initial_down =
    [DropForeignKey ''refresh_tokens'' ''FK_refresh_tokens_user_id'',
     DropForeignKey ''notifications'' ''FK_notifications_user_id'',
     DropForeignKey ''tips'' ''FK_tips_supporter_id'',
     DropForeignKey ''tips'' ''FK_tips_creator_id'',
     DropTable ''refresh_tokens'', DropTable ''notifications'', DropTable ''tips'', DropTable ''users'',
     DropType ''notifications_type_enum'', DropType ''tips_status_enum'', DropType ''tips_asset_enum'',
     DropType ''users_role_enum'', DropType ''users_authmethod_enum'']"

definition indexes_up :: "ddl list" where
  "indexes_up =
    [CreateIndex ''idx_tips_creator_created'' ''tips'' [''creator_id'', ''createdAt DESC''] None,
     CreateIndex ''idx_tips_supporter_created'' ''tips'' [''supporter_id'', ''createdAt DESC''] None,
     CreateIndex ''idx_tips_sender_wallet'' ''tips'' [''sender_wallet''] None,
     CreateIndex ''idx_tips_receiver_wallet'' ''tips'' [''receiver_wallet''] None,
     CreateIndex ''idx_tips_creator_asset'' ''tips'' [''creator_id'', ''asset''] None,
     CreateIndex ''idx_users_username_lower'' ''users'' [''LOWER(username)''] None,
     CreateIndex ''idx_users_wallet_lower'' ''users'' [''LOWER(walletAddress)''] None,
     CreateIndex ''idx_notifications_user_read'' ''notifications'' [''user_id'', ''isRead'', ''createdAt DESC''] None,
     CreateIndex ''idx_refresh_tokens_user_active'' ''refresh_tokens'' [''user_id'', ''isRevoked''] (Some ''isRevoked = false'')]"

definition indexes_down :: "ddl list" where
  "indexes_down =
    [DropIndex ''idx_refresh_tokens_user_active'', DropIndex ''idx_notifications_user_read'',
     DropIndex ''idx_users_wallet_lower'', DropIndex ''idx_users_username_lower'', DropIndex ''idx_tips_creator_asset'',
     DropIndex ''idx_tips_receiver_wallet'', DropIndex ''idx_tips_sender_wallet'', DropIndex ''idx_tips_supporter_created'',
     DropIndex ''idx_tips_creator_created'']"

text \<open>All pending migrations of a database that has seen none, in their order.\<close>

definition migrate :: "schema \<Rightarrow> string option \<times> schema" where
  "migrate s = (case in_transaction initial_up s of (None, s') \<Rightarrow> run indexes_up s' | failed \<Rightarrow> failed)"

lemma migrate_empty: "fst (migrate empty_schema) = None"
  by code_simp

section \<open>What TypeORM expects\<close>

text \<open>
  The columns that the decorators of the entities declare: the name in the database, whether it may
  be null and is unique, whether a query without an explicit selection reads it, and the values of
  the enumeration that TypeScript gives it.
\<close>

record entity_column =
  ec_name :: string
  ec_nullable :: bool
  ec_unique :: bool
  ec_select :: bool
  ec_values :: "string list"

record entity =
  en_table :: string
  en_columns :: "entity_column list"

definition plain :: "string \<Rightarrow> entity_column" where
  "plain n = \<lparr>ec_name = n, ec_nullable = False, ec_unique = False, ec_select = True, ec_values = []\<rparr>"

definition user_entity :: entity where
  "user_entity = \<lparr>en_table = ''users'', en_columns =
    [plain ''id'', (plain ''username'')\<lparr>ec_unique := True\<rparr>, (plain ''displayName'')\<lparr>ec_nullable := True\<rparr>,
     (plain ''bio'')\<lparr>ec_nullable := True\<rparr>, (plain ''avatarUrl'')\<lparr>ec_nullable := True\<rparr>,
     (plain ''socialLinks'')\<lparr>ec_nullable := True\<rparr>, (plain ''email'')\<lparr>ec_nullable := True, ec_unique := True\<rparr>,
     (plain ''password'')\<lparr>ec_nullable := True, ec_select := False\<rparr>,
     (plain ''walletAddress'')\<lparr>ec_nullable := True, ec_unique := True\<rparr>,
     (plain ''authMethod'')\<lparr>ec_values := map auth_method_value [EMAIL, STELLAR]\<rparr>,
     (plain ''role'')\<lparr>ec_values := map role_value [USER, ADMIN]\<rparr>,
     plain ''isActive'', plain ''createdAt'', plain ''updatedAt'']\<rparr>"

fun status_value :: "tip_status \<Rightarrow> string" where
  "status_value PENDING = ''pending''"
| "status_value COMPLETED = ''completed''"
| "status_value FAILED = ''failed''"

fun notification_type_value :: "notification_type \<Rightarrow> string" where
  "notification_type_value TIP_RECEIVED = ''tip_received''"
| "notification_type_value DISCREPANCY_DETECTED = ''discrepancy_detected''"

definition tip_entity :: entity where
  "tip_entity = \<lparr>en_table = ''tips'', en_columns =
    [plain ''id'', plain ''creator_id'', (plain ''supporter_id'')\<lparr>ec_nullable := True\<rparr>,
     plain ''sender_wallet'', plain ''receiver_wallet'', plain ''amount'',
     (plain ''asset'')\<lparr>ec_values := map asset_value [XLM, USDC]\<rparr>,
     (plain ''asset_issuer'')\<lparr>ec_nullable := True\<rparr>, (plain ''message'')\<lparr>ec_nullable := True\<rparr>,
     (plain ''transactionHash'')\<lparr>ec_nullable := True, ec_unique := True\<rparr>,
     (plain ''status'')\<lparr>ec_values := map status_value [PENDING, COMPLETED, FAILED]\<rparr>,
     (plain ''withdrawal_status'')\<lparr>ec_values := map withdrawal_status_value [W_NONE, W_PENDING, W_COMPLETED, W_FAILED]\<rparr>,
     (plain ''withdrawal_transaction_hash'')\<lparr>ec_nullable := True, ec_unique := True\<rparr>, plain ''createdAt'']\<rparr>"

definition notification_entity :: entity where
  "notification_entity = \<lparr>en_table = ''notifications'', en_columns =
    [plain ''id'', plain ''user_id'',
     (plain ''type'')\<lparr>ec_values := map notification_type_value [TIP_RECEIVED, DISCREPANCY_DETECTED]\<rparr>,
     plain ''title'', plain ''message'', plain ''isRead'', (plain ''metadata'')\<lparr>ec_nullable := True\<rparr>, plain ''createdAt'']\<rparr>"

definition refresh_token_entity :: entity where
  "refresh_token_entity = \<lparr>en_table = ''refresh_tokens'', en_columns =
    [plain ''id'', plain ''user_id'', (plain ''token'')\<lparr>ec_unique := True\<rparr>, plain ''expiresAt'',
     plain ''isRevoked'', plain ''createdAt'']\<rparr>"

definition entities :: "entity list" where
  "entities = [user_entity, tip_entity, notification_entity, refresh_token_entity]"

definition lacking :: "schema \<Rightarrow> entity \<Rightarrow> string list" where
  "lacking s e = filter (\<lambda>c. case map_of (sc_tables s) (en_table e) of None \<Rightarrow> True | Some t \<Rightarrow> c \<notin> set (column_names t))
     (map ec_name (en_columns e))"

definition same_column :: "table \<Rightarrow> column \<Rightarrow> entity_column \<Rightarrow> bool" where
  "same_column t k c \<longleftrightarrow> ec_name c = col_name k \<and> ec_nullable c = (\<not> col_not_null k)
     \<and> ec_unique c = (col_name k \<in> snd ` set (tb_unique t))"

definition columns_agree :: "schema \<Rightarrow> entity \<Rightarrow> bool" where
  "columns_agree s e = (case map_of (sc_tables s) (en_table e) of None \<Rightarrow> False
     | Some t \<Rightarrow> list_all (\<lambda>k. list_ex (same_column t k) (en_columns e)) (tb_columns t))"

text \<open>The values of an entity's column that the type of the column in the database does not have.\<close>

fun refused_by_type :: "schema \<Rightarrow> column_type \<Rightarrow> string list \<Rightarrow> string list" where
  "refused_by_type s (T_Enum n) vs = (case map_of (sc_types s) n of None \<Rightarrow> vs | Some ws \<Rightarrow> filter (\<lambda>v. v \<notin> set ws) vs)"
| "refused_by_type s t vs = []"

definition refused_values :: "schema \<Rightarrow> entity \<Rightarrow> string list" where
  "refused_values s e = (case map_of (sc_tables s) (en_table e) of None \<Rightarrow> []
     | Some t \<Rightarrow> concat (map (\<lambda>c. concat (map (\<lambda>k. if col_name k = ec_name c then refused_by_type s (col_type k) (ec_values c) else [])
         (tb_columns t))) (en_columns e)))"

text \<open>
  A \<open>find\<close> names every column it selects and a \<open>save\<close> of a new row every column of the entity; a
  statement that names an unknown column is refused.
\<close>

definition find_accepted :: "schema \<Rightarrow> entity \<Rightarrow> bool" where
  "find_accepted s e = (case map_of (sc_tables s) (en_table e) of None \<Rightarrow> False
     | Some t \<Rightarrow> set (map ec_name (filter ec_select (en_columns e))) \<subseteq> set (column_names t))"

definition insert_accepted :: "schema \<Rightarrow> entity \<Rightarrow> bool" where
  "insert_accepted s e = (case map_of (sc_tables s) (en_table e) of None \<Rightarrow> False
     | Some t \<Rightarrow> set (map ec_name (en_columns e)) \<subseteq> set (column_names t))"

text \<open>\<open>typeormConfig\<close>: what the process does to the schema when it starts.\<close>

record typeorm_config =
  migrationsRun :: bool
  synchronize :: bool
  query_logging :: bool
  db_host :: string
  db_port :: jsnum
  db_username :: string
  db_password :: string
  db_name :: string

definition typeorm_config_of :: "(string \<Rightarrow> string option) \<Rightarrow> typeorm_config" where
  "typeorm_config_of env = (let isProduction = (env ''NODE_ENV'' = Some ''production'') in
     \<lparr>migrationsRun = isProduction, synchronize = (\<not> isProduction), query_logging = (\<not> isProduction),
      db_host = str_or (env ''DB_HOST'') ''localhost'',
      db_port = (case env ''DB_PORT'' of Some p \<Rightarrow> if p = '''' then Fin 5432 else js_Number p | None \<Rightarrow> Fin 5432),
      db_username = str_or (env ''DB_USERNAME'') ''postgres'', db_password = str_or (env ''DB_PASSWORD'') ''postgres'',
      db_name = str_or (env ''DB_NAME'') ''stellartip''\<rparr>)"

text \<open>\<open>synchronized\<close> stands for TypeORM's schema builder.\<close>

definition start_database :: "(schema \<Rightarrow> schema) \<Rightarrow> (string \<Rightarrow> string option) \<Rightarrow> schema \<Rightarrow> string option \<times> schema" where
  "start_database synchronized env s = (let config = typeorm_config_of env;
     s1 = (if synchronize config then synchronized s else s)
     in if migrationsRun config then migrate s1 else (None, s1))"

section \<open>Well-formed catalogues\<close>

definition schema_ok :: "schema \<Rightarrow> bool" where
  "schema_ok s \<longleftrightarrow> distinct (known_names (sc_tables s))
     \<and> (\<forall>n t c. (n, t) \<in> set (sc_tables s) \<longrightarrow> c \<in> set (tb_columns t) \<longrightarrow> type_known s (col_type c))
     \<and> (\<forall>n t k c n' c'. (n, t) \<in> set (sc_tables s) \<longrightarrow> (k, c, n', c') \<in> set (tb_foreign t) \<longrightarrow>
          n' \<in> set (known_names (sc_tables s)))
     \<and> (\<forall>i ix. (i, ix) \<in> set (sc_indexes s) \<longrightarrow> ix_table ix \<in> set (known_names (sc_tables s)))"

lemma known_names_simps [simp]:
  "known_names [] = []" "known_names (x # xs) = fst x # known_names xs" "known_names (xs @ ys) = known_names xs @ known_names ys"
  by (simp_all add: known_names_def)

lemma known_names_update [simp]: "known_names (update_at n f xs) = known_names xs"
  by (induction xs) (auto simp: update_at_def)

lemma known_names_mem: "x \<in> set xs \<Longrightarrow> fst x \<in> set (known_names xs)"
  by (auto simp: known_names_def)

lemma in_known_names: "n \<in> set (known_names xs) \<longleftrightarrow> (\<exists>v. (n, v) \<in> set xs)"
  by (force simp: known_names_def)

lemma without_fresh [simp]: "n \<notin> set (known_names xs) \<Longrightarrow> without n xs = xs"
  by (induction xs) (auto simp: without_def)

lemma without_append [simp]: "without n (xs @ ys) = without n xs @ without n ys"
  by (simp add: without_def)

lemma without_singleton [simp]: "without n [(n, v)] = []"
  by (simp add: without_def)

lemma set_without: "x \<in> set (without n xs) \<longleftrightarrow> x \<in> set xs \<and> fst x \<noteq> n"
  by (auto simp: without_def)

lemma distinct_without: "distinct (known_names xs) \<Longrightarrow> distinct (known_names (without n xs))"
  by (simp add: known_names_def without_def distinct_map_filter)

lemma known_names_without: "m \<in> set (known_names (without n xs)) \<longleftrightarrow> m \<in> set (known_names xs) \<and> m \<noteq> n"
  by (auto simp: in_known_names set_without)

lemma update_back:
  assumes "distinct (known_names xs)" and "map_of xs n = Some v" and "g (f v) = v"
  shows "update_at n g (update_at n f xs) = xs"
proof -
  have "snd x = v" if "x \<in> set xs" "fst x = n" for x
    using assms(1,2) that map_of_is_SomeI [of xs n "snd x"] by (cases x) (simp add: known_names_def del: map_of_eq_Some_iff)
  then show ?thesis using assms(3) by (auto simp: update_at_def intro!: map_idI)
qed

lemma map_of_update_at [simp]:
  "map_of (update_at n f xs) m = (if m = n then map_option f (map_of xs n) else map_of xs m)"
  by (induction xs) (auto simp: update_at_def)

lemma set_update_at:
  "x \<in> set (update_at n f xs) \<longleftrightarrow> (x \<in> set xs \<and> fst x \<noteq> n) \<or> (\<exists>v. (n, v) \<in> set xs \<and> x = (n, f v))"
  by (cases x) (force simp: update_at_def image_iff)

lemma type_known_mono:
  "type_known s t \<Longrightarrow> set (known_names (sc_types s)) \<subseteq> set (known_names (sc_types s')) \<Longrightarrow> type_known s' t"
  by (cases t) auto

lemma schema_okI:
  assumes "distinct (known_names (sc_tables s))"
    and "\<And>n t c. (n, t) \<in> set (sc_tables s) \<Longrightarrow> c \<in> set (tb_columns t) \<Longrightarrow> type_known s (col_type c)"
    and "\<And>n t k c n' c'. (n, t) \<in> set (sc_tables s) \<Longrightarrow> (k, c, n', c') \<in> set (tb_foreign t) \<Longrightarrow>
           n' \<in> set (known_names (sc_tables s))"
    and "\<And>i ix. (i, ix) \<in> set (sc_indexes s) \<Longrightarrow> ix_table ix \<in> set (known_names (sc_tables s))"
  shows "schema_ok s"
  unfolding schema_ok_def using assms by blast

lemma schema_okD:
  assumes "schema_ok s"
  shows "distinct (known_names (sc_tables s))"
    and "(n, t) \<in> set (sc_tables s) \<Longrightarrow> c \<in> set (tb_columns t) \<Longrightarrow> type_known s (col_type c)"
    and "(n, t) \<in> set (sc_tables s) \<Longrightarrow> (k, c', n', d') \<in> set (tb_foreign t) \<Longrightarrow> n' \<in> set (known_names (sc_tables s))"
    and "(i, ix) \<in> set (sc_indexes s) \<Longrightarrow> ix_table ix \<in> set (known_names (sc_tables s))"
  using assms unfolding schema_ok_def by blast+

lemma type_known_after:
  assumes "schema_ok s" and "(n, t) \<in> set (sc_tables s)" and "c \<in> set (tb_columns t)"
    and "set (known_names (sc_types s)) \<subseteq> set (known_names (sc_types s'))"
  shows "type_known s' (col_type c)"
  by (rule type_known_mono [OF schema_okD(2) [OF assms(1-3)] assms(4)])

text \<open>Every statement keeps the catalogue well formed.\<close>

lemma exec_ok:
  assumes run: "exec d s = Inr s'" and ok: "schema_ok s"
  shows "schema_ok s'"
proof -
  note okD = schema_okD(3,4) [OF ok] and okT = type_known_after [OF ok]
  have names [simp]: "distinct (known_names (sc_tables s))" by (rule schema_okD(1) [OF ok])
  show ?thesis
  proof (cases d)
    case (CreateExtension e)
    with run have "s' = s\<lparr>sc_extensions := List.insert e (sc_extensions s)\<rparr>" by simp
    then show ?thesis by (intro schema_okI) (auto dest: okD intro: okT)
  next
    case (CreateType n vs)
    with run have "s' = s\<lparr>sc_types := sc_types s @ [(n, vs)]\<rparr>" by (simp split: if_splits)
    then show ?thesis by (intro schema_okI) (auto dest: okD intro: okT)
  next
    case (CreateTable n cols us pk)
    with run have fresh: "n \<notin> set (known_names (sc_tables s))" "\<forall>c\<in>set cols. type_known s (col_type c)"
      and s': "s' = s\<lparr>sc_tables := sc_tables s @ [(n, \<lparr>tb_columns = cols, tb_unique = us, tb_primary = pk, tb_foreign = []\<rparr>)]\<rparr>"
      by (auto split: if_splits)
    have "type_known s' t = type_known s t" for t unfolding s' by (cases t) simp_all
    with fresh schema_okD(2) [OF ok] show ?thesis unfolding s' by (intro schema_okI) (auto dest: okD)
  next
    case (AddForeignKey n k f)
    obtain c n' c' where f: "f = (c, n', c')" by (cases f)
    have known: "n' \<in> set (known_names (sc_tables s))"
      and s': "s' = s\<lparr>sc_tables := update_at n (\<lambda>t. t\<lparr>tb_foreign := tb_foreign t @ [(k, c, n', c')]\<rparr>) (sc_tables s)\<rparr>"
      using run unfolding AddForeignKey f
      by (auto split: if_splits option.splits dest!: map_of_SomeD intro: known_names_mem [of "(n', _)", simplified])
    show ?thesis unfolding s' using known
      by (intro schema_okI) (auto simp: set_update_at dest: okD intro: okT)
  next
    case (DropForeignKey n k)
    with run have s': "s' = s\<lparr>sc_tables := update_at n (\<lambda>t. t\<lparr>tb_foreign := without k (tb_foreign t)\<rparr>) (sc_tables s)\<rparr>"
      by (auto split: if_splits option.splits)
    show ?thesis unfolding s'
      by (intro schema_okI) (auto simp: set_update_at set_without dest: okD intro: okT)
  next
    case (DropTable n)
    with run have free: "\<forall>x\<in>set (sc_tables s). fst x \<noteq> n \<longrightarrow> \<not> references n (snd x)"
      and s': "s' = s\<lparr>sc_tables := without n (sc_tables s),
        sc_indexes := filter (\<lambda>x. ix_table (snd x) \<noteq> n) (sc_indexes s)\<rparr>"
      by (auto split: if_splits)
    have "(k, c, n, c') \<notin> set (tb_foreign t)" if "(m, t) \<in> set (sc_tables s)" "m \<noteq> n" for m t k c c'
      using free that by (force simp: references_def)
    then show ?thesis unfolding s'
      by (intro schema_okI)
        (auto simp: set_without distinct_without known_names_without dest: okD intro: okT)
  next
    case (DropType n)
    with run have s': "s' = s\<lparr>sc_types := without n (sc_types s)\<rparr>" and
      free: "\<forall>x\<in>set (sc_tables s). T_Enum n \<notin> col_type ` set (tb_columns (snd x))"
      by (auto simp: uses_type_def split: if_splits)
    have "type_known s' (col_type c)" if "(m, t) \<in> set (sc_tables s)" "c \<in> set (tb_columns t)" for m t c
    proof -
      have "col_type c \<noteq> T_Enum n" using free that by force
      with schema_okD(2) [OF ok that] show ?thesis
        unfolding s' by (cases "col_type c") (auto simp: known_names_without)
    qed
    then show ?thesis unfolding s' by (intro schema_okI) (auto dest: okD)
  next
    case (CreateIndex i n ks w)
    with run have "n \<in> set (known_names (sc_tables s))"
      and "s' = s \<or> s' = s\<lparr>sc_indexes := sc_indexes s @ [(i, \<lparr>ix_table = n, ix_keys = ks, ix_where = w, ix_valid = True\<rparr>)]\<rparr>"
      by (auto split: if_splits)
    then show ?thesis
      using ok by (auto intro!: schema_okI dest: okD intro: okT)
  next
    case (DropIndex i)
    with run have s': "s' = s\<lparr>sc_indexes := without i (sc_indexes s)\<rparr>" by simp
    show ?thesis unfolding s'
      by (intro schema_okI) (auto simp: set_without dest: okD intro: okT)
  qed
qed

end
