(* ===== verification/Schema_Properties.thy ===== *)
theory Schema_Properties
  imports Schema
begin

text \<open>
  What the migrations do to a database: their \<open>down\<close> undoes their \<open>up\<close>, the indexes can be applied
  again after an interruption but not after a failed build, and the schema they leave lacks columns
  that the entities name.
\<close>

section \<open>Undoing a migration\<close>

definition undoes :: "ddl \<Rightarrow> ddl \<Rightarrow> bool" where
  "undoes d u \<longleftrightarrow> (\<forall>s s'. schema_ok s \<longrightarrow> exec u s = Inr s' \<longrightarrow> exec d s' = Inr s)"

named_theorems undoing "statements that undo others"

lemma undo_type [undoing]: "undoes (DropType n) (CreateType n vs)"
  unfolding undoes_def
proof (intro allI impI)
  fix s s' assume ok: "schema_ok s" and run: "exec (CreateType n vs) s = Inr s'"
  then have n: "n \<notin> set (known_names (sc_types s))" and s': "s' = s\<lparr>sc_types := sc_types s @ [(n, vs)]\<rparr>"
    by (auto split: if_splits)
  have "\<not> uses_type n t" if "(m, t) \<in> set (sc_tables s)" for m t
  proof
    assume "uses_type n t"
    then obtain c where "c \<in> set (tb_columns t)" "col_type c = T_Enum n" by (auto simp: uses_type_def)
    with schema_okD(2) [OF ok that this(1)] n show False by simp
  qed
  then show "exec (DropType n) s' = Inr s" using n unfolding s' by auto
qed

lemma undo_table [undoing]: "undoes (DropTable n) (CreateTable n cols us pk)"
  unfolding undoes_def
proof (intro allI impI)
  fix s s' assume ok: "schema_ok s" and run: "exec (CreateTable n cols us pk) s = Inr s'"
  then have n: "n \<notin> set (known_names (sc_tables s))"
    and s': "s' = s\<lparr>sc_tables := sc_tables s @ [(n, \<lparr>tb_columns = cols, tb_unique = us, tb_primary = pk, tb_foreign = []\<rparr>)]\<rparr>"
    by (auto split: if_splits)
  have "\<not> references n t" if "(m, t) \<in> set (sc_tables s)" for m t
    using schema_okD(3) [OF ok that] n by (auto simp: references_def)
  moreover have "filter (\<lambda>x. ix_table (snd x) \<noteq> n) (sc_indexes s) = sc_indexes s"
    using schema_okD(4) [OF ok] n by (auto simp: filter_id_conv)
  ultimately show "exec (DropTable n) s' = Inr s" using n unfolding s' by auto
qed

lemma undo_foreign_key [undoing]: "undoes (DropForeignKey n k) (AddForeignKey n k f)"
  unfolding undoes_def
proof (intro allI impI)
  fix s s' assume ok: "schema_ok s" and run: "exec (AddForeignKey n k f) s = Inr s'"
  let ?add = "\<lambda>t. t\<lparr>tb_foreign := tb_foreign t @ [(k, f)]\<rparr>" and ?drop = "\<lambda>t. t\<lparr>tb_foreign := without k (tb_foreign t)\<rparr>"
  obtain t where t: "map_of (sc_tables s) n = Some t" and k: "k \<notin> set (known_names (tb_foreign t))"
    and s': "s' = s\<lparr>sc_tables := update_at n ?add (sc_tables s)\<rparr>"
    using run by (cases f) (auto simp: constraint_names_def split: option.splits if_splits)
  have names: "distinct (known_names (sc_tables s))" by (rule schema_okD(1) [OF ok])
  have restored: "update_at n ?drop (update_at n ?add (sc_tables s)) = sc_tables s"
    by (rule update_back [OF names t]) (use k in simp)
  show "exec (DropForeignKey n k) s' = Inr s" using t restored unfolding s' by simp
qed

lemma run_append:
  "run (xs @ ys) s = (case run xs s of (None, s') \<Rightarrow> run ys s' | failed \<Rightarrow> failed)"
  by (induction xs arbitrary: s) (auto split: sum.splits)

lemma run_keeps_ok: "run ds s = (e, s') \<Longrightarrow> schema_ok s \<Longrightarrow> schema_ok s'"
  by (induction ds arbitrary: s) (auto split: sum.splits intro: exec_ok)

text \<open>A list of statements is undone by those that undo them, in reverse order.\<close>

lemma run_undo:
  "list_all2 undoes ds us \<Longrightarrow> schema_ok s \<Longrightarrow> run us s = (None, s') \<Longrightarrow> run (rev ds) s' = (None, s)"
proof (induction ds us arbitrary: s rule: list_all2_induct)
  case (Cons d ds u us)
  from Cons.prems obtain s1 where s1: "exec u s = Inr s1" and rest: "run us s1 = (None, s')"
    by (auto split: sum.splits)
  have "run (rev ds) s' = (None, s1)" by (rule Cons.IH [OF exec_ok [OF s1 Cons.prems(1)] rest])
  moreover have "exec d s1 = Inr s" using Cons.hyps(1) Cons.prems(1) s1 by (auto simp: undoes_def)
  ultimately show ?case by (simp add: run_append)
qed simp

lemma initial_undone: "list_all2 undoes (rev initial_down) (tl initial_up)"
  by (simp add: initial_down_def initial_up_def undoing)

lemma initial_up_tl: "initial_up = CreateExtension ''uuid-ossp'' # tl initial_up"
  by (simp add: initial_up_def)

lemma initial_revert:
  assumes "schema_ok s" and "run initial_up s = (None, s')"
  shows "run initial_down s' = (None, s\<lparr>sc_extensions := List.insert ''uuid-ossp'' (sc_extensions s)\<rparr>)"
proof -
  let ?s = "s\<lparr>sc_extensions := List.insert ''uuid-ossp'' (sc_extensions s)\<rparr>"
  have start: "exec (CreateExtension ''uuid-ossp'') s = Inr ?s" by simp
  have "run (tl initial_up) ?s = (None, s')" using assms(2) by (subst (asm) initial_up_tl) simp
  from run_undo [OF initial_undone exec_ok [OF start assms(1)] this] show ?thesis by simp
qed

section \<open>Indexes\<close>

fun index_name :: "ddl \<Rightarrow> string" where
  "index_name (CreateIndex i n ks w) = i"
| "index_name (DropIndex i) = i"
| "index_name d = ''''"

definition creates_index :: "ddl \<Rightarrow> bool" where
  "creates_index d = (\<exists>i n ks w. d = CreateIndex i n ks w)"

definition has_relation :: "schema \<Rightarrow> string \<Rightarrow> bool" where
  "has_relation s i \<longleftrightarrow> i \<in> set (known_names (sc_indexes s)) \<or> i \<in> set (known_names (sc_tables s))"

text \<open>What a run of index builds leaves: the same catalogue with indexes of these names at the end.\<close>

lemma run_indexes:
  assumes "list_all creates_index ds" and "run ds s = (None, s')"
  obtains new where "s' = s\<lparr>sc_indexes := sc_indexes s @ new\<rparr>"
    and "set (known_names new) \<subseteq> index_name ` set ds" and "\<And>d. d \<in> set ds \<Longrightarrow> has_relation s' (index_name d)"
proof -
  have "\<exists>new. s' = s\<lparr>sc_indexes := sc_indexes s @ new\<rparr> \<and> set (known_names new) \<subseteq> index_name ` set ds
      \<and> (\<forall>d\<in>set ds. has_relation s' (index_name d))"
    using assms
  proof (induction ds arbitrary: s)
    case Nil
    then show ?case by (intro exI [of _ "[]"]) simp
  next
    case (Cons d ds)
    then obtain i n ks w where d: "d = CreateIndex i n ks w" by (auto simp: creates_index_def)
    from Cons.prems obtain s1 where s1: "exec d s = Inr s1" and rest: "run ds s1 = (None, s')"
      by (auto split: sum.splits)
    obtain one where one: "s1 = s\<lparr>sc_indexes := sc_indexes s @ one\<rparr>" "set (known_names one) \<subseteq> {i}" "has_relation s1 i"
    proof (cases "has_relation s i")
      case True
      with s1 have "s1 = s" unfolding d by (auto simp: has_relation_def split: if_splits)
      with True show thesis by (intro that [of "[]"]) simp_all
    next
      case False
      with s1 have "s1 = s\<lparr>sc_indexes := sc_indexes s @ [(i, \<lparr>ix_table = n, ix_keys = ks, ix_where = w, ix_valid = True\<rparr>)]\<rparr>"
        unfolding d by (auto simp: has_relation_def split: if_splits)
      then show thesis by (intro that [of "[(i, \<lparr>ix_table = n, ix_keys = ks, ix_where = w, ix_valid = True\<rparr>)]"])
          (simp_all add: has_relation_def)
    qed
    have "list_all creates_index ds" using Cons.prems by simp
    from Cons.IH [OF this rest] obtain new where new: "s' = s1\<lparr>sc_indexes := sc_indexes s1 @ new\<rparr>"
      "set (known_names new) \<subseteq> index_name ` set ds" "\<forall>d\<in>set ds. has_relation s' (index_name d)" by blast
    have "has_relation s' i" using one(3) unfolding new(1) by (auto simp: has_relation_def)
    moreover have "s' = s\<lparr>sc_indexes := sc_indexes s @ one @ new\<rparr>" unfolding new(1) one(1) by simp
    ultimately show ?case using one(2) new(2,3) d
      by (intro exI [of _ "one @ new"]) auto
  qed
  then show thesis using that by blast
qed

lemma run_existing:
  assumes "list_all creates_index ds" and "\<And>d. d \<in> set ds \<Longrightarrow> has_relation s (index_name d)" and "run ds s0 = (None, s1)"
    and "sc_tables s = sc_tables s0"
  shows "run ds s = (None, s)"
  using assms
proof (induction ds arbitrary: s0)
  case (Cons d ds)
  then obtain i n ks w where d: "d = CreateIndex i n ks w" by (auto simp: creates_index_def)
  from Cons.prems obtain s2 where s2: "exec d s0 = Inr s2" and rest: "run ds s2 = (None, s1)"
    by (auto split: sum.splits)
  then have "sc_tables s2 = sc_tables s0" and "n \<in> set (known_names (sc_tables s0))" unfolding d by (auto split: if_splits)
  moreover have "has_relation s i" using Cons.prems(2) [of d] d by simp
  ultimately show ?case using Cons.IH [OF _ _ rest] Cons.prems d by (auto simp: has_relation_def)
qed simp

text \<open>Builds that succeed succeed again with the same tables, whatever indexes there are.\<close>

lemma run_total:
  "list_all creates_index ds \<Longrightarrow> run ds s0 = (None, s1) \<Longrightarrow> sc_tables s = sc_tables s0 \<Longrightarrow> \<exists>s2. run ds s = (None, s2)"
proof (induction ds arbitrary: s s0)
  case (Cons d ds)
  then obtain i n ks w where d: "d = CreateIndex i n ks w" by (auto simp: creates_index_def)
  from Cons.prems obtain t where t: "exec d s0 = Inr t" and rest: "run ds t = (None, s1)"
    by (auto split: sum.splits)
  have "n \<in> set (known_names (sc_tables s0))" and "sc_tables t = sc_tables s0" using t unfolding d by (auto split: if_splits)
  moreover have "\<exists>s'. exec d s = Inr s' \<and> sc_tables s' = sc_tables s"
    unfolding d using calculation(1) Cons.prems(3) by auto
  then obtain s' where "exec d s = Inr s'" "sc_tables s' = sc_tables s" by blast
  ultimately show ?case using Cons.IH [OF _ rest, of s'] Cons.prems by simp
qed simp

lemma indexes_up_builds: "list_all creates_index indexes_up"
  by (simp add: indexes_up_def creates_index_def)

definition without_indexes :: "string set \<Rightarrow> schema \<Rightarrow> schema" where
  "without_indexes ns s = s\<lparr>sc_indexes := filter (\<lambda>x. fst x \<notin> ns) (sc_indexes s)\<rparr>"

definition drops_index :: "ddl \<Rightarrow> bool" where
  "drops_index d = (\<exists>i. d = DropIndex i)"

lemma run_drops:
  "list_all drops_index ds \<Longrightarrow> run ds s = (None, without_indexes (index_name ` set ds) s)"
proof (induction ds arbitrary: s)
  case (Cons d ds)
  then obtain i where d: "d = DropIndex i" by (auto simp: drops_index_def)
  have "filter (\<lambda>x. fst x \<notin> A) (without i xs) = filter (\<lambda>x. fst x \<notin> insert i A) xs" for A and xs :: "(string \<times> index) list"
    by (induction xs) (auto simp: without_def)
  with Cons d show ?case by (simp add: without_indexes_def)
qed (simp add: without_indexes_def)

lemma indexes_down_drops: "list_all drops_index indexes_down"
  by (simp add: indexes_down_def drops_index_def)

lemma indexes_down_names: "index_name ` set indexes_down = index_name ` set indexes_up"
proof -
  have "map index_name indexes_down = rev (map index_name indexes_up)" by (simp add: indexes_up_def indexes_down_def)
  then have "set (map index_name indexes_down) = set (rev (map index_name indexes_up))" by (rule arg_cong)
  then show ?thesis by simp
qed

definition revert :: "schema \<Rightarrow> string option \<times> schema" where
  "revert s = (case run indexes_down s of (None, s') \<Rightarrow> in_transaction initial_down s' | failed \<Rightarrow> failed)"

lemma indexes_revert:
  assumes "run indexes_up s = (None, s')" and "\<forall>d\<in>set indexes_up. index_name d \<notin> set (known_names (sc_indexes s))"
  shows "run indexes_down s' = (None, s)"
proof -
  obtain new where new: "s' = s\<lparr>sc_indexes := sc_indexes s @ new\<rparr>" "set (known_names new) \<subseteq> index_name ` set indexes_up"
    by (rule run_indexes [OF indexes_up_builds assms(1)])
  have "filter (\<lambda>x. fst x \<notin> index_name ` set indexes_up) (sc_indexes s) = sc_indexes s"
    using assms(2) by (auto simp: filter_id_conv dest: known_names_mem)
  moreover have "filter (\<lambda>x. fst x \<notin> index_name ` set indexes_up) new = []"
    using new(2) by (auto simp: filter_empty_conv dest: known_names_mem)
  ultimately have "without_indexes (index_name ` set indexes_up) s' = s" unfolding new(1) by (simp add: without_indexes_def)
  with run_drops [OF indexes_down_drops] show ?thesis by (simp add: indexes_down_names)
qed

lemma exec_tables_only:
  "exec d s = Inr s' \<Longrightarrow> \<not> creates_index d \<Longrightarrow> \<not> drops_index d \<Longrightarrow> (\<forall>n. d \<noteq> DropTable n) \<Longrightarrow> sc_indexes s' = sc_indexes s"
  by (cases d) (auto simp: creates_index_def drops_index_def split: if_splits option.splits)

lemma initial_up_indexes: "run initial_up s = (None, s') \<Longrightarrow> sc_indexes s' = sc_indexes s"
proof -
  have "list_all (\<lambda>d. \<not> creates_index d \<and> \<not> drops_index d \<and> (\<forall>n. d \<noteq> DropTable n)) ds \<Longrightarrow>
      run ds s = (None, s') \<Longrightarrow> sc_indexes s' = sc_indexes s" for ds
    by (induction ds arbitrary: s) (auto split: sum.splits dest: exec_tables_only)
  moreover have "list_all (\<lambda>d. \<not> creates_index d \<and> \<not> drops_index d \<and> (\<forall>n. d \<noteq> DropTable n)) initial_up"
    by (simp add: initial_up_def creates_index_def drops_index_def)
  ultimately show "run initial_up s = (None, s') \<Longrightarrow> sc_indexes s' = sc_indexes s" by blast
qed

lemma in_transaction_None [simp]: "in_transaction ds s = (None, s') \<longleftrightarrow> run ds s = (None, s')"
  by (auto simp: in_transaction_def split: prod.splits option.splits)

lemma migrate_None: "migrate s = (None, s') \<longleftrightarrow> (\<exists>s1. run initial_up s = (None, s1) \<and> run indexes_up s1 = (None, s'))"
proof (cases "in_transaction initial_up s")
  case (Pair e s1)
  show ?thesis
  proof (cases e)
    case None
    have "run initial_up s = (None, s1)" using Pair None by simp
    with Pair None show ?thesis by (simp add: migrate_def del: in_transaction_None)
  next
    case (Some x)
    with Pair have "run initial_up s \<noteq> (None, s2)" for s2 using in_transaction_None [of initial_up s s2] by auto
    with Some Pair show ?thesis by (simp add: migrate_def)
  qed
qed

section \<open>The schema in production\<close>

definition typed :: "schema \<Rightarrow> string \<Rightarrow> string list \<Rightarrow> bool" where
  "typed s n vs \<longleftrightarrow> map_of (sc_types s) n = Some vs"

definition described :: "schema \<Rightarrow> string \<Rightarrow> column list \<Rightarrow> (string \<times> string) list \<Rightarrow> bool" where
  "described s n cols us \<longleftrightarrow> (\<exists>t. map_of (sc_tables s) n = Some t \<and> tb_columns t = cols \<and> tb_unique t = us)"

fun only_adds :: "ddl \<Rightarrow> bool" where
  "only_adds (DropTable n) = False"
| "only_adds (DropType n) = False"
| "only_adds d = True"

lemma map_of_created: "n \<notin> set (known_names xs) \<Longrightarrow> map_of (xs @ ys) n = map_of ys n"
  by (induction xs) auto

lemma map_of_before: "map_of xs n = Some v \<Longrightarrow> map_of (xs @ ys) n = Some v"
  by simp

text \<open>What a statement creates, later statements that drop no table and no type keep.\<close>

lemma exec_keeps:
  assumes "exec d s = Inr s'" and "only_adds d"
  shows "typed s n vs \<Longrightarrow> typed s' n vs" and "described s n cols us \<Longrightarrow> described s' n cols us"
proof -
  show "typed s n vs \<Longrightarrow> typed s' n vs"
  proof (cases d)
    case (AddForeignKey m k f)
    then show "typed s n vs \<Longrightarrow> typed s' n vs"
      using assms by (cases f) (auto simp: typed_def split: if_splits option.splits)
  qed (use assms in \<open>auto simp: typed_def map_of_before split: if_splits option.splits\<close>)
  show "described s n cols us \<Longrightarrow> described s' n cols us"
  proof (cases d)
    case (AddForeignKey m k f)
    then show "described s n cols us \<Longrightarrow> described s' n cols us"
      using assms by (cases f) (auto simp: described_def split: if_splits option.splits)
  qed (use assms in \<open>auto simp: described_def map_of_before split: if_splits option.splits\<close>)
qed

lemma run_keeps:
  assumes "list_all only_adds ds" and "run ds s = (None, s')"
  shows "typed s n vs \<Longrightarrow> typed s' n vs" and "described s n cols us \<Longrightarrow> described s' n cols us"
  using assms by (induction ds arbitrary: s) (auto split: sum.splits dest: exec_keeps)

lemma run_creates:
  assumes "list_all only_adds ds" and "run ds s = (None, s')"
  shows "CreateType n vs \<in> set ds \<Longrightarrow> typed s' n vs"
    and "CreateTable n cols us pk \<in> set ds \<Longrightarrow> described s' n cols us"
proof -
  have "(\<forall>n vs. CreateType n vs \<in> set ds \<longrightarrow> typed s' n vs)
      \<and> (\<forall>n cols us pk. CreateTable n cols us pk \<in> set ds \<longrightarrow> described s' n cols us)"
    using assms
  proof (induction ds arbitrary: s)
    case (Cons d ds)
    then obtain s1 where s1: "exec d s = Inr s1" and rest: "run ds s1 = (None, s')" and ds: "list_all only_adds ds"
      by (auto split: sum.splits)
    have "typed s1 n vs" if "d = CreateType n vs" for n vs
      using s1 that by (auto simp: typed_def map_of_created simp del: map_of_append split: if_splits)
    moreover have "described s1 n cols us" if "d = CreateTable n cols us pk" for n cols us pk
      using s1 that by (auto simp: described_def map_of_created simp del: map_of_append split: if_splits)
    ultimately show ?case using Cons.IH [OF ds rest] run_keeps [OF ds rest] by (metis set_ConsD)
  qed simp
  then show "CreateType n vs \<in> set ds \<Longrightarrow> typed s' n vs"
    and "CreateTable n cols us pk \<in> set ds \<Longrightarrow> described s' n cols us" by blast+
qed

lemma migrate_creates:
  assumes "migrate s = (None, s')"
  shows "CreateType n vs \<in> set initial_up \<Longrightarrow> typed s' n vs"
    and "CreateTable n cols us pk \<in> set initial_up \<Longrightarrow> described s' n cols us"
proof -
  obtain s1 where "run initial_up s = (None, s1)" "run indexes_up s1 = (None, s')"
    using assms by (auto simp: migrate_None)
  then have run: "run (initial_up @ indexes_up) s = (None, s')" by (simp add: run_append)
  have adds: "list_all only_adds (initial_up @ indexes_up)" by (simp add: initial_up_def indexes_up_def)
  show "CreateType n vs \<in> set initial_up \<Longrightarrow> typed s' n vs" using run_creates(1) [OF adds run] by simp
  show "CreateTable n cols us pk \<in> set initial_up \<Longrightarrow> described s' n cols us" using run_creates(2) [OF adds run, of n cols us pk] by simp
qed

lemma migrated_types:
  assumes "migrate s = (None, s')"
  shows "map_of (sc_types s') ''users_authmethod_enum'' = Some [''email'', ''stellar'']"
    and "map_of (sc_types s') ''users_role_enum'' = Some [''user'', ''admin'']"
    and "map_of (sc_types s') ''tips_asset_enum'' = Some [''XLM'', ''USDC'']"
    and "map_of (sc_types s') ''tips_status_enum'' = Some [''pending'', ''completed'', ''failed'']"
    and "map_of (sc_types s') ''notifications_type_enum'' = Some [''tip_received'']"
  by (rule migrate_creates(1) [OF assms, unfolded typed_def], simp add: initial_up_def)+

lemma migrated_tables:
  assumes "migrate s = (None, s')"
  shows "described s' ''users'' users_columns
      [(''UQ_users_username'', ''username''), (''UQ_users_email'', ''email''), (''UQ_users_walletAddress'', ''walletAddress'')]"
    and "described s' ''tips'' tips_columns [(''UQ_tips_transactionHash'', ''transactionHash'')]"
    and "described s' ''notifications'' notifications_columns []"
    and "described s' ''refresh_tokens'' refresh_tokens_columns [(''UQ_refresh_tokens_token'', ''token'')]"
  by (rule migrate_creates(2) [OF assms], simp add: initial_up_def)+

section \<open>The properties\<close>

text \<open>An index build that fails, or is interrupted, outside a transaction.\<close>

fun failed_build :: "ddl \<Rightarrow> schema \<Rightarrow> schema" where
  "failed_build (CreateIndex i n ks w) s =
     s\<lparr>sc_indexes := sc_indexes s @ [(i, \<lparr>ix_table = n, ix_keys = ks, ix_where = w, ix_valid = False\<rparr>)]\<rparr>"
| "failed_build d s = s"

text \<open>
  C33. Both migrations can be taken back: on any well-formed database on which they ran without an
  error, and which had none of the indexes before, their \<open>down\<close> in reverse order succeeds and
  restores the catalogue exactly, but for the extension, which stays installed.
\<close>

theorem migrations_roundtrip:
  assumes "schema_ok s" and "\<forall>d\<in>set indexes_up. index_name d \<notin> set (known_names (sc_indexes s))"
    and "migrate s = (None, s')"
  shows "revert s' = (None, s\<lparr>sc_extensions := List.insert ''uuid-ossp'' (sc_extensions s)\<rparr>)"
proof -
  obtain s1 where s1: "run initial_up s = (None, s1)" and s': "run indexes_up s1 = (None, s')"
    using assms(3) by (auto simp: migrate_None)
  have "run indexes_down s' = (None, s1)"
    by (rule indexes_revert [OF s']) (use assms(2) initial_up_indexes [OF s1] in simp)
  then show ?thesis using initial_revert [OF assms(1) s1] by (simp add: revert_def)
qed

text \<open>
  C34. The migration of the indexes runs outside a transaction and may stop after any statement;
  running it again from there leads to the same catalogue as an uninterrupted run.
\<close>

theorem indexes_reapplied:
  assumes "run (take k indexes_up) s = (None, s1)" and "run indexes_up s = (None, s2)"
  shows "run indexes_up s1 = (None, s2)"
proof -
  have builds: "list_all creates_index (take k indexes_up)" using indexes_up_builds by (metis append_take_drop_id list_all_append)
  have rest: "run (drop k indexes_up) s1 = (None, s2)"
    using assms(2) run_append [of "take k indexes_up" "drop k indexes_up" s] assms(1) by simp
  obtain new where s1: "s1 = s\<lparr>sc_indexes := sc_indexes s @ new\<rparr>"
    and has: "\<And>d. d \<in> set (take k indexes_up) \<Longrightarrow> has_relation s1 (index_name d)"
    by (rule run_indexes [OF builds assms(1)]) blast
  have "run (take k indexes_up) s1 = (None, s1)" by (rule run_existing [OF builds has assms(1)]) (simp_all add: s1)
  with rest run_append [of "take k indexes_up" "drop k indexes_up" s1] show ?thesis by simp
qed

text \<open>
  A build that fails half way is not repaired by running the migration again: PostgreSQL leaves
  the index invalid, \<open>IF NOT EXISTS\<close> finds its name taken, and the repeated run succeeds with the
  index still invalid, against what the comment of the migration promises.
\<close>

theorem failed_index_stays_invalid:
  assumes "k < length indexes_up" and "run (take k indexes_up) s = (None, s1)" and "run indexes_up s = (None, s2)"
    and "\<forall>d\<in>set indexes_up. \<not> has_relation s (index_name d)"
  shows "\<exists>s3 ix. run indexes_up (failed_build (indexes_up ! k) s1) = (None, s3)
     \<and> map_of (sc_indexes s3) (index_name (indexes_up ! k)) = Some ix \<and> \<not> ix_valid ix"
proof -
  let ?d = "indexes_up ! k" and ?broken = "failed_build (indexes_up ! k) s1"
  obtain i n ks w where d: "?d = CreateIndex i n ks w"
    using indexes_up_builds assms(1) by (auto simp: list_all_length creates_index_def)
  have builds: "list_all creates_index (take k indexes_up)" using indexes_up_builds by (metis append_take_drop_id list_all_append)
  obtain new where s1: "s1 = s\<lparr>sc_indexes := sc_indexes s @ new\<rparr>" "set (known_names new) \<subseteq> index_name ` set (take k indexes_up)"
    by (rule run_indexes [OF builds assms(2)])
  have names: "distinct (map index_name indexes_up)" by (simp add: indexes_up_def)
  have "i \<notin> index_name ` set (take k indexes_up)"
  proof
    assume "i \<in> index_name ` set (take k indexes_up)"
    then obtain j where "j < k" "index_name (indexes_up ! j) = index_name ?d" using d assms(1) by (auto simp: in_set_conv_nth)
    with names assms(1) show False by (auto simp: distinct_conv_nth)
  qed
  moreover have "i \<notin> set (known_names (sc_indexes s))" using assms(4) d nth_mem [OF assms(1)] by (force simp: has_relation_def)
  ultimately have fresh: "i \<notin> set (known_names (sc_indexes s1))" using s1 by auto
  obtain s3 where s3: "run indexes_up ?broken = (None, s3)"
    using run_total [OF indexes_up_builds assms(3), of ?broken] d s1(1) by auto
  obtain more_indexes where s3': "s3 = ?broken\<lparr>sc_indexes := sc_indexes ?broken @ more_indexes\<rparr>"
    by (rule run_indexes [OF indexes_up_builds s3])
  have "map_of (sc_indexes s3) i = Some \<lparr>ix_table = n, ix_keys = ks, ix_where = w, ix_valid = False\<rparr>"
    unfolding s3' using fresh by (simp add: d map_of_created del: map_of_append)
  then show ?thesis using s3 d by auto
qed

lemma migrated_column_names:
  assumes "migrate s = (None, s')"
  obtains u t n r where
    "map_of (sc_tables s') ''users'' = Some u" "tb_columns u = users_columns"
    "snd ` set (tb_unique u) = {''username'', ''email'', ''walletAddress''}"
    "map_of (sc_tables s') ''tips'' = Some t" "tb_columns t = tips_columns" "snd ` set (tb_unique t) = {''transactionHash''}"
    "map_of (sc_tables s') ''notifications'' = Some n" "tb_columns n = notifications_columns" "snd ` set (tb_unique n) = {}"
    "map_of (sc_tables s') ''refresh_tokens'' = Some r" "tb_columns r = refresh_tokens_columns"
    "snd ` set (tb_unique r) = {''token''}"
  using migrated_tables [OF assms] that unfolding described_def by auto

lemmas entity_defs = user_entity_def tip_entity_def notification_entity_def refresh_token_entity_def plain_def
lemmas table_defs = users_columns_def tips_columns_def notifications_columns_def refresh_tokens_columns_def
  not_null_def nullable_def

lemma production_migrates:
  assumes "env ''NODE_ENV'' = Some ''production''" and "start_database synchronized env s = (None, s')"
  shows "migrate s = (None, s')"
  using assms by (simp add: start_database_def typeorm_config_of_def Let_def)

text \<open>Where the schema of the migrations is that of the entities, and what it lacks.\<close>

lemma production_columns:
  assumes "env ''NODE_ENV'' = Some ''production''" and "start_database synchronized env s = (None, s')"
  shows "list_all (columns_agree s') entities
    \<and> map (lacking s') entities = [[], [''withdrawal_status'', ''withdrawal_transaction_hash''], [], []]"
proof -
  obtain u t n r where t:
    "map_of (sc_tables s') ''users'' = Some u" "tb_columns u = users_columns"
    "snd ` set (tb_unique u) = {''username'', ''email'', ''walletAddress''}"
    "map_of (sc_tables s') ''tips'' = Some t" "tb_columns t = tips_columns" "snd ` set (tb_unique t) = {''transactionHash''}"
    "map_of (sc_tables s') ''notifications'' = Some n" "tb_columns n = notifications_columns" "snd ` set (tb_unique n) = {}"
    "map_of (sc_tables s') ''refresh_tokens'' = Some r" "tb_columns r = refresh_tokens_columns"
    "snd ` set (tb_unique r) = {''token''}"
    by (rule migrated_column_names [OF production_migrates [OF assms]])
  have "columns_agree s' user_entity" "columns_agree s' tip_entity" "columns_agree s' notification_entity"
    "columns_agree s' refresh_token_entity"
    by (simp_all add: columns_agree_def same_column_def t entity_defs table_defs)
  moreover have "lacking s' user_entity = []" "lacking s' tip_entity = [''withdrawal_status'', ''withdrawal_transaction_hash'']"
    "lacking s' notification_entity = []" "lacking s' refresh_token_entity = []"
    by (simp_all add: lacking_def column_names_def t entity_defs table_defs)
  ultimately show ?thesis by (simp add: entities_def)
qed


section \<open>Witnesses\<close>

definition production_env :: "string \<Rightarrow> string option" where
  "production_env k = (if k = ''NODE_ENV'' then Some ''production'' else None)"

definition migrated_schema :: schema where
  "migrated_schema = snd (migrate empty_schema)"

lemma empty_schema_migrated: "migrate empty_schema = (None, migrated_schema)"
  using migrate_empty by (simp add: migrated_schema_def prod_eq_iff)

lemma empty_schema_ok: "schema_ok empty_schema"
  by (simp add: schema_ok_def empty_schema_def)

lemma empty_schema_started: "start_database (\<lambda>s. s) production_env empty_schema = (None, migrated_schema)"
  by (simp add: start_database_def typeorm_config_of_def Let_def production_env_def empty_schema_migrated)

theorem migrations_roundtrip_witness:
  "revert migrated_schema = (None, empty_schema\<lparr>sc_extensions := [''uuid-ossp'']\<rparr>)"
  using migrations_roundtrip [OF empty_schema_ok _ empty_schema_migrated] by (simp add: empty_schema_def)


definition bare_schema :: schema where
  "bare_schema = snd (run initial_up empty_schema)"

lemma bare_schema_indexed: "run indexes_up bare_schema = (None, migrated_schema)"
proof -
  obtain s1 where "run initial_up empty_schema = (None, s1)" "run indexes_up s1 = (None, migrated_schema)"
    using empty_schema_migrated by (auto simp: migrate_None)
  then show ?thesis by (simp add: bare_schema_def)
qed

lemma bare_schema_partly: "fst (run (take 4 indexes_up) bare_schema) = None"
  by code_simp

theorem indexes_reapplied_witness:
  "run indexes_up (snd (run (take 4 indexes_up) bare_schema)) = (None, migrated_schema)"
  by (rule indexes_reapplied [OF _ bare_schema_indexed, of 4]) (simp add: prod_eq_iff bare_schema_partly)

lemma bare_schema_free: "\<forall>d\<in>set indexes_up. \<not> has_relation bare_schema (index_name d)"
  by code_simp

theorem failed_index_stays_invalid_witness:
  "\<exists>s3 ix. run indexes_up (failed_build (indexes_up ! 4) (snd (run (take 4 indexes_up) bare_schema))) = (None, s3)
     \<and> map_of (sc_indexes s3) (index_name (indexes_up ! 4)) = Some ix \<and> \<not> ix_valid ix"
  by (rule failed_index_stays_invalid [OF _ _ bare_schema_indexed bare_schema_free])
    (simp_all add: prod_eq_iff bare_schema_partly, simp add: indexes_up_def)

end
