(* ===== verification/Shared.thy ===== *)
theory Shared
  imports Api_Prelude Js_Values
begin

text \<open>
  What surrounds every request (\<open>src/src/shared\<close>): the logger with its redaction, the request
  identifier, the exception filter, the interceptor that wraps results and the logging of requests.
  \<open>exchange\<close> composes them as \<open>SharedModule\<close> does. The lemmas show which properties of a logged
  object are blackened, and that every request is answered and logged once under one identifier.
\<close>

section \<open>Values\<close>

text \<open>An object as the list of its own properties: \<open>o[k] = v\<close> and \<open>Object.assign\<close>.\<close>

type_synonym js_object = "(string \<times> jsval) list"

fun set_prop :: "string \<Rightarrow> jsval \<Rightarrow> js_object \<Rightarrow> js_object" where
  "set_prop k v [] = [(k, v)]"
| "set_prop k v ((k', v') # fs) = (if k' = k then (k, v) # fs else (k', v') # set_prop k v fs)"

definition assign :: "js_object \<Rightarrow> js_object \<Rightarrow> js_object" where
  "assign target source = fold (\<lambda>(k, v). set_prop k v) source target"

lemma map_of_set_prop [simp]: "map_of (set_prop k v fs) = (map_of fs)(k \<mapsto> v)"
  by (induction fs) auto

lemma map_of_assign: "distinct (map fst source) \<Longrightarrow> map_of (assign target source) = map_of target ++ map_of source"
proof (induction source arbitrary: target)
  case (Cons f fs)
  obtain k v where f: "f = (k, v)" by (cases f)
  with Cons.prems have k: "k \<notin> dom (map_of fs)" and fs: "distinct (map fst fs)"
    by (simp_all add: dom_map_of_conv_image_fst)
  have "map_of (assign target (f # fs)) = map_of (assign (set_prop k v target) fs)" by (simp add: assign_def f)
  also have "\<dots> = map_of (set_prop k v target) ++ map_of fs" by (rule Cons.IH [OF fs])
  also have "\<dots> = (map_of target ++ map_of fs)(k \<mapsto> v)" unfolding map_of_set_prop by (rule map_add_upd_left [OF k])
  also have "\<dots> = map_of target ++ map_of (f # fs)" unfolding f by (simp del: fun_upd_apply)
  finally show ?case .
qed (simp add: assign_def)

section \<open>The logger\<close>

definition REDACTED :: string where
  "REDACTED = ''***REDACTED***''"

definition SENSITIVE_FIELDS :: "string list" where
  "SENSITIVE_FIELDS = [''password'', ''token'', ''access_token'', ''refresh_token'', ''secret'', ''authorization'', ''privateKey'']"

function redactSensitive :: "js_object \<Rightarrow> nat \<Rightarrow> js_object" where
  "redactSensitive obj depth = (if depth > 5 then obj
     else map (\<lambda>(key, v). (key,
       if key \<in> set SENSITIVE_FIELDS then JString REDACTED
       else (case v of JObject fs \<Rightarrow> JObject (redactSensitive fs (depth + 1)) | _ \<Rightarrow> v))) obj)"
  by pat_completeness auto

termination redactSensitive
  by (relation "measure (\<lambda>(obj, depth). 6 - depth)") auto

declare redactSensitive.simps [simp del]

text \<open>The levels of winston, with the ones a threshold lets through.\<close>

datatype log_level = Error | Warn | Info | Verbose | Debug

fun level_rank :: "log_level \<Rightarrow> nat" where
  "level_rank Error = 0"
| "level_rank Warn = 1"
| "level_rank Info = 2"
| "level_rank Verbose = 4"
| "level_rank Debug = 5"

instantiation log_level :: linorder
begin

definition less_eq_log_level :: "log_level \<Rightarrow> log_level \<Rightarrow> bool" where
  "less_eq_log_level a b \<longleftrightarrow> level_rank a \<le> level_rank b"

definition less_log_level :: "log_level \<Rightarrow> log_level \<Rightarrow> bool" where
  "less_log_level a b \<longleftrightarrow> level_rank a < level_rank b"

instance
proof
  fix a b :: log_level
  show "a \<le> b \<Longrightarrow> b \<le> a \<Longrightarrow> a = b" by (cases a; cases b) (simp_all add: less_eq_log_level_def)
qed (auto simp: less_eq_log_level_def less_log_level_def)

end

definition winston_level :: "bool \<Rightarrow> log_level" where
  "winston_level isProduction = (if isProduction then Info else Debug)"

definition logged :: "bool \<Rightarrow> log_level \<Rightarrow> bool" where
  "logged isProduction l = (l \<le> winston_level isProduction)"

record log_entry =
  le_level :: log_level
  le_message :: string
  le_meta :: js_object

definition formatMeta :: "string option \<Rightarrow> js_object option \<Rightarrow> js_object" where
  "formatMeta ctx meta = (let formatted = (case ctx of Some c \<Rightarrow> if c \<noteq> '''' then set_prop ''context'' (JString c) [] else [] | None \<Rightarrow> [])
     in case meta of None \<Rightarrow> formatted | Some m \<Rightarrow> assign formatted (redactSensitive m 0))"

definition log_log :: "string \<Rightarrow> string option \<Rightarrow> js_object option \<Rightarrow> log_entry" where
  "log_log message ctx meta = \<lparr>le_level = Info, le_message = message, le_meta = formatMeta ctx meta\<rparr>"

definition log_error :: "string \<Rightarrow> string option \<Rightarrow> string option \<Rightarrow> js_object option \<Rightarrow> log_entry" where
  "log_error message trace ctx meta = (let formatted = formatMeta ctx meta
     in \<lparr>le_level = Error, le_message = message,
         le_meta = (if truthy trace then set_prop ''trace'' (JString (the trace)) formatted else formatted)\<rparr>)"

definition log_warn :: "string \<Rightarrow> string option \<Rightarrow> js_object option \<Rightarrow> log_entry" where
  "log_warn message ctx meta = \<lparr>le_level = Warn, le_message = message, le_meta = formatMeta ctx meta\<rparr>"

definition log_debug :: "string \<Rightarrow> string option \<Rightarrow> js_object option \<Rightarrow> log_entry" where
  "log_debug message ctx meta = \<lparr>le_level = Debug, le_message = message, le_meta = formatMeta ctx meta\<rparr>"

definition log_verbose :: "string \<Rightarrow> string option \<Rightarrow> js_object option \<Rightarrow> log_entry" where
  "log_verbose message ctx meta = \<lparr>le_level = Verbose, le_message = message, le_meta = formatMeta ctx meta\<rparr>"

text \<open>The format of production: a property \<open>meta\<close> of the entry is blackened once more.\<close>

definition jsonFormat :: "js_object \<Rightarrow> js_object" where
  "jsonFormat info = (case map_of info ''meta'' of
      Some (JObject m) \<Rightarrow> set_prop ''meta'' (JObject (redactSensitive m 0)) info
    | _ \<Rightarrow> info)"

text \<open>The line of development; \<open>show\<close> is \<open>String\<close> and \<open>stringify\<close> is \<open>JSON.stringify\<close>.\<close>

definition colorizeFormat :: "(jsval \<Rightarrow> string) \<Rightarrow> (js_object \<Rightarrow> string) \<Rightarrow> js_object \<Rightarrow> string" where
  "colorizeFormat show stringify info =
     (let field = get_prop (JObject info);
          ctx = (if js_truthy (field ''context'') then ''['' @ show (field ''context'') @ '']'' else '''');
          rid = (if js_truthy (field ''requestId'') then ''['' @ show (field ''requestId'') @ '']'' else '''');
          dur = (if js_truthy (field ''duration'') then '' '' @ show (field ''duration'') @ ''ms'' else '''');
          meta = filter (\<lambda>(k, v). k \<notin> set [''timestamp'', ''level'', ''message'', ''context'', ''requestId'', ''duration'']) info;
          metaStr = (if length meta \<noteq> 0 then '' '' @ stringify meta else '''')
      in show (field ''timestamp'') @ '' '' @ show (field ''level'') @ '' '' @ ctx @ rid @ '' '' @ show (field ''message'')
           @ dur @ metaStr)"

section \<open>Exceptions and results\<close>

text \<open>
  What a handler can throw: an \<open>HttpException\<close> with its status and its response, a string or an
  object, another \<open>Error\<close> with its message and stack, or any other value.
\<close>

datatype exception_response = ResponseText string | ResponseObject js_object

datatype exception =
    HttpException nat exception_response string
  | OtherError string string
  | NotAnError

text \<open>The exceptions of the handlers: Nest's own carry an object, \<open>new HttpException\<close> its argument.\<close>

definition nest_response :: "nat \<Rightarrow> string \<Rightarrow> string \<Rightarrow> exception_response" where
  "nest_response status message error = ResponseObject
     [(''message'', JString message), (''error'', JString error), (''statusCode'', JNumber (Fin (of_nat status)))]"

fun exception_of :: "string \<Rightarrow> api_error \<Rightarrow> exception" where
  "exception_of stack (BadRequest m) = HttpException 400 (nest_response 400 m ''Bad Request'') stack"
| "exception_of stack (Unauthorized m) = HttpException 401 (nest_response 401 m ''Unauthorized'') stack"
| "exception_of stack (Forbidden m) = HttpException 403 (nest_response 403 m ''Forbidden'') stack"
| "exception_of stack (NotFound m) = HttpException 404 (nest_response 404 m ''Not Found'') stack"
| "exception_of stack (Conflict m) = HttpException 409 (nest_response 409 m ''Conflict'') stack"
| "exception_of stack (HttpError status m) = HttpException status (ResponseText m) stack"
| "exception_of stack (JsError m) = OtherError m stack"

record http_request =
  rq_method :: string
  rq_url :: string
  rq_id_header :: "string option"

text \<open>The answer: status, the header \<open>X-Request-Id\<close> and the body.\<close>

record error_body =
  eb_statusCode :: nat
  eb_message :: jsval
  eb_errors :: "jsval list option"
  eb_requestId :: string
  eb_timestamp :: int
  eb_path :: string

record success_body =
  sb_statusCode :: nat
  sb_data :: jsval
  sb_requestId :: string
  sb_timestamp :: int

datatype body = ErrorBody error_body | SuccessBody success_body

record http_response =
  rs_status :: nat
  rs_id_header :: string
  rs_body :: body

definition request_id_use :: "string \<Rightarrow> http_request \<Rightarrow> string" where
  "request_id_use uuid request = str_or (rq_id_header request) uuid"

text \<open>The status, message and errors that \<open>GlobalExceptionFilter.catch\<close> reads off an exception.\<close>

definition exception_message :: "js_object \<Rightarrow> jsval \<times> jsval list" where
  "exception_message resp = (let message = JString ''Internal server error'';
     field = get_prop (JObject resp) ''message'';
     message = (if js_truthy field then field else message)
   in case field of
        JArray errors \<Rightarrow> (if js_truthy (elem errors 0) then elem errors 0 else message, errors)
      | _ \<Rightarrow> (message, []))"

fun exception_parts :: "exception \<Rightarrow> nat \<times> jsval \<times> jsval list" where
  "exception_parts (HttpException status (ResponseText m) stack) = (status, JString m, [])"
| "exception_parts (HttpException status (ResponseObject resp) stack) = (status, exception_message resp)"
| "exception_parts (OtherError m stack) = (500, JString m, [])"
| "exception_parts NotAnError = (500, JString ''Internal server error'', [])"

fun exception_stack :: "exception \<Rightarrow> string option" where
  "exception_stack (HttpException status r stack) = Some stack"
| "exception_stack (OtherError m stack) = Some stack"
| "exception_stack NotAnError = None"

definition or_unknown :: "string \<Rightarrow> string" where
  "or_unknown requestId = (if requestId = '''' then ''unknown'' else requestId)"

text \<open>\<open>show_val\<close> is the conversion of a message in a template string.\<close>

definition exception_catch ::
  "(jsval \<Rightarrow> string) \<Rightarrow> int \<Rightarrow> http_request \<Rightarrow> string \<Rightarrow> exception \<Rightarrow> log_entry list \<times> nat \<times> error_body" where
  "exception_catch show_val now request requestId e = (case exception_parts e of (status, message, errors) \<Rightarrow>
     (if status \<ge> 500
      then [log_error (rq_method request @ '' '' @ rq_url request @ '' '' @ show_nat status @ '': '' @ show_val message)
              (exception_stack e) (Some ''ExceptionFilter'')
              (Some [(''requestId'', JString (or_unknown requestId)), (''statusCode'', JNumber (Fin (of_nat status)))])]
      else [],
      status,
      \<lparr>eb_statusCode = status, eb_message = message, eb_errors = (if errors = [] then None else Some errors),
       eb_requestId = or_unknown requestId, eb_timestamp = now, eb_path = rq_url request\<rparr>))"

definition intercept :: "int \<Rightarrow> string \<Rightarrow> nat \<Rightarrow> jsval \<Rightarrow> success_body" where
  "intercept now requestId status responseBody =
     \<lparr>sb_statusCode = status, sb_data = responseBody, sb_requestId = requestId, sb_timestamp = now\<rparr>"

definition http_log :: "http_request \<Rightarrow> string \<Rightarrow> nat \<Rightarrow> int \<Rightarrow> log_entry" where
  "http_log request requestId statusCode duration = (let
     meta = [(''method'', JString (rq_method request)), (''url'', JString (rq_url request)),
       (''statusCode'', JNumber (Fin (of_nat statusCode))), (''duration'', JNumber (Fin (of_int duration))),
       (''requestId'', JString requestId)];
     msg = rq_method request @ '' '' @ rq_url request @ '' '' @ show_nat statusCode @ '' '' @ show_int duration @ ''ms''
   in if statusCode \<ge> 500 then log_error msg None (Some ''HTTP'') (Some meta)
      else if statusCode \<ge> 400 then log_warn msg (Some ''HTTP'') (Some meta)
      else log_log msg (Some ''HTTP'') (Some meta))"

text \<open>
  One request from its arrival to the answer: the middlewares, the handler's outcome \<open>r\<close>, then the
  interceptor for a result (\<open>status\<close> is the one Nest has set for the route) or the filter for an
  exception, and the log line when the response is finished.
\<close>

definition exchange ::
  "(jsval \<Rightarrow> string) \<Rightarrow> string \<Rightarrow> int \<Rightarrow> int \<Rightarrow> http_request \<Rightarrow> nat \<Rightarrow> exception + jsval \<Rightarrow> log_entry list \<times> http_response" where
  "exchange show_val uuid t0 t1 request status r = (let
     requestId = request_id_use uuid request;
     (logs, statusCode, answer) = (case r of
        Inl e \<Rightarrow> (case exception_catch show_val t1 request requestId e of (l, c, b) \<Rightarrow> (l, c, ErrorBody b))
      | Inr v \<Rightarrow> ([], status, SuccessBody (intercept t1 requestId status v)))
   in (logs @ [http_log request requestId statusCode (t1 - t0)],
       \<lparr>rs_status = statusCode, rs_id_header = requestId, rs_body = answer\<rparr>))"

end
