(* ===== verification/Shared_Properties.thy ===== *)
theory Shared_Properties
  imports Shared
begin

text \<open>
  What the logger blackens of a nested object, and how one request is answered and logged.
\<close>

section \<open>Redaction\<close>

text \<open>The value at a path of keys through nested objects.\<close>

fun at_path :: "jsval \<Rightarrow> string list \<Rightarrow> jsval option" where
  "at_path v [] = Some v"
| "at_path (JObject fs) (k # ks) = (case map_of fs k of None \<Rightarrow> None | Some v \<Rightarrow> at_path v ks)"
| "at_path v (k # ks) = None"

definition redacted_value :: "string \<Rightarrow> nat \<Rightarrow> jsval \<Rightarrow> jsval" where
  "redacted_value key depth v = (if depth > 5 then v else if key \<in> set SENSITIVE_FIELDS then JString REDACTED
     else case v of JObject fs \<Rightarrow> JObject (redactSensitive fs (depth + 1)) | _ \<Rightarrow> v)"

lemma redactSensitive_deep [simp]: "depth > 5 \<Longrightarrow> redactSensitive obj depth = obj"
  by (simp add: redactSensitive.simps)

lemma redactSensitive_map: "redactSensitive obj depth = map (\<lambda>(key, v). (key, redacted_value key depth v)) obj"
  by (cases "depth > 5") (auto simp: redactSensitive.simps [of obj depth] redacted_value_def intro!: map_cong map_idI [symmetric])

lemma map_of_redactSensitive: "map_of (redactSensitive obj depth) k = map_option (redacted_value k depth) (map_of obj k)"
  unfolding redactSensitive_map by (induction obj) auto

lemma keys_redactSensitive [simp]: "map fst (redactSensitive obj depth) = map fst obj"
  unfolding redactSensitive_map by (induction obj) auto

lemma at_path_redacted:
  assumes "at_path (JObject obj) (ks @ [k]) = Some v"
    and "\<forall>i < length ks. depth + i \<le> 5 \<longrightarrow> ks ! i \<notin> set SENSITIVE_FIELDS"
  shows "at_path (JObject (redactSensitive obj depth)) (ks @ [k]) = Some (redacted_value k (depth + length ks) v)"
  using assms
proof (induction ks arbitrary: obj depth)
  case Nil
  then show ?case by (auto simp: map_of_redactSensitive split: option.splits)
next
  case (Cons key ks)
  from Cons.prems(1) obtain w where w: "map_of obj key = Some w" "at_path w (ks @ [k]) = Some v"
    by (auto split: option.splits)
  then obtain fs where fs: "w = JObject fs" by (cases w; cases ks) auto
  have rest: "\<forall>i < length ks. depth + 1 + i \<le> 5 \<longrightarrow> ks ! i \<notin> set SENSITIVE_FIELDS"
    using Cons.prems(2) by force
  have key: "depth \<le> 5 \<longrightarrow> key \<notin> set SENSITIVE_FIELDS" using Cons.prems(2) by (metis add.right_neutral length_greater_0_conv list.discI nth_Cons_0)
  show ?case
  proof (cases "depth > 5")
    case True
    with Cons.prems(1) show ?thesis by (simp add: redacted_value_def)
  next
    case False
    then have "redacted_value key depth w = JObject (redactSensitive fs (depth + 1))"
      using key fs by (simp add: redacted_value_def)
    with Cons.IH [of fs "depth + 1"] w fs rest show ?thesis by (simp add: map_of_redactSensitive)
  qed
qed

text \<open>
  C29. What a logged object shows at a path of keys none of which is sensitive itself: under a
  sensitive key the placeholder, down to six levels; every other value that is not an object as it
  is. Below six levels, and inside arrays, which are not entered, everything is shown.
\<close>

theorem redaction_exact:
  assumes "at_path (JObject meta) (ks @ [k]) = Some v" and "\<forall>key\<in>set ks. key \<notin> set SENSITIVE_FIELDS"
    and "distinct (map fst meta)" and "ctx = None"
  shows "at_path (JObject (le_meta (log_log message ctx (Some meta)))) (ks @ [k]) =
    Some (if length ks \<le> 5 \<and> k \<in> set SENSITIVE_FIELDS then JString REDACTED
      else case v of JObject fs \<Rightarrow> JObject (redactSensitive fs (length ks + 1)) | _ \<Rightarrow> v)"
proof -
  have "map_of (assign [] (redactSensitive meta 0)) = map_of (redactSensitive meta 0)"
    by (subst map_of_assign) (simp_all add: assms(3))
  then have same: "at_path (JObject (assign [] (redactSensitive meta 0))) (ks @ [k]) =
      at_path (JObject (redactSensitive meta 0)) (ks @ [k])"
    by (cases ks) simp_all
  have "at_path (JObject (redactSensitive meta 0)) (ks @ [k]) = Some (redacted_value k (length ks) v)"
    using at_path_redacted [OF assms(1), of 0] assms(2) by simp
  then show ?thesis using same assms(4)
    by (auto simp: log_log_def formatMeta_def redacted_value_def Let_def split: jsval.splits)
qed

theorem redaction_exact_witness:
  "at_path (JObject (le_meta (log_log ''m'' None (Some [(''user'', JObject [(''password'', JString ''x'')])])))) [''user'', ''password'']
     = Some (JString REDACTED)"
  using redaction_exact [of "[(''user'', JObject [(''password'', JString ''x'')])]" "[''user'']" "''password''"
      "JString ''x''" None "''m''"]
  by (simp add: SENSITIVE_FIELDS_def)

section \<open>Answers and log lines\<close>

fun error_status :: "api_error \<Rightarrow> nat" where
  "error_status (BadRequest m) = 400"
| "error_status (Unauthorized m) = 401"
| "error_status (Forbidden m) = 403"
| "error_status (NotFound m) = 404"
| "error_status (Conflict m) = 409"
| "error_status (HttpError status m) = status"
| "error_status (JsError m) = 500"

fun error_text :: "api_error \<Rightarrow> string" where
  "error_text (BadRequest m) = m"
| "error_text (Unauthorized m) = m"
| "error_text (Forbidden m) = m"
| "error_text (NotFound m) = m"
| "error_text (Conflict m) = m"
| "error_text (HttpError status m) = m"
| "error_text (JsError m) = m"

lemma nest_message: "m \<noteq> '''' \<Longrightarrow> exception_parts (HttpException status (nest_response status m error) stack) = (status, JString m, [])"
  by (simp add: nest_response_def exception_message_def)

lemma exception_parts_of:
  "error_text e \<noteq> '''' \<Longrightarrow> exception_parts (exception_of stack e) = (error_status e, JString (error_text e), [])"
  by (cases e) (simp_all add: nest_message)

text \<open>A validation error lists the messages and shows the first.\<close>

lemma exception_parts_list:
  "ms \<noteq> [] \<Longrightarrow> hd ms \<noteq> '''' \<Longrightarrow>
   exception_parts (HttpException status (ResponseObject [(''message'', JArray (map JString ms))]) stack)
     = (status, JString (hd ms), map JString ms)"
  by (cases ms) (simp_all add: exception_message_def elem_def)

lemma request_id_not_empty: "uuid \<noteq> '''' \<Longrightarrow> request_id_use uuid request \<noteq> ''''"
  by (cases "rq_id_header request") (auto simp: request_id_use_def str_or_def)

lemma http_log_level:
  "le_level (http_log request requestId status d) = (if status \<ge> 500 then Error else if status \<ge> 400 then Warn else Info)"
  by (simp add: http_log_def Let_def log_error_def log_warn_def log_log_def)

lemma http_log_id: "map_of (le_meta (http_log request requestId status d)) ''requestId'' = Some (JString requestId)"
  by (simp add: http_log_def Let_def log_error_def log_warn_def log_log_def formatMeta_def assign_def
      redactSensitive.simps SENSITIVE_FIELDS_def)



end
