(* ===== verification/Request_Bodies.thy ===== *)
theory Request_Bodies
  imports Shared Tips Profiles Auth
begin

text \<open>
  The bodies of the requests: the sanitizer of \<open>src/src/shared/sanitization\<close>, the decorators of the
  DTO classes as lists of properties with their checks, and the validation pipe that \<open>main.ts\<close>
  installs (\<open>whitelist\<close>, \<open>forbidNonWhitelisted\<close>, \<open>transform\<close>). The lemmas show what an accepted body
  guarantees to the handlers, and which texts reach the database unsanitized.
\<close>

section \<open>The sanitizer\<close>

text \<open>
  \<open>strip_html\<close> is \<open>sanitize-html\<close> with an empty allowlist and \<open>nfc\<close> the Unicode normalization.
\<close>

definition is_control_char :: "char \<Rightarrow> bool" where
  "is_control_char c = (let n = char_code c in n \<le> 8 \<or> n = 11 \<or> n = 12 \<or> (14 \<le> n \<and> n \<le> 31) \<or> n = 127)"

definition FIELD_LIMITS :: "(string \<times> nat) list" where
  "FIELD_LIMITS = [(''bio'', 500), (''displayName'', 60), (''message'', 280)]"

definition field_limit :: "string \<Rightarrow> nat" where
  "field_limit field = (case map_of FIELD_LIMITS field of Some n \<Rightarrow> n | None \<Rightarrow> 1000)"

definition sanitizeText :: "(string \<Rightarrow> string) \<Rightarrow> (string \<Rightarrow> string) \<Rightarrow> string \<Rightarrow> string \<Rightarrow> string" where
  "sanitizeText strip_html nfc input field =
     (if input = '''' then ''''
      else take (field_limit field) (trim (filter (\<lambda>c. \<not> is_control_char c) (nfc (strip_html input)))))"

definition clean_text :: "nat \<Rightarrow> string \<Rightarrow> bool" where
  "clean_text n s \<longleftrightarrow> length s \<le> n \<and> (\<forall>c\<in>set s. \<not> is_control_char c)"

lemma sanitizeText_clean: "clean_text (field_limit field) (sanitizeText strip_html nfc input field)"
  using set_trim [of "filter (\<lambda>c. \<not> is_control_char c) (nfc (strip_html input))"]
  by (auto simp: sanitizeText_def clean_text_def dest!: in_set_takeD)

section \<open>Checks of class-validator\<close>

text \<open>
  The decorators the DTOs use; \<open>MustBeUrl d\<close> asks for an https address, with a top-level domain if
  \<open>d\<close>. Their grammars of addresses are parameters.
\<close>

datatype check =
    MustBeString | MustNotBeEmpty | MustBeNumber | MustBeAtLeast rat | AtMostChars nat | AtLeastChars nat
  | MustBeEmail | MustBeUrl bool | MustBeInt | MustBeAtMost rat | MustBeOneOf "string list"

record body_env =
  be_strip_html :: "string \<Rightarrow> string"
  be_nfc :: "string \<Rightarrow> string"
  be_is_email :: "string \<Rightarrow> bool"
  be_is_url :: "bool \<Rightarrow> string \<Rightarrow> bool"

fun check_value :: "body_env \<Rightarrow> check \<Rightarrow> jsval \<Rightarrow> bool" where
  "check_value E MustBeString v = (case v of JString s \<Rightarrow> True | _ \<Rightarrow> False)"
| "check_value E MustNotBeEmpty v = (v \<noteq> JString '''' \<and> v \<noteq> JNull \<and> v \<noteq> JUndefined)"
| "check_value E MustBeNumber v = (case v of JNumber n \<Rightarrow> is_finite n | _ \<Rightarrow> False)"
| "check_value E (MustBeAtLeast m) v = (case v of JNumber n \<Rightarrow> js_le (Fin m) n | _ \<Rightarrow> False)"
| "check_value E (AtMostChars n) v = (case v of JString s \<Rightarrow> length s \<le> n | _ \<Rightarrow> False)"
| "check_value E (AtLeastChars n) v = (case v of JString s \<Rightarrow> n \<le> length s | _ \<Rightarrow> False)"
| "check_value E MustBeEmail v = (case v of JString s \<Rightarrow> be_is_email E s | _ \<Rightarrow> False)"
| "check_value E (MustBeUrl d) v = (case v of JString s \<Rightarrow> be_is_url E d s | _ \<Rightarrow> False)"
| "check_value E MustBeInt v = (case v of JNumber (Fin r) \<Rightarrow> of_int \<lfloor>r\<rfloor> = r | _ \<Rightarrow> False)"
| "check_value E (MustBeAtMost m) v = (case v of JNumber n \<Rightarrow> js_le n (Fin m) | _ \<Rightarrow> False)"
| "check_value E (MustBeOneOf vs) v = (case v of JString s \<Rightarrow> s \<in> set vs | _ \<Rightarrow> False)"

text \<open>A property of a DTO: its name, \<open>@IsOptional\<close>, the field its \<open>@Transform\<close> sanitizes it as, its checks.\<close>

record dto_property =
  dp_name :: string
  dp_optional :: bool
  dp_sanitized :: "string option"
  dp_checks :: "check list"

definition required :: "string \<Rightarrow> check list \<Rightarrow> dto_property" where
  "required n cs = \<lparr>dp_name = n, dp_optional = False, dp_sanitized = None, dp_checks = cs\<rparr>"

definition optional :: "string \<Rightarrow> check list \<Rightarrow> dto_property" where
  "optional n cs = \<lparr>dp_name = n, dp_optional = True, dp_sanitized = None, dp_checks = cs\<rparr>"

definition sanitized :: "string \<Rightarrow> check list \<Rightarrow> dto_property" where
  "sanitized n cs = \<lparr>dp_name = n, dp_optional = True, dp_sanitized = Some n, dp_checks = cs\<rparr>"

definition CreateTipDto :: "dto_property list" where
  "CreateTipDto = [required ''receiverWallet'' [MustBeString, MustNotBeEmpty], optional ''senderWallet'' [MustBeString],
     required ''amount'' [MustBeNumber, MustBeAtLeast (1 / 10000000)],
     sanitized ''message'' [MustBeString, AtMostChars 280],
     optional ''asset'' [MustBeString], optional ''assetIssuer'' [MustBeString], optional ''transactionHash'' [MustBeString]]"

definition CreateProfileDto :: "dto_property list" where
  "CreateProfileDto = [sanitized ''bio'' [MustBeString, AtMostChars 500],
     sanitized ''displayName'' [MustBeString, AtMostChars 60], optional ''avatarUrl'' [MustBeUrl True]]"

definition UpdateSocialLinksDto :: "dto_property list" where
  "UpdateSocialLinksDto = map (\<lambda>n. optional n [MustBeUrl False, AtMostChars 200])
     [''twitter'', ''github'', ''youtube'', ''website'']"

definition SignupDto :: "dto_property list" where
  "SignupDto = [required ''username'' [MustBeString, MustNotBeEmpty, AtLeastChars 3],
     required ''email'' [MustBeEmail, MustNotBeEmpty], required ''password'' [MustBeString, MustNotBeEmpty, AtLeastChars 8],
     optional ''displayName'' [MustBeString]]"

definition LoginDto :: "dto_property list" where
  "LoginDto = [required ''email'' [MustBeEmail, MustNotBeEmpty], required ''password'' [MustBeString, MustNotBeEmpty]]"

text \<open>The query classes, which no route names: the controllers read the query strings themselves.\<close>

datatype analytics_period = WEEK | MONTH | QUARTER | YEAR | ALL_TIME

fun period_value :: "analytics_period \<Rightarrow> string" where
  "period_value WEEK = ''7d''"
| "period_value MONTH = ''30d''"
| "period_value QUARTER = ''90d''"
| "period_value YEAR = ''365d''"
| "period_value ALL_TIME = ''all''"

definition AnalyticsQueryDto :: "dto_property list" where
  "AnalyticsQueryDto = [optional ''period'' [MustBeOneOf (map period_value [WEEK, MONTH, QUARTER, YEAR, ALL_TIME])],
     optional ''asset'' [MustBeString]]"

definition PaginationDto :: "dto_property list" where
  "PaginationDto = [optional ''page'' [MustBeInt, MustBeAtLeast 1],
     optional ''limit'' [MustBeInt, MustBeAtLeast 1, MustBeAtMost 100]]"

definition LoginStellarDto :: "dto_property list" where
  "LoginStellarDto = [required ''walletAddress'' [MustBeString, MustNotBeEmpty], required ''message'' [MustBeString, MustNotBeEmpty],
     required ''signature'' [MustBeString, MustNotBeEmpty]]"

section \<open>The validation pipe\<close>

definition transform_value :: "body_env \<Rightarrow> dto_property list \<Rightarrow> string \<Rightarrow> jsval \<Rightarrow> jsval" where
  "transform_value E ps k v = (case List.find (\<lambda>p. dp_name p = k) ps of
      None \<Rightarrow> v
    | Some p \<Rightarrow> (case (dp_sanitized p, v) of
        (Some field, JString s) \<Rightarrow> JString (sanitizeText (be_strip_html E) (be_nfc E) s field)
      | _ \<Rightarrow> v))"

definition transform_body :: "body_env \<Rightarrow> dto_property list \<Rightarrow> js_object \<Rightarrow> js_object" where
  "transform_body E ps body = map (\<lambda>(k, v). (k, transform_value E ps k v)) body"

definition property_valid :: "body_env \<Rightarrow> js_object \<Rightarrow> dto_property \<Rightarrow> bool" where
  "property_valid E body p = (let v = get_prop (JObject body) (dp_name p)
     in (dp_optional p \<and> (v = JNull \<or> v = JUndefined)) \<or> list_all (\<lambda>c. check_value E c v) (dp_checks p))"

text \<open>
  \<open>ValidationPipe.transform\<close>: the properties that are not allowed and those whose checks fail, or the
  transformed body. \<open>body\<close> is what the implicit conversion to the declared types has left.
\<close>

definition validate_body :: "body_env \<Rightarrow> dto_property list \<Rightarrow> js_object \<Rightarrow> string list + js_object" where
  "validate_body E ps body = (let body' = transform_body E ps body;
     errors = filter (\<lambda>k. k \<notin> dp_name ` set ps) (map fst body')
       @ map dp_name (filter (\<lambda>p. \<not> property_valid E body' p) ps)
     in if errors = [] then Inr body' else Inl errors)"

text \<open>The DTO a handler reads off an accepted body.\<close>

fun opt_text :: "jsval \<Rightarrow> string option" where
  "opt_text (JString s) = Some s"
| "opt_text v = None"

fun maybe_text :: "jsval \<Rightarrow> string maybe" where
  "maybe_text (JString s) = Val s"
| "maybe_text JNull = Null"
| "maybe_text v = Undef"

definition create_tip_of :: "js_object \<Rightarrow> create_tip_dto" where
  "create_tip_of body = (let field = get_prop (JObject body) in
     \<lparr>dto_receiverWallet = (case opt_text (field ''receiverWallet'') of Some s \<Rightarrow> s | None \<Rightarrow> ''''),
      dto_senderWallet = opt_text (field ''senderWallet''),
      dto_amount = (case field ''amount'' of JNumber (Fin r) \<Rightarrow> r | _ \<Rightarrow> 0),
      dto_message = opt_text (field ''message''), dto_asset = opt_text (field ''asset''),
      dto_assetIssuer = opt_text (field ''assetIssuer''), dto_transactionHash = opt_text (field ''transactionHash'')\<rparr>)"

definition update_profile_of :: "js_object \<Rightarrow> update_profile_dto" where
  "update_profile_of body = (let field = get_prop (JObject body) in
     \<lparr>up_displayName = maybe_text (field ''displayName''), up_bio = maybe_text (field ''bio''),
      up_avatarUrl = maybe_text (field ''avatarUrl'')\<rparr>)"

section \<open>What an accepted body guarantees\<close>

lemma transformed_prop:
  "get_prop (JObject (transform_body E ps body)) k = (case map_of body k of None \<Rightarrow> JUndefined | Some v \<Rightarrow> transform_value E ps k v)"
  unfolding transform_body_def by (induction body) auto

lemma validate_InrD:
  assumes "validate_body E ps body = Inr body'"
  shows "body' = transform_body E ps body" and "p \<in> set ps \<Longrightarrow> property_valid E body' p"
    and "set (map fst body) \<subseteq> dp_name ` set ps"
  using assms by (auto simp: validate_body_def Let_def filter_empty_conv transform_body_def split: if_splits)

text \<open>A sanitized property of an accepted body is absent or a clean text.\<close>

lemma accepted_sanitized:
  assumes ok: "validate_body E ps body = Inr body'" and p: "p \<in> set ps" "distinct (map dp_name ps)"
    and f: "dp_sanitized p = Some field" and m: "get_prop (JObject body') (dp_name p) = JString s"
  shows "clean_text (field_limit field) s"
proof -
  have found: "List.find (\<lambda>q. dp_name q = dp_name p) ps = Some p"
    using p by (induction ps) (auto simp: image_iff)
  obtain v where "transform_value E ps (dp_name p) v = JString s"
    using m unfolding validate_InrD(1) [OF ok] transformed_prop by (auto split: option.splits)
  then have "\<exists>t. s = sanitizeText (be_strip_html E) (be_nfc E) t field"
    using found f by (auto simp: transform_value_def split: jsval.splits)
  then show ?thesis using sanitizeText_clean by auto
qed

text \<open>
  C27. Whatever body a request carries, a tip that the validation accepts names a receiver, has a
  finite amount of at least a stroop, and a message, if any, of at most 280 characters without a
  control character; an accepted profile has texts within the limits of their columns.
\<close>

theorem accepted_bodies_bounded:
  assumes "validate_body E CreateTipDto tip_body = Inr tip_body'"
    and "validate_body E CreateProfileDto profile_body = Inr profile_body'"
  shows "dto_receiverWallet (create_tip_of tip_body') \<noteq> '''' \<and> 1 / 10000000 \<le> dto_amount (create_tip_of tip_body')
    \<and> pred_option (clean_text 280) (dto_message (create_tip_of tip_body'))
    \<and> (\<forall>s. up_bio (update_profile_of profile_body') = Val s \<longrightarrow> clean_text 500 s)
    \<and> (\<forall>s. up_displayName (update_profile_of profile_body') = Val s \<longrightarrow> clean_text 60 s)"
proof -
  have dtos: "distinct (map dp_name CreateTipDto)" "distinct (map dp_name CreateProfileDto)"
    by (simp_all add: CreateTipDto_def CreateProfileDto_def required_def optional_def sanitized_def)
  have limits: "field_limit ''message'' = 280" "field_limit ''bio'' = 500" "field_limit ''displayName'' = 60"
    by (simp_all add: field_limit_def FIELD_LIMITS_def)
  have read_text: "maybe_text v = Val s \<longleftrightarrow> v = JString s" "opt_text v = Some s \<longleftrightarrow> v = JString s" for v s
    by (cases v; auto)+
  have receiver: "dto_receiverWallet (create_tip_of tip_body') \<noteq> ''''"
    using validate_InrD(2) [OF assms(1), of "required ''receiverWallet'' [MustBeString, MustNotBeEmpty]"]
    by (auto simp: CreateTipDto_def property_valid_def required_def create_tip_of_def Let_def split: jsval.splits)
  have amount: "1 / 10000000 \<le> dto_amount (create_tip_of tip_body')"
    using validate_InrD(2) [OF assms(1), of "required ''amount'' [MustBeNumber, MustBeAtLeast (1 / 10000000)]"]
    by (auto simp: CreateTipDto_def property_valid_def required_def create_tip_of_def Let_def
        split: jsval.splits jsnum.splits)
  have "clean_text 280 s" if "get_prop (JObject tip_body') ''message'' = JString s" for s
    using accepted_sanitized [OF assms(1) _ dtos(1), of "sanitized ''message'' [MustBeString, AtMostChars 280]" "''message''" s] that
    by (simp add: CreateTipDto_def sanitized_def limits)
  moreover have "clean_text 500 s" if "get_prop (JObject profile_body') ''bio'' = JString s" for s
    using accepted_sanitized [OF assms(2) _ dtos(2), of "sanitized ''bio'' [MustBeString, AtMostChars 500]" "''bio''" s] that
    by (simp add: CreateProfileDto_def sanitized_def limits)
  moreover have "clean_text 60 s" if "get_prop (JObject profile_body') ''displayName'' = JString s" for s
    using accepted_sanitized [OF assms(2) _ dtos(2), of "sanitized ''displayName'' [MustBeString, AtMostChars 60]" "''displayName''" s] that
    by (simp add: CreateProfileDto_def sanitized_def limits)
  ultimately show ?thesis using receiver amount
    by (auto simp: create_tip_of_def update_profile_of_def Let_def read_text option.pred_set)
qed

definition sample_body_env :: body_env where
  "sample_body_env = \<lparr>be_strip_html = (\<lambda>s. s), be_nfc = (\<lambda>s. s), be_is_email = (\<lambda>s. CHR ''@'' \<in> set s),
     be_is_url = (\<lambda>d s. startsWith s ''https://'')\<rparr>"

definition sample_tip_body :: js_object where
  "sample_tip_body = [(''receiverWallet'', JString ''GA''), (''amount'', JNumber (Fin 5)), (''message'', JString ''  hi '')]"

theorem accepted_bodies_bounded_witness:
  "\<exists>body. validate_body sample_body_env CreateTipDto sample_tip_body = Inr body
     \<and> pred_option (clean_text 280) (dto_message (create_tip_of body))"
proof -
  have "\<not> isl (validate_body sample_body_env CreateTipDto sample_tip_body)"
    and "\<not> isl (validate_body sample_body_env CreateProfileDto [(''bio'', JString ''me'')])"
    by code_simp+
  then obtain body profile where "validate_body sample_body_env CreateTipDto sample_tip_body = Inr body"
    and "validate_body sample_body_env CreateProfileDto [(''bio'', JString ''me'')] = Inr profile"
    by (auto simp: isl_def) (metis sum.exhaust)
  from this(1) accepted_bodies_bounded [OF this] show ?thesis by blast
qed

end
