(* ===== verification/Request_Properties.thy ===== *)
theory Request_Properties
  imports Request_Bodies Auth_Properties
begin

text \<open>Which text of a request reaches the database as it is.\<close>

lemma email_session_users: "email_session RR sign cfg now rnd u s = (r, s') \<Longrightarrow> users_rows s' = users_rows s"
  by (auto simp: email_session_def createRefreshToken_def lift_result_def return_op_def throw_def andThen_def write_defs
      split: sum.splits option.splits prod.splits)

text \<open>The row that a successful sign-up leaves.\<close>

lemma signup_row:
  assumes con: "users_contract UR" and run: "signup UR RR hash sign cfg now rnd email password username name s = (Inr resp, s')"
  obtains u where "u \<in> set (users_rows s')" and "u_username u = Some username" and "u_email u = Some email"
    and "u_displayName u = Some (str_or name username)"
proof -
  define new where "new = new_user\<lparr>u_email := Some email, u_password := Some (hash password 10),
    u_username := Some username, u_displayName := Some (str_or name username),
    u_authMethod := Some EMAIL, u_role := Some USER, u_isActive := Some True\<rparr>"
  obtain user s1 where save: "save_user UR now new s = (Inr user, s1)"
    and sess: "email_session RR sign cfg now rnd user s1 = (Inr resp, s')"
    using run unfolding signup_def new_def [symmetric]
    by (auto elim!: andThen_InrE simp: find_user_def lift_result_apply read_users_def throw_if_apply split: if_splits)
  from save obtain rows where rows: "saveRow UR now new (users_rows s) = Inr (user, rows)" and s1: "s1 = s\<lparr>users_rows := rows\<rparr>"
    by (auto simp: save_user_def write_Inr_iff lift_result_apply elim!: andThen_InrE)
  have "u_id new = None" by (simp add: new_def new_user_def)
  then obtain i where i: "user = user_fill i now new" "mset rows = add_mset user (mset (users_rows s))"
    using repository.save_insert [OF con rows] by blast
  have "user \<in> set (users_rows s')"
    using email_session_users [OF sess] s1 mset_eq_setD [of rows "user # users_rows s"] i(2) by simp
  then show thesis by (rule that) (simp_all add: i(1) user_fill_def new_def)
qed

definition signup_body :: "string \<Rightarrow> string \<Rightarrow> string \<Rightarrow> string \<Rightarrow> js_object" where
  "signup_body username email password name = [(''username'', JString username), (''email'', JString email),
     (''password'', JString password), (''displayName'', JString name)]"

text \<open>
  C32. The display name of a sign-up is neither sanitized nor bounded: whatever characters it has and
  however long it is, the validation accepts it unchanged and the new account stores it, while the
  documentation promises the sanitizer and a limit of 60 characters for every display name.
\<close>

theorem signup_display_name_unchecked:
  assumes "users_contract UR" and "be_is_email E email" and "email \<noteq> ''''" and "3 \<le> length username"
    and "8 \<le> length password" and "name \<noteq> ''''"
    and "signup_route UR RR hash sign cfg now rnd email password username (Some name) s = (Inr resp, s')"
  shows "validate_body E SignupDto (signup_body username email password name) = Inr (signup_body username email password name)
    \<and> (\<exists>u\<in>set (users_rows s'). u_username u = Some username \<and> u_displayName u = Some name)"
proof -
  have "username \<noteq> ''''" "password \<noteq> ''''" using assms(4,5) by auto
  then have "validate_body E SignupDto (signup_body username email password name) = Inr (signup_body username email password name)"
    using assms(2-5)
    by (simp add: validate_body_def transform_body_def transform_value_def property_valid_def SignupDto_def
        signup_body_def required_def optional_def Let_def)
  moreover obtain u where "u \<in> set (users_rows s')" "u_username u = Some username" "u_email u = Some email"
    "u_displayName u = Some (str_or (Some name) username)"
    by (rule signup_row [OF assms(1) assms(7) [unfolded signup_route_def]])
  ultimately show ?thesis using assms(6) by auto
qed

theorem signup_display_name_unchecked_witness:
  "\<exists>s' resp. signup_route users_table tokens_table (\<lambda>p n. ''#'' @ p) sample_sign sample_cfg 1000 ''t3''
      ''c@x.io'' ''password'' ''carol'' (Some (''<script>'' @ [CHR 0x00])) sample_db = (Inr resp, s')
    \<and> (\<exists>u\<in>set (users_rows s'). u_displayName u = Some (''<script>'' @ [CHR 0x00]))"
proof -
  have unused: "\<forall>u\<in>set (users_rows sample_db). u_email u \<noteq> Some ''c@x.io'' \<and> u_username u \<noteq> Some ''carol''"
    and fresh: "\<forall>r\<in>set (tokens_rows sample_db). r_token r \<noteq> ''t3''" and email: "''c@x.io'' \<noteq> ''''"
    and signs: "\<And>c. \<exists>j. sample_sign c (accessTokenExpiresIn sample_cfg) = Inr j"
    by (simp_all add: sample_defs)
  obtain resp s' where run: "signup_route users_table tokens_table (\<lambda>p n. ''#'' @ p) sample_sign sample_cfg 1000 ''t3''
      ''c@x.io'' ''password'' ''carol'' (Some (''<script>'' @ [CHR 0x00])) sample_db = (Inr resp, s')"
    unfolding signup_route_def
    by (rule signup_succeeds [where sign = sample_sign, OF users_tbl.available_repository_axioms tokens_tbl.available_repository_axioms
          sample_ok sample_lifetime [OF refl] unused email fresh signs])
  from signup_display_name_unchecked [OF users_tbl.repository_axioms _ _ _ _ _ run, of sample_body_env]
  have "\<exists>u\<in>set (users_rows s'). u_displayName u = Some (''<script>'' @ [CHR 0x00])"
    by (auto simp: sample_body_env_def)
  with run show ?thesis by blast
qed

end
