(* ===== verification/Regex.thy ===== *)
theory Regex
  imports Js_Values
begin

text \<open>
  The regular expressions that the sources use, with the matching order of ECMAScript: \<open>ends\<close> lists
  the lengths of the matches at the front of a text in the order in which backtracking tries them,
  \<open>replace\<close> is \<open>String.prototype.replace\<close> with the flag \<open>g\<close> and \<open>occurs\<close> is \<open>RegExp.prototype.test\<close>.
  The lemmas relate the matches to the words of an expression, and show when a replacement leaves no
  match behind and creates none.
\<close>

section \<open>Matching\<close>

text \<open>
  \<open>Chars P m h\<close> is a character class, repeated greedily at least \<open>m\<close> and at most \<open>h\<close> times;
  \<open>Boundary\<close> is \<open>\b\<close>, for which a text comes with the character before it.
\<close>

datatype regex =
    Chars "char \<Rightarrow> bool" nat "nat option"
  | Then regex regex
  | Either regex regex
  | Maybe regex
  | Boundary

definition word_char :: "char \<Rightarrow> bool" where
  "word_char c \<longleftrightarrow> is_digit c \<or> (let n = char_code c in (65 \<le> n \<and> n \<le> 90) \<or> (97 \<le> n \<and> n \<le> 122) \<or> n = 95)"

fun word_at :: "char option \<Rightarrow> bool" where
  "word_at None = False"
| "word_at (Some c) = word_char c"

fun first_char :: "string \<Rightarrow> char option" where
  "first_char [] = None"
| "first_char (x # xs) = Some x"

definition at_boundary :: "char option \<Rightarrow> string \<Rightarrow> bool" where
  "at_boundary c s \<longleftrightarrow> word_at c \<noteq> word_at (first_char s)"

text \<open>The character before the rest of a text after \<open>n\<close> characters.\<close>

definition before :: "char option \<Rightarrow> string \<Rightarrow> nat \<Rightarrow> char option" where
  "before c s n = (if n = 0 then c else Some (s ! (n - 1)))"

fun ends :: "regex \<Rightarrow> char option \<Rightarrow> string \<Rightarrow> nat list" where
  "ends (Chars P m h) c s = (let n = length (takeWhile P s); k = (case h of None \<Rightarrow> n | Some l \<Rightarrow> min l n)
     in rev [m..<Suc k])"
| "ends (Then a b) c s = concat (map (\<lambda>n. map (\<lambda>k. n + k) (ends b (before c s n) (drop n s))) (ends a c s))"
| "ends (Either a b) c s = ends a c s @ ends b c s"
| "ends (Maybe a) c s = ends a c s @ [0]"
| "ends Boundary c s = (if at_boundary c s then [0] else [])"

fun occurs :: "regex \<Rightarrow> char option \<Rightarrow> string \<Rightarrow> bool" where
  "occurs r c [] = (ends r c [] \<noteq> [])"
| "occurs r c (x # xs) = (ends r c (x # xs) \<noteq> [] \<or> occurs r (Some x) xs)"

text \<open>
  None of the expressions that are replaced matches the empty text, so that an empty match is
  copied over.
\<close>

function replace :: "regex \<Rightarrow> (string \<Rightarrow> string) \<Rightarrow> char option \<Rightarrow> string \<Rightarrow> string" where
  "replace r f c [] = []"
| "replace r f c (x # xs) = (case ends r c (x # xs) of
      [] \<Rightarrow> x # replace r f (Some x) xs
    | n # ns \<Rightarrow> (if n = 0 then x # replace r f (Some x) xs
        else f (take n (x # xs)) @ replace r f (before c (x # xs) n) (drop n (x # xs))))"
  by pat_completeness auto

termination replace
  by (relation "measure (\<lambda>(r, f, c, s). length s)") auto

declare replace.simps(2) [simp del]

lemma replace_cases:
  obtains "replace r f c (x # xs) = x # replace r f (Some x) xs" and "ends r c (x # xs) = [] \<or> 0 \<in> set (ends r c (x # xs))"
  | n where "n \<in> set (ends r c (x # xs))" and "0 < n"
    and "replace r f c (x # xs) = f (take n (x # xs)) @ replace r f (before c (x # xs) n) (drop n (x # xs))"
proof (cases "ends r c (x # xs)")
  case Nil
  then show thesis using that(1) by (simp add: replace.simps(2))
next
  case (Cons n ns)
  show thesis
  proof (cases "n = 0")
    case True
    with Cons show thesis using that(1) by (simp add: replace.simps(2))
  next
    case False
    with Cons show thesis using that(2) [of n] by (simp add: replace.simps(2))
  qed
qed

section \<open>The words of an expression\<close>

primrec boundary_free :: "regex \<Rightarrow> bool" where
  "boundary_free (Chars P m h) = True"
| "boundary_free (Then a b) = (boundary_free a \<and> boundary_free b)"
| "boundary_free (Either a b) = (boundary_free a \<and> boundary_free b)"
| "boundary_free (Maybe a) = boundary_free a"
| "boundary_free Boundary = False"

primrec words :: "regex \<Rightarrow> string \<Rightarrow> bool" where
  "words (Chars P m h) w = (list_all P w \<and> m \<le> length w \<and> (case h of None \<Rightarrow> True | Some l \<Rightarrow> length w \<le> l))"
| "words (Then a b) w = (\<exists>u v. w = u @ v \<and> words a u \<and> words b v)"
| "words (Either a b) w = (words a w \<or> words b w)"
| "words (Maybe a) w = (words a w \<or> w = [])"
| "words Boundary w = (w = [])"

text \<open>Every character of a word belongs to the alphabet.\<close>

primrec over :: "(char \<Rightarrow> bool) \<Rightarrow> regex \<Rightarrow> bool" where
  "over C (Chars P m h) = (\<forall>c. P c \<longrightarrow> C c)"
| "over C (Then a b) = (over C a \<and> over C b)"
| "over C (Either a b) = (over C a \<and> over C b)"
| "over C (Maybe a) = over C a"
| "over C Boundary = True"

lemma words_over: "over C r \<Longrightarrow> words r w \<Longrightarrow> list_all C w"
  by (induction r arbitrary: w) (auto simp: list_all_iff)

lemma takeWhile_at_least: "n \<le> length (takeWhile P s) \<longleftrightarrow> n \<le> length s \<and> list_all P (take n s)"
proof (induction s arbitrary: n)
  case (Cons x s)
  then show ?case by (cases n) auto
qed simp

lemma ends_words:
  "boundary_free r \<Longrightarrow> n \<in> set (ends r c s) \<longleftrightarrow> n \<le> length s \<and> words r (take n s)"
proof (induction r arbitrary: n c s)
  case (Chars P m h)
  have "n \<in> set (ends (Chars P m h) c s) \<longleftrightarrow> m \<le> n \<and> n \<le> length (takeWhile P s) \<and> pred_option (\<lambda>l. n \<le> l) h"
    by (cases h) (auto simp: Let_def less_Suc_eq_le simp del: upt_Suc)
  then show ?case by (cases h) (auto simp: takeWhile_at_least min_def)
next
  case (Then a b)
  have "n \<in> set (ends (Then a b) c s) \<longleftrightarrow> (\<exists>i k. n = i + k \<and> i \<le> length s \<and> words a (take i s)
      \<and> k \<le> length s - i \<and> words b (take k (drop i s)))"
  proof -
    have a: "i \<in> set (ends a c s) \<longleftrightarrow> i \<le> length s \<and> words a (take i s)" for i
      using Then.IH(1) Then.prems by simp
    have b: "k \<in> set (ends b (before c s i) (drop i s)) \<longleftrightarrow> k \<le> length s - i \<and> words b (take k (drop i s))" for i k
      using Then.IH(2) Then.prems by simp
    have "n \<in> set (ends (Then a b) c s) \<longleftrightarrow> (\<exists>i\<in>set (ends a c s). \<exists>k\<in>set (ends b (before c s i) (drop i s)). n = i + k)"
      by auto
    then show ?thesis unfolding Bex_def a b by blast
  qed
  also have "\<dots> \<longleftrightarrow> n \<le> length s \<and> words (Then a b) (take n s)"
  proof
    assume "\<exists>i k. n = i + k \<and> i \<le> length s \<and> words a (take i s) \<and> k \<le> length s - i \<and> words b (take k (drop i s))"
    then obtain i k where "n = i + k" "i \<le> length s" "words a (take i s)" "k \<le> length s - i" "words b (take k (drop i s))"
      by blast
    then show "n \<le> length s \<and> words (Then a b) (take n s)" by (auto simp: take_add)
  next
    assume "n \<le> length s \<and> words (Then a b) (take n s)"
    then obtain u v where *: "n \<le> length s" "take n s = u @ v" "words a u" "words b v" by auto
    have n: "n = length u + length v" using arg_cong [OF *(2), of length] *(1) by simp
    then have "take (length u) s @ take (length v) (drop (length u) s) = u @ v" using *(2) by (simp add: take_add)
    then have "take (length u) s = u" "take (length v) (drop (length u) s) = v"
      using *(1) n by (simp_all add: append_eq_append_conv)
    then show "\<exists>i k. n = i + k \<and> i \<le> length s \<and> words a (take i s) \<and> k \<le> length s - i \<and> words b (take k (drop i s))"
      using * n by (intro exI [of _ "length u"] exI [of _ "length v"]) simp
  qed
  finally show ?case .
qed auto

section \<open>Patterns and what a replacement leaves\<close>

text \<open>A pattern is an expression without a boundary, or such an expression between two of them.\<close>

definition pattern :: "bool \<Rightarrow> regex \<Rightarrow> regex" where
  "pattern bounded core = (if bounded then Then Boundary (Then core Boundary) else core)"

lemma before_0 [simp]: "before c s 0 = c"
  by (simp add: before_def)

lemma before_Suc [simp]: "before c (x # s) (Suc n) = before (Some x) s n"
  by (simp add: before_def nth_Cons')

lemma ends_pattern:
  assumes "boundary_free core"
  shows "n \<in> set (ends (pattern bounded core) c s) \<longleftrightarrow> n \<le> length s \<and> words core (take n s)
    \<and> (bounded \<longrightarrow> at_boundary c s \<and> at_boundary (before c s n) (drop n s))"
  using ends_words [OF assms, of n c s] by (auto simp: pattern_def split: if_splits)

definition no_words_of :: "(string \<Rightarrow> bool) \<Rightarrow> regex \<Rightarrow> bool" where
  "no_words_of A r \<longleftrightarrow> (\<forall>w. words r w \<longrightarrow> \<not> A w)"

text \<open>
  The replacements leave a text in brackets, after a part \<open>pre\<close> of the match that they keep. \<open>A\<close>
  holds of the short texts in it.
\<close>

definition marker :: "(string \<Rightarrow> bool) \<Rightarrow> string \<Rightarrow> string \<Rightarrow> bool" where
  "marker A t m \<longleftrightarrow> (\<exists>pre mid rest. m = pre @ ''['' @ mid @ '']'' \<and> t = pre @ rest
     \<and> (pre = [] \<or> \<not> word_char (last pre)) \<and> (\<forall>u w v. pre = u @ w @ v \<longrightarrow> A w) \<and> (\<forall>u w v. mid = u @ w @ v \<longrightarrow> A w))"

lemma at_boundary_same: "first_char s = first_char t \<Longrightarrow> at_boundary c s = at_boundary c t"
  by (simp add: at_boundary_def)

lemma first_char_append [simp]: "first_char (s @ t) = (if s = [] then first_char t else first_char s)"
  by (cases s) simp_all

lemma before_append: "n \<le> length s \<Longrightarrow> before c (s @ t) n = before c s n"
  by (auto simp: before_def nth_append)

lemma occurs_append:
  "occurs r c (s @ t) \<longleftrightarrow> (\<exists>k<length s. ends r (before c s k) (drop k s @ t) \<noteq> []) \<or> occurs r (before c s (length s)) t"
proof (induction s arbitrary: c)
  case (Cons x s)
  have "(\<exists>k<length (x # s). ends r (before c (x # s) k) (drop k (x # s) @ t) \<noteq> [])
      \<longleftrightarrow> ends r c (x # s @ t) \<noteq> [] \<or> (\<exists>k<length s. ends r (before (Some x) s k) (drop k s @ t) \<noteq> [])"
    by (auto simp: less_Suc_eq_0_disj)
  with Cons show ?case by simp
qed simp

lemma occurs_drop:
  assumes no: "\<not> occurs r c s" and n: "n \<le> length s"
  shows "\<not> occurs r (before c s n) (drop n s)"
proof -
  have len: "length (take n s) = n" using n by simp
  have "before c s n = before c (take n s) n" using before_append [of n "take n s" c "drop n s"] len by simp
  with no occurs_append [of r c "take n s" "drop n s", unfolded len] show ?thesis by simp
qed

lemma not_occurs_front: "\<not> occurs r c s \<Longrightarrow> ends r c s = []"
  by (cases s) simp_all

locale replacement =
  fixes bounded' :: bool and core' :: regex and f :: "string \<Rightarrow> string"
    and C :: "char \<Rightarrow> bool" and A :: "string \<Rightarrow> bool"
  assumes free': "boundary_free core'"
    and markers: "words core' t \<Longrightarrow> marker A t (f t)"
    and brackets: "\<not> C (CHR ''['')" "\<not> C (CHR '']'')"
begin

lemma match_marker:
  assumes "n \<in> set (ends (pattern bounded' core') c s)"
  shows "\<exists>pre mid. f (take n s) = pre @ ''['' @ mid @ '']'' \<and> take (length pre) s = pre \<and> length pre \<le> length s
    \<and> (pre = [] \<or> \<not> word_char (last pre)) \<and> (\<forall>u w v. pre = u @ w @ v \<longrightarrow> A w) \<and> (\<forall>u w v. mid = u @ w @ v \<longrightarrow> A w)
    \<and> n \<le> length s \<and> (bounded' \<longrightarrow> at_boundary c s) \<and> (bounded' \<longrightarrow> at_boundary (before c s n) (drop n s))"
proof -
  have n: "n \<le> length s" and w: "words core' (take n s)"
    and b: "bounded' \<longrightarrow> at_boundary c s" "bounded' \<longrightarrow> at_boundary (before c s n) (drop n s)"
    using assms unfolding ends_pattern [OF free'] by blast+
  obtain pre mid rest where m: "f (take n s) = pre @ ''['' @ mid @ '']''" and t: "take n s = pre @ rest"
    and p: "pre = [] \<or> \<not> word_char (last pre)" "\<forall>u w v. pre = u @ w @ v \<longrightarrow> A w" "\<forall>u w v. mid = u @ w @ v \<longrightarrow> A w"
    using markers [OF w] unfolding marker_def by (elim exE conjE)
  have "s = (pre @ rest) @ drop n s" unfolding t [symmetric] by simp
  then have "s = pre @ rest @ drop n s" by (rule trans) (rule append_assoc)
  then obtain tail where "s = pre @ tail" by (rule that)
  then have q: "take (length pre) s = pre" "length pre \<le> length s" by simp_all
  show ?thesis by (rule exI [of _ pre], rule exI [of _ mid]) (intro conjI m q p n b)
qed

lemma front_of_marker:
  assumes pre: "take (length pre) s = pre" "length pre \<le> length s" and p: "pre = [] \<or> \<not> word_char (last pre)"
    and b: "bounded' \<longrightarrow> at_boundary c s" and n: "n \<le> length out" "list_all C (take n out)"
    and out: "out = pre @ CHR ''['' # rest"
  shows "n \<le> length s \<and> take n s = take n out
    \<and> (bounded' \<longrightarrow> at_boundary (before c s n) (drop n out) \<longrightarrow> at_boundary (before c s n) (drop n s))"
proof -
  have le: "n \<le> length pre"
  proof (rule ccontr)
    assume "\<not> n \<le> length pre"
    then obtain k where "n = length pre + Suc k" by (metis add_Suc_right less_imp_Suc_add not_le)
    then have "CHR ''['' \<in> set (take n out)" unfolding out by simp
    with n(2) brackets(1) show False by (auto simp: list_all_iff)
  qed
  have s: "s = pre @ drop (length pre) s" using pre(1) by (metis append_take_drop_id)
  have "at_boundary (before c s n) (drop n s)" if bd: "bounded'" "at_boundary (before c s n) (drop n out)"
  proof (cases "n < length pre")
    case True
    have "first_char (drop n s) = first_char (drop n pre)" "first_char (drop n out) = first_char (drop n pre)"
      using True by (subst s, simp, simp add: out)
    with bd(2) show ?thesis by (simp add: at_boundary_def)
  next
    case False
    with le have n': "n = length pre" by simp
    show ?thesis
    proof (cases "pre = []")
      case True
      then show ?thesis using b bd(1) n' by simp
    next
      case False
      then have "before c s n = Some (last pre)"
        unfolding n' by (subst s) (simp add: before_def nth_append last_conv_nth)
      moreover have "first_char (drop n out) = Some (CHR ''['')" by (simp add: n' out)
      ultimately have False
        using bd(2) p False by (simp add: at_boundary_def word_char_def is_digit_def char_code_def)
      then show ?thesis ..
    qed
  qed
  moreover have "take n s = take n out" using le by (subst s) (simp add: out)
  ultimately show ?thesis using le pre(2) by simp
qed

text \<open>Up to the first character outside the alphabet, the result is the text.\<close>

lemma replace_front:
  assumes "n \<le> length (replace (pattern bounded' core') f c s)" and "list_all C (take n (replace (pattern bounded' core') f c s))"
  shows "n \<le> length s \<and> take n s = take n (replace (pattern bounded' core') f c s)
    \<and> (bounded' \<longrightarrow> at_boundary (before c s n) (drop n (replace (pattern bounded' core') f c s))
        \<longrightarrow> at_boundary (before c s n) (drop n s))"
  using assms
proof (induction s arbitrary: c n rule: length_induct)
  case (1 s)
  let ?r = "pattern bounded' core'"
  show ?case
  proof (cases s)
    case (Cons x xs)
    show ?thesis
    proof (rule replace_cases [of ?r f c x xs])
      assume out: "replace ?r f c (x # xs) = x # replace ?r f (Some x) xs"
      show ?thesis
      proof (cases n)
        case (Suc k)
        have "k \<le> length (replace ?r f (Some x) xs)" "list_all C (take k (replace ?r f (Some x) xs))" "length xs < length s"
          using "1.prems" [unfolded Cons out] Cons Suc by simp_all
        then have "k \<le> length xs \<and> take k xs = take k (replace ?r f (Some x) xs)
          \<and> (bounded' \<longrightarrow> at_boundary (before (Some x) xs k) (drop k (replace ?r f (Some x) xs))
              \<longrightarrow> at_boundary (before (Some x) xs k) (drop k xs))" by (intro "1.IH" [rule_format])
        then show ?thesis unfolding Cons out Suc by simp
      qed (unfold Cons out, simp add: at_boundary_def)
    next
      fix l assume hit: "l \<in> set (ends ?r c (x # xs))"
        and out: "replace ?r f c (x # xs) = f (take l (x # xs)) @ replace ?r f (before c (x # xs) l) (drop l (x # xs))"
      obtain pre mid where m: "f (take l (x # xs)) = pre @ ''['' @ mid @ '']''" "take (length pre) (x # xs) = pre"
          "length pre \<le> length (x # xs)"
        and p: "pre = [] \<or> \<not> word_char (last pre)" and b: "bounded' \<longrightarrow> at_boundary c (x # xs)"
        using match_marker [OF hit] by (elim exE conjE)
      show ?thesis unfolding Cons
        by (rule front_of_marker [OF m(2,3) p b "1.prems" [unfolded Cons]])
          (simp add: out m(1))
    qed
  qed (use "1.prems" in simp)
qed

end

text \<open>
  A pattern that is not found before the replacement, or is the one replaced, is not found after it:
  its words have no bracket and do not fit into the texts of a marker, and a boundary next to a marker
  was one before.
\<close>

lemma take_up_to:
  assumes "list_all C (take n (a @ b # t))" and "\<not> C b"
  shows "take n (a @ b # t) = take n a"
proof -
  have "n \<le> length a"
  proof (rule ccontr)
    assume "\<not> n \<le> length a"
    then obtain k where "n = length a + Suc k" by (metis add_Suc_right less_imp_Suc_add not_le)
    with assms show False by simp
  qed
  then show ?thesis by simp
qed

lemma inside_marker:
  assumes w: "list_all C (take n (drop k (pre @ CHR ''['' # mid @ [CHR '']'']) @ t))" "take n (drop k (pre @ CHR ''['' # mid @ [CHR '']'']) @ t) \<noteq> []"
    and k: "k < length (pre @ CHR ''['' # mid @ [CHR '']''])" and b: "\<not> C (CHR ''['')" "\<not> C (CHR '']'')"
  shows "(\<exists>u v. pre = u @ take n (drop k (pre @ CHR ''['' # mid @ [CHR '']'']) @ t) @ v)
    \<or> (\<exists>u v. mid = u @ take n (drop k (pre @ CHR ''['' # mid @ [CHR '']'']) @ t) @ v)"
proof -
  have part: "\<exists>u v. a = u @ take n (drop i a) @ v" for a :: string and i n
    by (rule exI [of _ "take i a"], rule exI [of _ "drop n (drop i a)"]) (simp only: append_take_drop_id)
  consider (pre) "k < length pre" | (left) "k = length pre" | (mid) i where "k = length pre + Suc i" "i < length mid"
    | (right) "k = length pre + Suc (length mid)"
  proof -
    assume *: "k < length pre \<Longrightarrow> thesis" "k = length pre \<Longrightarrow> thesis"
      "\<And>i. k = length pre + Suc i \<Longrightarrow> i < length mid \<Longrightarrow> thesis" "k = length pre + Suc (length mid) \<Longrightarrow> thesis"
    show thesis
    proof (cases "k \<le> length pre")
      case True
      then show thesis using *(1,2) by linarith
    next
      case False
      then obtain i where "k = length pre + Suc i" by (metis add_Suc_right less_imp_Suc_add not_le)
      with k *(3,4) show thesis by (cases "i < length mid") auto
    qed
  qed
  then show ?thesis
  proof cases
    case pre
    then have eq: "drop k (pre @ CHR ''['' # mid @ [CHR '']'']) @ t = drop k pre @ CHR ''['' # (mid @ CHR '']'' # t)" by simp
    show ?thesis unfolding eq take_up_to [OF w(1) [unfolded eq] b(1)] using part [of pre n k] by blast
  next
    case left
    then have eq: "drop k (pre @ CHR ''['' # mid @ [CHR '']'']) @ t = [] @ CHR ''['' # (mid @ CHR '']'' # t)" by simp
    have False using w(2) unfolding eq take_up_to [OF w(1) [unfolded eq] b(1)] by simp
    then show ?thesis ..
  next
    case (mid i)
    then have eq: "drop k (pre @ CHR ''['' # mid @ [CHR '']'']) @ t = drop i mid @ CHR '']'' # t" by simp
    show ?thesis unfolding eq take_up_to [OF w(1) [unfolded eq] b(2)] using part [of mid n i] by blast
  next
    case right
    then have eq: "drop k (pre @ CHR ''['' # mid @ [CHR '']'']) @ t = [] @ CHR '']'' # t" by simp
    have False using w(2) unfolding eq take_up_to [OF w(1) [unfolded eq] b(2)] by simp
    then show ?thesis ..
  qed
qed

locale removal = replacement bounded' core' f C A
  for bounded' core' f C A +
  fixes bounded :: bool and core :: regex
  assumes free: "boundary_free core" and alphabet: "over C core" and tighter: "bounded \<Longrightarrow> bounded'"
    and long: "words core w \<Longrightarrow> w \<noteq> [] \<and> \<not> A w" and not_empty': "words core' w \<Longrightarrow> w \<noteq> []"
begin

lemma hit_before:
  assumes hit: "n \<in> set (ends (pattern bounded core) d (replace (pattern bounded' core') f c s))"
    and left: "bounded \<longrightarrow> d = c \<or> at_boundary c s"
  shows "n \<in> set (ends (pattern bounded core) c s)"
proof -
  let ?out = "replace (pattern bounded' core') f c s"
  have n: "n \<le> length ?out" and w: "words core (take n ?out)"
    and b: "bounded \<longrightarrow> at_boundary d ?out \<and> at_boundary (before d ?out n) (drop n ?out)"
    using hit unfolding ends_pattern [OF free] by blast+
  have "list_all C (take n ?out)" by (rule words_over [OF alphabet w])
  from replace_front [OF n this] have s: "n \<le> length s" "take n s = take n ?out"
    and right: "bounded' \<longrightarrow> at_boundary (before c s n) (drop n ?out) \<longrightarrow> at_boundary (before c s n) (drop n s)" by blast+
  have pos: "0 < n" using long [OF w] by (cases n) auto
  have "s ! (n - 1) = ?out ! (n - 1)" using arg_cong [OF s(2), of "\<lambda>t. t ! (n - 1)"] pos by simp
  then have prev: "before d ?out n = before c s n" using pos by (simp add: before_def)
  have "first_char s = first_char (take n s)" "first_char ?out = first_char (take n ?out)" using pos s(1) n
    by (metis first_char.elims less_numeral_extra(3) take_Suc_Cons take_eq_Nil gr0_implies_Suc first_char.simps(2) take_Nil)+
  then have first: "first_char s = first_char ?out" using s(2) by simp
  have "at_boundary c s" if bounded using b left that at_boundary_same [OF first] by auto
  moreover have "at_boundary (before c s n) (drop n s)" if bounded using b right prev tighter that by auto
  ultimately show ?thesis using s w unfolding ends_pattern [OF free] by simp
qed

lemma replace_clean:
  assumes "bounded \<longrightarrow> d = c \<or> at_boundary c s"
    and "(bounded = bounded' \<and> core = core') \<or> \<not> occurs (pattern bounded core) c s"
  shows "\<not> occurs (pattern bounded core) d (replace (pattern bounded' core') f c s)"
  using assms
proof (induction s arbitrary: c d rule: length_induct)
  case (1 s)
  let ?q = "pattern bounded core" and ?r = "pattern bounded' core'"
  show ?case
  proof (cases s)
    case Nil
    have "ends ?q d [] = []"
    proof (rule ccontr)
      assume "ends ?q d [] \<noteq> []"
      then obtain n where "n \<in> set (ends ?q d [])" by (cases "ends ?q d []") auto
      then have "words core []" unfolding ends_pattern [OF free] by simp
      with long show False by blast
    qed
    with Nil show ?thesis by simp
  next
    case (Cons x xs)
    show ?thesis
    proof (rule replace_cases [of ?r f c x xs])
      assume out: "replace ?r f c (x # xs) = x # replace ?r f (Some x) xs"
        and miss: "ends ?r c (x # xs) = [] \<or> 0 \<in> set (ends ?r c (x # xs))"
      have "0 \<notin> set (ends ?r c (x # xs))" unfolding ends_pattern [OF free'] using not_empty' by auto
      with miss have miss: "ends ?r c (x # xs) = []" by blast
      have "n \<notin> set (ends ?q c s)" for n
        using "1.prems"(2) miss not_occurs_front [of ?q c s] Cons by auto
      then have "n \<notin> set (ends ?q d (replace ?r f c s))" for n using hit_before [OF _ "1.prems"(1)] by blast
      then have "ends ?q d (replace ?r f c s) = []" by (meson equals0I set_empty)
      moreover have "\<not> occurs ?q (Some x) (replace ?r f (Some x) xs)"
        by (rule "1.IH" [rule_format]) (use Cons "1.prems"(2) in auto)
      ultimately show ?thesis unfolding Cons out by simp
    next
      fix l assume hit: "l \<in> set (ends ?r c (x # xs))" and l: "0 < l"
        and out: "replace ?r f c (x # xs) = f (take l (x # xs)) @ replace ?r f (before c (x # xs) l) (drop l (x # xs))"
      obtain pre mid where m: "f (take l (x # xs)) = pre @ ''['' @ mid @ '']''"
        and short: "\<forall>u w v. pre = u @ w @ v \<longrightarrow> A w" "\<forall>u w v. mid = u @ w @ v \<longrightarrow> A w" and le: "l \<le> length (x # xs)"
        and b: "bounded' \<longrightarrow> at_boundary (before c (x # xs) l) (drop l (x # xs))"
        using match_marker [OF hit] by (elim exE conjE)
      let ?m = "pre @ CHR ''['' # mid @ [CHR '']'']" and ?rest = "replace ?r f (before c s l) (drop l s)"
      have "ends ?q (before d ?m k) (drop k ?m @ ?rest) = []" if k: "k < length ?m" for k
      proof (rule ccontr)
        assume "ends ?q (before d ?m k) (drop k ?m @ ?rest) \<noteq> []"
        then obtain n where "n \<in> set (ends ?q (before d ?m k) (drop k ?m @ ?rest))"
          by (cases "ends ?q (before d ?m k) (drop k ?m @ ?rest)") auto
        then have w: "words core (take n (drop k ?m @ ?rest))" unfolding ends_pattern [OF free] by blast
        have "take n (drop k ?m @ ?rest) \<noteq> []" using long [OF w] by blast
        from inside_marker [OF words_over [OF alphabet w] this k brackets] short have "A (take n (drop k ?m @ ?rest))" by blast
        with long [OF w] show False by blast
      qed
      moreover have "\<not> occurs ?q (Some (CHR '']'')) ?rest"
      proof (rule "1.IH" [rule_format])
        show "length (drop l s) < length s" using l Cons by simp
        show "Some (CHR '']'') = before c s l \<or> at_boundary (before c s l) (drop l s)" if bounded
          using b tighter Cons that by blast
        show "bounded = bounded' \<and> core = core' \<or> \<not> occurs ?q (before c s l) (drop l s)"
          using "1.prems"(2) occurs_drop [of ?q c s l] le Cons by blast
      qed
      moreover have "before d ?m (length ?m) = Some (CHR '']'')" by (simp add: before_def nth_append)
      ultimately have "\<not> occurs ?q d (?m @ ?rest)" unfolding occurs_append by simp
      then show ?thesis unfolding Cons out m by simp
    qed
  qed
qed

end

end
