(* ===== verification/Sentry.thy ===== *)
theory Sentry
  imports Regex Shared
begin

text \<open>
  What the error tracker is sent (\<open>src/src/sentry.ts\<close>): the expressions that recognise personal data,
  their replacement in every text of an event, the keys whose values are withheld, and the options the
  tracker is started with. The lemmas show that no text of an event that is sent still contains an
  e-mail address, a wallet address or a token.
\<close>

section \<open>Expressions\<close>

definition in_range :: "char \<Rightarrow> char \<Rightarrow> char \<Rightarrow> bool" where
  "in_range a b c \<longleftrightarrow> char_code a \<le> char_code c \<and> char_code c \<le> char_code b"

definition letter :: "char \<Rightarrow> bool" where
  "letter c \<longleftrightarrow> in_range (CHR ''A'') (CHR ''Z'') c \<or> in_range (CHR ''a'') (CHR ''z'') c"

definition one :: "char \<Rightarrow> regex" where
  "one c = Chars (\<lambda>x. x = c) 1 (Some 1)"

fun literal :: "string \<Rightarrow> regex" where
  "literal [] = Chars (\<lambda>x. False) 0 (Some 0)"
| "literal (c # cs) = Then (one c) (literal cs)"

definition EMAIL_PATTERN :: regex where
  "EMAIL_PATTERN = Then (Chars (\<lambda>c. letter c \<or> is_digit c \<or> c \<in> set ''._%+-'') 1 None) (Then (one (CHR ''@''))
     (Then (Chars (\<lambda>c. letter c \<or> is_digit c \<or> c \<in> set ''.-'') 1 None) (Then (one (CHR ''.'')) (Chars letter 2 None))))"

definition wallet_core :: regex where
  "wallet_core = Then (one (CHR ''G'')) (Chars (\<lambda>c. in_range (CHR ''A'') (CHR ''Z'') c \<or> in_range (CHR ''2'') (CHR ''7'') c) 55 (Some 55))"

definition WALLET_ADDRESS_PATTERN :: regex where
  "WALLET_ADDRESS_PATTERN = pattern True wallet_core"

definition token_char :: "char \<Rightarrow> bool" where
  "token_char c \<longleftrightarrow> letter c \<or> is_digit c \<or> c = CHR ''_'' \<or> c = CHR ''-''"

definition hex_char :: "char \<Rightarrow> bool" where
  "hex_char c \<longleftrightarrow> in_range (CHR ''A'') (CHR ''F'') c \<or> in_range (CHR ''a'') (CHR ''f'') c \<or> is_digit c"

definition token_core :: regex where
  "token_core = Then (Maybe (Then (literal ''Bearer'') (Chars is_space 1 None)))
     (Either (Then (literal ''eyJ'') (Then (Chars token_char 1 None) (Then (one (CHR ''.''))
                (Then (Chars token_char 1 None) (Then (one (CHR ''.'')) (Chars token_char 1 None))))))
       (Either (Chars hex_char 32 None) (Chars token_char 40 None)))"

definition TOKEN_PATTERN :: regex where
  "TOKEN_PATTERN = pattern True token_core"

definition ignoring_case :: "char \<Rightarrow> regex" where
  "ignoring_case c = Chars (\<lambda>x. to_lower_char x = c) 1 (Some 1)"

fun literal_i :: "string \<Rightarrow> regex" where
  "literal_i [] = Chars (\<lambda>x. False) 0 (Some 0)"
| "literal_i (c # cs) = Then (ignoring_case c) (literal_i cs)"

definition SENSITIVE_KEY_PATTERN :: regex where
  "SENSITIVE_KEY_PATTERN = Either (literal_i ''token'') (Either (literal_i ''authorization'') (Either (literal_i ''password'')
     (Either (literal_i ''secret'') (Either (Then (literal_i ''api'') (Then (Maybe (Chars (\<lambda>c. c = CHR ''_'' \<or> c = CHR ''-'') 1 (Some 1)))
       (literal_i ''key''))) (Either (literal_i ''jwt'') (literal_i ''cookie''))))))"

section \<open>Redaction\<close>

definition redact_email :: "string \<Rightarrow> string" where
  "redact_email m = ''[redacted-email]''"

definition redact_wallet :: "string \<Rightarrow> string" where
  "redact_wallet m = ''[redacted-wallet]''"

definition redact_token :: "string \<Rightarrow> string" where
  "redact_token m = (if startsWith m ''Bearer '' then ''Bearer [redacted-token]'' else ''[redacted-token]'')"

definition redact_text :: "string \<Rightarrow> string" where
  "redact_text s = replace TOKEN_PATTERN redact_token None
     (replace WALLET_ADDRESS_PATTERN redact_wallet None (replace EMAIL_PATTERN redact_email None s))"

fun redactPii :: "jsval \<Rightarrow> jsval" where
  "redactPii (JString s) = JString (redact_text s)"
| "redactPii (JArray vs) = JArray (map redactPii vs)"
| "redactPii (JObject fs) = JObject (map (\<lambda>(key, entry).
     (key, if occurs SENSITIVE_KEY_PATTERN None key then JString ''[redacted]'' else redactPii entry)) fs)"
| "redactPii v = v"

definition beforeSend :: "jsval \<Rightarrow> jsval" where
  "beforeSend event = redactPii event"

section \<open>Options\<close>

definition parseTracesSampleRate :: "string option \<Rightarrow> rat" where
  "parseTracesSampleRate value = (case value of None \<Rightarrow> 1 / 10
     | Some s \<Rightarrow> if s = '''' then 1 / 10 else (case js_Number s of Fin r \<Rightarrow> min (max r 0) 1 | _ \<Rightarrow> 1 / 10))"

definition getSentryRelease :: "(string \<Rightarrow> string option) \<Rightarrow> string option" where
  "getSentryRelease env = (if truthy (env ''GIT_SHA'') then env ''GIT_SHA'' else env ''npm_package_version'')"

record sentry_options =
  so_dsn :: string
  so_environment :: string
  so_release :: "string option"
  so_tracesSampleRate :: rat

definition sentry_enabled :: "(string \<Rightarrow> string option) \<Rightarrow> bool" where
  "sentry_enabled env \<longleftrightarrow> env ''NODE_ENV'' \<noteq> Some ''test'' \<and> truthy (env ''SENTRY_DSN'')"

definition initSentry :: "(string \<Rightarrow> string option) \<Rightarrow> sentry_options option" where
  "initSentry env = (if \<not> sentry_enabled env then None
     else Some \<lparr>so_dsn = the (env ''SENTRY_DSN''), so_environment = str_or (env ''NODE_ENV'') ''development'',
       so_release = getSentryRelease env,
       so_tracesSampleRate = parseTracesSampleRate (env ''SENTRY_TRACES_SAMPLE_RATE'')\<rparr>)"

section \<open>No personal data remains\<close>

text \<open>The texts that a marker consists of are shorter than what is replaced and have no sign of an address.\<close>

definition harmless :: "string \<Rightarrow> bool" where
  "harmless w \<longleftrightarrow> length w \<le> 15 \<and> CHR ''@'' \<notin> set w \<and> CHR ''.'' \<notin> set w"

lemma harmless_part: "harmless (u @ w @ v) \<Longrightarrow> harmless w"
  by (auto simp: harmless_def)

definition marker_texts :: "string set" where
  "marker_texts = {'''', ''Bearer '', ''redacted-email'', ''redacted-wallet'', ''redacted-token''}"

lemma harmless_markers: "mid \<in> marker_texts \<Longrightarrow> mid = u @ w @ v \<Longrightarrow> harmless w"
proof -
  assume "mid \<in> marker_texts" and mid: "mid = u @ w @ v"
  from this(1) have "harmless mid" by (auto simp: marker_texts_def harmless_def)
  then show ?thesis unfolding mid by (rule harmless_part)
qed

lemma marker_bracketed:
  assumes "pre \<in> marker_texts" and "mid \<in> marker_texts" and "t = pre @ rest" and "pre = [] \<or> \<not> word_char (last pre)"
  shows "marker harmless t (pre @ ''['' @ mid @ '']'')"
  unfolding marker_def
  by (rule exI [of _ pre], rule exI [of _ mid], rule exI [of _ rest])
    (use assms harmless_markers in blast)

lemma redaction_markers:
  "marker harmless t (redact_email t)" "marker harmless t (redact_wallet t)" "marker harmless t (redact_token t)"
proof -
  have plain: "marker harmless t ([] @ ''['' @ mid @ '']'')" if "mid \<in> marker_texts" for mid
    by (rule marker_bracketed [where rest = t]) (use that in \<open>simp_all add: marker_texts_def\<close>)
  show "marker harmless t (redact_email t)" using plain [of "''redacted-email''"] by (simp add: redact_email_def marker_texts_def)
  show "marker harmless t (redact_wallet t)" using plain [of "''redacted-wallet''"] by (simp add: redact_wallet_def marker_texts_def)
  have "marker harmless t (''Bearer '' @ ''['' @ ''redacted-token'' @ '']'')" if "startsWith t ''Bearer ''"
  proof (rule marker_bracketed)
    have "take 7 t = ''Bearer ''" using that by (simp add: startsWith_def eval_nat_numeral)
    then show "t = ''Bearer '' @ drop 7 t" by (metis append_take_drop_id)
  qed (simp_all add: marker_texts_def word_char_def is_digit_def char_code_def)
  then show "marker harmless t (redact_token t)"
    using plain [of "''redacted-token''"] by (simp add: redact_token_def marker_texts_def)
qed

lemmas class_defs = letter_def token_char_def hex_char_def in_range_def is_digit_def char_code_def

definition email_char :: "char \<Rightarrow> bool" where
  "email_char c \<longleftrightarrow> letter c \<or> is_digit c \<or> c \<in> set ''._%+-@''"

definition token_text_char :: "char \<Rightarrow> bool" where
  "token_text_char c \<longleftrightarrow> token_char c \<or> c = CHR ''.'' \<or> is_space c"

lemma not_bracket:
  "\<not> email_char (CHR ''['')" "\<not> email_char (CHR '']'')" "\<not> token_text_char (CHR ''['')" "\<not> token_text_char (CHR '']'')"
  by (simp_all add: email_char_def token_text_char_def is_space_def class_defs)

lemma words_one [simp]: "words (one c) w \<longleftrightarrow> w = [c]"
  by (cases w) (auto simp: one_def)

lemma email_words: "words EMAIL_PATTERN w \<Longrightarrow> w \<noteq> [] \<and> \<not> harmless w"
  by (auto simp: EMAIL_PATTERN_def harmless_def)

lemma wallet_words: "words wallet_core w \<Longrightarrow> w \<noteq> [] \<and> \<not> harmless w"
  by (auto simp: wallet_core_def harmless_def)

lemma token_words: "words token_core w \<Longrightarrow> w \<noteq> [] \<and> \<not> harmless w"
  unfolding token_core_def by (auto simp: harmless_def)

lemma over_mono: "over C r \<Longrightarrow> (\<And>c. C c \<Longrightarrow> D c) \<Longrightarrow> over D r"
  by (induction r) auto

lemma core_free: "boundary_free EMAIL_PATTERN" "boundary_free wallet_core" "boundary_free token_core"
  by (simp_all add: EMAIL_PATTERN_def wallet_core_def token_core_def one_def)

lemma over_one [simp]: "over C (one c) = C c"
  by (simp add: one_def)

lemma core_over: "over email_char EMAIL_PATTERN" "over token_text_char wallet_core" "over token_text_char token_core"
  by (auto simp: EMAIL_PATTERN_def wallet_core_def token_core_def email_char_def token_text_char_def class_defs)

lemma pattern_forms:
  "EMAIL_PATTERN = pattern False EMAIL_PATTERN" "WALLET_ADDRESS_PATTERN = pattern True wallet_core"
  "TOKEN_PATTERN = pattern True token_core"
  by (simp_all add: pattern_def WALLET_ADDRESS_PATTERN_def TOKEN_PATTERN_def)

text \<open>Each replacement, for the pattern it replaces and those replaced before it.\<close>

interpretation email_text: replacement False EMAIL_PATTERN redact_email email_char harmless
  by unfold_locales (simp_all add: core_free redaction_markers not_bracket)

interpretation email_email: removal False EMAIL_PATTERN redact_email email_char harmless False EMAIL_PATTERN
  by unfold_locales (use core_free core_over email_words in auto)

interpretation wallet_email: removal True wallet_core redact_wallet email_char harmless False EMAIL_PATTERN
  by unfold_locales (use core_free core_over redaction_markers not_bracket email_words wallet_words in auto)

interpretation wallet_wallet: removal True wallet_core redact_wallet token_text_char harmless True wallet_core
  by unfold_locales (use core_free core_over redaction_markers not_bracket wallet_words in auto)

interpretation token_email: removal True token_core redact_token email_char harmless False EMAIL_PATTERN
  by unfold_locales (use core_free core_over redaction_markers not_bracket email_words token_words in auto)

interpretation token_wallet: removal True token_core redact_token token_text_char harmless True wallet_core
  by unfold_locales (use core_free core_over redaction_markers not_bracket wallet_words token_words in auto)

interpretation token_token: removal True token_core redact_token token_text_char harmless True token_core
  by unfold_locales (use core_free core_over redaction_markers not_bracket token_words in auto)

definition has_pii :: "string \<Rightarrow> bool" where
  "has_pii t \<longleftrightarrow> occurs EMAIL_PATTERN None t \<or> occurs WALLET_ADDRESS_PATTERN None t \<or> occurs TOKEN_PATTERN None t"

lemma redact_text_clean: "\<not> has_pii (redact_text s)"
proof -
  let ?e = "replace (pattern False EMAIL_PATTERN) redact_email None s"
  let ?w = "replace (pattern True wallet_core) redact_wallet None ?e"
  let ?t = "replace (pattern True token_core) redact_token None ?w"
  have "\<not> occurs (pattern False EMAIL_PATTERN) None ?e" by (rule email_email.replace_clean) simp_all
  then have "\<not> occurs (pattern False EMAIL_PATTERN) None ?w" by (intro wallet_email.replace_clean) simp_all
  then have "\<not> occurs (pattern False EMAIL_PATTERN) None ?t" by (intro token_email.replace_clean) simp_all
  moreover have "\<not> occurs (pattern True wallet_core) None ?w" by (rule wallet_wallet.replace_clean) simp_all
  then have "\<not> occurs (pattern True wallet_core) None ?t" by (intro token_wallet.replace_clean) simp_all
  moreover have "\<not> occurs (pattern True token_core) None ?t" by (rule token_token.replace_clean) simp_all
  moreover have "redact_text s = ?t" unfolding redact_text_def by (simp only: pattern_forms(2,3) pattern_forms(1) [symmetric])
  ultimately show ?thesis unfolding has_pii_def by (simp only: pattern_forms(2,3) pattern_forms(1) [symmetric]) simp
qed

text \<open>The texts of a value, and whether every sensitive key of it holds the placeholder.\<close>

fun texts_of :: "jsval \<Rightarrow> string list" where
  "texts_of (JString s) = [s]"
| "texts_of (JArray vs) = concat (map texts_of vs)"
| "texts_of (JObject fs) = concat (map (\<lambda>(key, entry). texts_of entry) fs)"
| "texts_of v = []"

fun keys_withheld :: "jsval \<Rightarrow> bool" where
  "keys_withheld (JArray vs) = list_all keys_withheld vs"
| "keys_withheld (JObject fs) = list_all (\<lambda>(key, entry). if occurs SENSITIVE_KEY_PATTERN None key
     then entry = JString ''[redacted]'' else keys_withheld entry) fs"
| "keys_withheld v = True"

text \<open>
  C26. Whatever event is reported, no text of what is sent, at any depth of objects and arrays, still
  contains an e-mail address, a wallet address or a token, and every key that names a secret has the
  placeholder for its value. (The keys themselves are sent as they are.)
\<close>

theorem sent_event_has_no_pii:
  "list_all (\<lambda>t. \<not> has_pii t) (texts_of (beforeSend event)) \<and> keys_withheld (beforeSend event)"
proof -
  have placeholder: "\<not> has_pii ''[redacted]''" by code_simp
  have "list_all (\<lambda>t. \<not> has_pii t) (texts_of (redactPii v)) \<and> keys_withheld (redactPii v)" for v
    by (induction v rule: redactPii.induct)
      (use placeholder redact_text_clean in \<open>auto simp: list_all_iff split: if_splits\<close>)
  then show ?thesis by (simp add: beforeSend_def)
qed

text \<open>The sampling rate is a probability, whatever the variable says.\<close>

lemma sampling_rate_bounds: "0 \<le> parseTracesSampleRate value \<and> parseTracesSampleRate value \<le> 1"
  by (auto simp: parseTracesSampleRate_def split: option.splits jsnum.splits)

end
