(* ===== verification/Security.thy ===== *)
theory Security
  imports Api_Prelude Js_Values
begin

text \<open>
  The headers of \<open>src/src/config/security.config.ts\<close>: the content security policy, the other options
  of helmet, the permissions policy, and the origins that \<open>CORS_ORIGIN\<close> allows. The lemmas show which
  origins get an answer that a browser hands to a script, and when with credentials.
\<close>

section \<open>Options\<close>

definition SELF :: string where
  "SELF = [CHR 0x27] @ ''self'' @ [CHR 0x27]"

definition INLINE :: string where
  "INLINE = [CHR 0x27] @ ''unsafe-inline'' @ [CHR 0x27]"

definition NONE :: string where
  "NONE = [CHR 0x27] @ ''none'' @ [CHR 0x27]"

definition CORS_METHODS :: "string list" where
  "CORS_METHODS = [''GET'', ''POST'', ''PUT'', ''PATCH'', ''DELETE'', ''OPTIONS'']"

definition PERMISSIONS_POLICY_HEADER :: string where
  "PERMISSIONS_POLICY_HEADER = ''geolocation=(), camera=(), microphone=()''"

record helmet_options =
  ho_directives :: "(string \<times> string list) list"
  ho_hsts :: "nat \<times> bool \<times> bool"
  ho_noSniff :: bool
  ho_xssFilter :: bool
  ho_referrerPolicy :: string
  ho_frameguard :: string
  ho_crossDomainPolicies :: string

definition createHelmetOptions :: helmet_options where
  "createHelmetOptions =
     \<lparr>ho_directives =
        [(''default-src'', [SELF]), (''base-uri'', [SELF]), (''font-src'', [SELF, ''data:'']), (''form-action'', [SELF]),
         (''frame-ancestors'', [NONE]), (''img-src'', [SELF, ''data:'', ''validator.swagger.io'']),
         (''object-src'', [NONE]), (''script-src'', [SELF, INLINE]), (''style-src'', [SELF, INLINE]), (''connect-src'', [SELF])],
      ho_hsts = (31536000, True, True), ho_noSniff = True, ho_xssFilter = True,
      ho_referrerPolicy = ''strict-origin-when-cross-origin'', ho_frameguard = ''deny'', ho_crossDomainPolicies = ''none''\<rparr>"

section \<open>Origins\<close>

text \<open>\<open>s.split(',')\<close>.\<close>

fun split_comma :: "string \<Rightarrow> string list" where
  "split_comma [] = [[]]"
| "split_comma (c # s) = (if c = CHR '','' then [] # split_comma s
     else (case split_comma s of p # ps \<Rightarrow> (c # p) # ps | [] \<Rightarrow> [[c]]))"

datatype cors_origin = OneOrigin string | Origins "string list"

definition parseCorsOrigin :: "string option \<Rightarrow> cors_origin" where
  "parseCorsOrigin rawOrigin = (case rawOrigin of None \<Rightarrow> OneOrigin ''*''
     | Some raw \<Rightarrow> if raw = '''' \<or> trim raw = '''' then OneOrigin ''*''
       else (let origins = filter (\<lambda>o'. o' \<noteq> '''') (map trim (split_comma raw))
         in if origins = [] \<or> ''*'' \<in> set origins then OneOrigin ''*''
            else if length origins = 1 then OneOrigin (hd origins) else Origins origins))"

record cors_options =
  co_origin :: cors_origin
  co_methods :: "string list"
  co_credentials :: bool

definition createCorsOptions :: "string option \<Rightarrow> cors_options" where
  "createCorsOptions rawOrigin = (let origin = parseCorsOrigin rawOrigin
     in \<lparr>co_origin = origin, co_methods = CORS_METHODS, co_credentials = (origin \<noteq> OneOrigin ''*'')\<rparr>)"

text \<open>
  What the middleware of CORS answers a request from an origin: the wildcard, the one origin it is
  configured with, or the request's own if it is on the list. A browser hands the answer to the page
  if it is the page's origin or the wildcard, and the latter only without credentials.
\<close>

fun allow_origin :: "cors_origin \<Rightarrow> string \<Rightarrow> string option" where
  "allow_origin (OneOrigin a) origin = Some a"
| "allow_origin (Origins as) origin = (if origin \<in> set as then Some origin else None)"

definition readable_by :: "cors_options \<Rightarrow> string \<Rightarrow> bool \<Rightarrow> bool" where
  "readable_by options origin credentials = (case allow_origin (co_origin options) origin of
      None \<Rightarrow> False
    | Some a \<Rightarrow> if credentials then a = origin \<and> co_credentials options else a = origin \<or> a = ''*'')"

text \<open>The origins that the variable lists.\<close>

definition listed :: "string option \<Rightarrow> string set" where
  "listed rawOrigin = (case rawOrigin of None \<Rightarrow> {} | Some raw \<Rightarrow> set (map trim (split_comma raw)) - {''''})"

lemma split_comma_not_empty: "split_comma s \<noteq> []"
  by (induction s) (auto split: list.splits)

lemma split_comma_chars: "p \<in> set (split_comma s) \<Longrightarrow> set p \<subseteq> set s"
proof (induction s arbitrary: p)
  case (Cons c s)
  obtain q qs where "split_comma s = q # qs" using split_comma_not_empty [of s] by (cases "split_comma s") auto
  with Cons show ?case by (force split: if_splits)
qed simp

lemma trim_blank: "trim s = '''' \<longleftrightarrow> (\<forall>c\<in>set s. is_space c)"
proof -
  have "trim_end s = '''' \<longleftrightarrow> (\<forall>c\<in>set s. is_space c)" for s by (simp add: trim_end_def)
  then have "trim s = '''' \<longleftrightarrow> (\<forall>c\<in>set (dropWhile is_space s). is_space c)" by (simp add: trim_def trim_start_def)
  also have "\<dots> \<longleftrightarrow> (\<forall>c\<in>set s. is_space c)" by (induction s) auto
  finally show ?thesis .
qed

text \<open>A blank variable lists nothing.\<close>

lemma listed_blank: "trim raw = '''' \<Longrightarrow> listed (Some raw) = {}"
proof -
  assume "trim raw = ''''"
  then have "trim p = ''''" if "p \<in> set (split_comma raw)" for p
    using split_comma_chars [OF that] unfolding trim_blank by blast
  then show ?thesis by (auto simp: listed_def)
qed

lemma parse_cases:
  obtains (wildcard) "listed raw = {} \<or> ''*'' \<in> listed raw" and "parseCorsOrigin raw = OneOrigin ''*''"
  | (one) a where "listed raw = {a}" and "a \<noteq> ''*''" and "parseCorsOrigin raw = OneOrigin a"
  | (many) origins where "listed raw = set origins" and "listed raw \<noteq> {}" and "''*'' \<notin> listed raw"
      and "parseCorsOrigin raw = Origins origins"
proof (cases raw)
  case None
  then show thesis using wildcard by (simp add: parseCorsOrigin_def listed_def)
next
  case (Some s)
  define origins where "origins = filter (\<lambda>o'. o' \<noteq> '''') (map trim (split_comma s))"
  have l: "listed raw = set origins" by (auto simp: listed_def Some origins_def)
  show thesis
  proof (cases "trim s = ''''")
    case True
    then show thesis using wildcard listed_blank [OF True] by (simp add: parseCorsOrigin_def Some)
  next
    case False
    then have p: "parseCorsOrigin raw = (if origins = [] \<or> ''*'' \<in> set origins then OneOrigin ''*''
        else if length origins = 1 then OneOrigin (hd origins) else Origins origins)"
      by (auto simp: parseCorsOrigin_def Some Let_def origins_def)
    show thesis
    proof (cases "origins = [] \<or> ''*'' \<in> set origins")
      case True
      then show thesis using wildcard p l by auto
    next
      case ne: False
      show thesis
      proof (cases "length origins = 1")
        case True
        then obtain a where "origins = [a]" by (cases origins) auto
        then show thesis using one [of a] p l ne by auto
      next
        case False
        then show thesis using many [of origins] p l ne by auto
      qed
    qed
  qed
qed

text \<open>
  C30. Who can read the answers: with credentials exactly the pages of the origins that the variable
  lists, and none if it lists a wildcard; without credentials these, or every page if the variable is
  absent, blank or lists a wildcard.
\<close>

theorem cors_exact:
  "origin \<noteq> ''*'' \<Longrightarrow>
   readable_by (createCorsOptions raw) origin True = (origin \<in> listed raw \<and> ''*'' \<notin> listed raw)
   \<and> readable_by (createCorsOptions raw) origin False = (origin \<in> listed raw \<or> listed raw = {} \<or> ''*'' \<in> listed raw)"
  by (cases rule: parse_cases [of raw]) (auto simp: readable_by_def createCorsOptions_def)

theorem cors_exact_witness:
  "readable_by (createCorsOptions (Some ''https://a.io, https://b.io'')) ''https://b.io'' True
   \<and> \<not> readable_by (createCorsOptions (Some ''https://a.io, https://b.io'')) ''https://c.io'' True"
proof -
  have "listed (Some ''https://a.io, https://b.io'') = {''https://a.io'', ''https://b.io''}"
    by (simp add: listed_def trim_def trim_start_def trim_end_def is_space_def char_code_def)
  then show ?thesis
    using cors_exact [of "''https://b.io''" "Some ''https://a.io, https://b.io''"]
      cors_exact [of "''https://c.io''" "Some ''https://a.io, https://b.io''"] by simp
qed

end
