(* ===== verification/Verification_Cache.thy ===== *)
theory Verification_Cache
  imports Tip_Properties
begin

text \<open>
  The cache of the verifications with Redis (\<open>src/src/tips/tips.service.ts\<close>): the client that
  \<open>onModuleInit\<close> leaves, the branches of reading and writing that use it while it is open, and the
  verification on top of either cache. The lemmas show that both caches keep the one contract, so
  that a verification answers from whichever is in use, and what a failing server does.
\<close>

section \<open>The client\<close>

datatype cache_client = NoClient | Client bool

text \<open>\<open>connects\<close> tells whether \<open>createClient\<close> and \<open>connect\<close> succeed.\<close>

definition onModuleInit :: "string option \<Rightarrow> bool \<Rightarrow> cache_client" where
  "onModuleInit redisUrl connects = (if \<not> truthy redisUrl then NoClient
     else if connects then Client True else NoClient)"

definition onModuleDestroy :: "cache_client \<Rightarrow> cache_client" where
  "onModuleDestroy c = (case c of Client True \<Rightarrow> Client False | _ \<Rightarrow> c)"

text \<open>
  The commands of the client that are used, at a time of the server's clock; they may fail. The
  payload stands for the text that \<open>JSON.parse\<close> turns into it.
\<close>

record 'r cache_server =
  cs_get :: "int \<Rightarrow> string \<Rightarrow> 'r \<Rightarrow> string + onchain_result option"
  cs_setEx :: "int \<Rightarrow> string \<Rightarrow> int \<Rightarrow> onchain_result \<Rightarrow> 'r \<Rightarrow> string + 'r"

record 'r cached_state = tips_state +
  redisClient :: cache_client
  redisStore :: 'r

definition readCache :: "'r cache_server \<Rightarrow> int \<Rightarrow> string \<Rightarrow> (('r, 'z) cached_state_scheme, onchain_result option) op" where
  "readCache S now tipId = (\<lambda>s. if redisClient s = Client True
     then (from_db (cs_get S now (getVerificationCacheKey tipId) (redisStore s)), s)
     else readVerificationCache now tipId s)"

definition writeCache :: "'r cache_server \<Rightarrow> int \<Rightarrow> string \<Rightarrow> onchain_result \<Rightarrow> (('r, 'z) cached_state_scheme, unit) op" where
  "writeCache S now tipId v = (\<lambda>s. if redisClient s = Client True
     then (case cs_setEx S now (getVerificationCacheKey tipId) 60 (json_round_trip v) (redisStore s) of
         Inl e \<Rightarrow> (Inl (JsError e), s)
       | Inr r \<Rightarrow> (Inr (), s\<lparr>redisStore := r\<rparr>))
     else writeVerificationCache now tipId v s)"

text \<open>\<open>verifyTipOnChain\<close> over the operations of a cache.\<close>

definition verify_cached ::
  "(int \<Rightarrow> string \<Rightarrow> ('z tips_state_scheme, onchain_result option) op) \<Rightarrow>
   (int \<Rightarrow> string \<Rightarrow> onchain_result \<Rightarrow> ('z tips_state_scheme, unit) op) \<Rightarrow>
   (tip_where, tip) repository_ops \<Rightarrow> (user_where, user) repository_ops \<Rightarrow>
   (notification_where, notification) repository_ops \<Rightarrow> chain_env \<Rightarrow> int \<Rightarrow> int \<Rightarrow> string \<Rightarrow>
   ('z tips_state_scheme, onchain_result) op" where
  "verify_cached rd wr TR UR NR env now later i =
     andThen (rd now i)
     (\<lambda>cached. case cached of
        Some v \<Rightarrow> return_op v
      | None \<Rightarrow> andThen (verify_uncached TR UR env i)
          (\<lambda>(tip, creatorAddress, verification).
             andThen (if \<not> oc_matches verification
               then andThen (notifyDiscrepancyDetected NR later (t_creatorId tip)
                  (discrepancy_metadata env tip creatorAddress verification)) (\<lambda>_. return_op ())
               else return_op ())
             (\<lambda>_. andThen (wr later i verification)
             (\<lambda>_. return_op verification))))"

lemma verify_local: "verifyTipOnChain = verify_cached readVerificationCache writeVerificationCache"
  unfolding verifyTipOnChain_def verify_cached_def by (intro ext) (rule refl)

section \<open>The contract of the server\<close>

text \<open>
  What a server that answers promises: a key reads as it was set until its seconds are over, and no
  other key is touched.
\<close>

locale cache_contract =
  fixes S :: "'r cache_server"
  assumes sets: "\<exists>r'. cs_setEx S t k n v r = Inr r'"
    and gets_set: "cs_setEx S t k n v r = Inr r' \<Longrightarrow> t' < t + 1000 * n \<Longrightarrow> cs_get S t' k r' = Inr (Some v)"
    and gets_expired: "cs_setEx S t k n v r = Inr r' \<Longrightarrow> t + 1000 * n \<le> t' \<Longrightarrow> cs_get S t' k r' = Inr None"
    and gets_other: "cs_setEx S t k n v r = Inr r' \<Longrightarrow> k' \<noteq> k \<Longrightarrow> cs_get S t' k' r' = cs_get S t' k' r"
begin

lemma cache_laws: "result_cache (readCache S) (writeCache S) json_round_trip verificationCacheTtlMs"
proof unfold_locales
  fix t k v and s :: "('r, 'z) cached_state_scheme"
  show "\<exists>s1. writeCache S t k v s = (Inr (), s1)"
    using sets [of t "getVerificationCacheKey k" 60 "json_round_trip v" "redisStore s"]
    by (auto simp: writeCache_def writeVerificationCache_def)
next
  fix t k v t' and s s1 :: "('r, 'z) cached_state_scheme"
  assume w: "writeCache S t k v s = (Inr (), s1)" and t': "t' < t + verificationCacheTtlMs"
  show "readCache S t' k s1 = (Inr (Some (json_round_trip v)), s1)"
  proof (cases "redisClient s = Client True")
    case True
    with w obtain r where "cs_setEx S t (getVerificationCacheKey k) 60 (json_round_trip v) (redisStore s) = Inr r"
      and "s1 = s\<lparr>redisStore := r\<rparr>" by (auto simp: writeCache_def split: sum.splits)
    with True t' gets_set show ?thesis by (simp add: readCache_def verificationCacheTtlMs_def)
  next
    case False
    with w have "s1 = s\<lparr>localVerificationCache := localVerificationCache s1\<rparr>" "redisClient s1 = redisClient s"
      by (auto simp: writeCache_def writeVerificationCache_def)
    with False w t' local_cache.hit show ?thesis by (simp add: readCache_def writeCache_def)
  qed
next
  fix t k v t' and s s1 :: "('r, 'z) cached_state_scheme"
  assume w: "writeCache S t k v s = (Inr (), s1)" and t': "t + verificationCacheTtlMs \<le> t'"
  show "fst (readCache S t' k s1) = Inr None"
  proof (cases "redisClient s = Client True")
    case True
    with w obtain r where "cs_setEx S t (getVerificationCacheKey k) 60 (json_round_trip v) (redisStore s) = Inr r"
      and "s1 = s\<lparr>redisStore := r\<rparr>" by (auto simp: writeCache_def split: sum.splits)
    with True t' gets_expired show ?thesis by (simp add: readCache_def verificationCacheTtlMs_def)
  next
    case False
    with w have "redisClient s1 = redisClient s" by (auto simp: writeCache_def writeVerificationCache_def)
    with False w t' local_cache.expired show ?thesis by (simp add: readCache_def writeCache_def)
  qed
next
  fix t k v t' k' and s s1 :: "('r, 'z) cached_state_scheme"
  assume w: "writeCache S t k v s = (Inr (), s1)" and k': "k' \<noteq> k"
  show "fst (readCache S t' k' s1) = fst (readCache S t' k' s)"
  proof (cases "redisClient s = Client True")
    case True
    with w obtain r where "cs_setEx S t (getVerificationCacheKey k) 60 (json_round_trip v) (redisStore s) = Inr r"
      and "s1 = s\<lparr>redisStore := r\<rparr>" by (auto simp: writeCache_def split: sum.splits)
    with True k' gets_other show ?thesis by (simp add: readCache_def)
  next
    case False
    with w have "redisClient s1 = redisClient s" by (auto simp: writeCache_def writeVerificationCache_def)
    with False w k' local_cache.other_key show ?thesis by (simp add: readCache_def writeCache_def)
  qed
qed

end

text \<open>A server as a map of values with their time of expiry.\<close>

definition map_cache_server :: "(string \<Rightarrow> (onchain_result \<times> int) option) cache_server" where
  "map_cache_server = \<lparr>cs_get = (\<lambda>t k r. Inr (case r k of Some (v, e) \<Rightarrow> if t < e then Some v else None | None \<Rightarrow> None)),
     cs_setEx = (\<lambda>t k n v r. Inr (r(k \<mapsto> (v, t + 1000 * n))))\<rparr>"

interpretation map_cache: cache_contract map_cache_server
  by unfold_locales (auto simp: map_cache_server_def)

section \<open>Verifications\<close>

lemma verify_cached_writes:
  fixes s :: "'z tips_state_scheme"
  assumes miss: "fst (rd now i s) = Inr None" and run: "verify_cached rd wr TR UR NR env now later i s = (Inr v, s')"
  obtains s2 where "wr later i v s2 = (Inr (), s')"
proof -
  obtain s1 where s1: "rd now i s = (Inr None, s1)" using miss by (metis prod.collapse)
  have "\<exists>s2. wr later i v s2 = (Inr (), s')"
    using run unfolding verify_cached_def
    by (auto simp: andThen_Inr [where m = "rd now i", OF s1] return_op_apply elim!: andThen_InrE split: prod.splits)
  then show thesis using that by blast
qed

text \<open>
  C38. With Redis or without, a verification is answered from the cache for sixty seconds after it was
  made: asked again it returns the first result and changes nothing, so that no second notification
  is sent, whatever the chain and the tables would say by then.
\<close>

theorem verification_served_from_cache:
  fixes s :: "('r, 'z) cached_state_scheme"
  assumes "cache_contract S" and "fst (readCache S now i s) = Inr None"
    and "verify_cached (readCache S) (writeCache S) TR UR NR env now later i s = (Inr v, s')" and "t < later + 60000"
  shows "verify_cached (readCache S) (writeCache S) TR UR NR env' t t' i s' = (Inr (json_round_trip v), s')"
proof -
  obtain s2 where w: "writeCache S later i v s2 = (Inr (), s')"
    by (rule verify_cached_writes [OF assms(2,3)])
  show ?thesis unfolding verify_cached_def
    by (rule result_cache.hit_skips [OF cache_contract.cache_laws [OF assms(1)] w])
      (simp add: assms(4) verificationCacheTtlMs_def)
qed

text \<open>While the client is open, a command that fails fails the verification; the local cache is not asked.\<close>

lemma failing_server_fails_verification:
  assumes "redisClient s = Client True" and "cs_get S now (getVerificationCacheKey i) (redisStore s) = Inl e"
  shows "verify_cached (readCache S) (writeCache S) TR UR NR env now later i s = (Inl (JsError e), s)"
  using assms by (simp add: verify_cached_def readCache_def andThen_def)

definition opened_state :: "(string \<Rightarrow> (onchain_result \<times> int) option) cached_state" where
  "opened_state = tips_state.extend sample_tips_state \<lparr>redisClient = onModuleInit (Some ''redis://cache'') True, redisStore = (\<lambda>k. None)\<rparr>"

lemma redis_mismatch:
  "\<exists>v s'. verify_cached (readCache map_cache_server) (writeCache map_cache_server) tips_table users_table notifications_table silent_env 100 110 ''1'' opened_state
     = (Inr v, s')"
  by (simp add: verify_cached_def readCache_def writeCache_def map_cache_server_def opened_state_def onModuleInit_def tips_state.defs sample_tips_state_def
      verify_uncached_def find_tip_def load_user_def getCreatorTipIndex_def tip_eval sample_env_def silent_env_def
      verifyPayment_def verifyTipOnContract_def timestamp_match_def onchain_matches_def unverified_def
      no_contract_tip_def notifyDiscrepancyDetected_def createNotification_def)

theorem verification_served_from_cache_witness:
  "\<exists>v s'. verify_cached (readCache map_cache_server) (writeCache map_cache_server) tips_table users_table notifications_table silent_env 100 110 ''1'' opened_state = (Inr v, s')
     \<and> verify_cached (readCache map_cache_server) (writeCache map_cache_server) tips_table users_table notifications_table sample_env 200 210 ''1'' s'
       = (Inr (json_round_trip v), s')"
proof -
  obtain v s' where r: "verify_cached (readCache map_cache_server) (writeCache map_cache_server) tips_table users_table notifications_table silent_env 100 110 ''1'' opened_state
     = (Inr v, s')" using redis_mismatch by blast
  have miss: "fst (readCache map_cache_server 100 ''1'' opened_state) = Inr None"
    by (simp add: readCache_def map_cache_server_def opened_state_def onModuleInit_def tips_state.defs)
  from verification_served_from_cache [OF map_cache.cache_contract_axioms miss r, of 200 sample_env 210] r
  show ?thesis by auto
qed

end
