(* ===== verification/Seed.thy ===== *)
theory Seed
  imports Api_Prelude Entities
begin

text \<open>
  The script that fills a development database (\<open>src/scripts/seed.ts\<close>). The random generator of
  \<open>faker\<close> and the database are parameters; the script threads the generator through its loops.
\<close>

section \<open>Scale and counts\<close>

definition USDC_ISSUER :: "string option \<Rightarrow> string" where
  "USDC_ISSUER env = str_or env ''GBBD47IFWMR5EIVXX4S7N7GCCJH7OOWBXVO6E3XEFZQFL5JEBVJY6HCO''"

definition DEMO_PASSWORD_HASH :: string where
  "DEMO_PASSWORD_HASH = ''$2b$10$w0My8T1jG2joSKILu1fayeOTN42n0r2sZE0NuVcjkPdnqxKknlUta''"

definition readScale :: "string option \<Rightarrow> rat result" where
  "readScale env = (let rawScale = str_or env ''1''
     in case js_Number rawScale of
        Fin scale \<Rightarrow> if scale \<le> 0 then Inl (JsError (''SEED_SCALE must be a positive number. Received: '' @ rawScale))
          else Inr scale
      | _ \<Rightarrow> Inl (JsError (''SEED_SCALE must be a positive number. Received: '' @ rawScale)))"

text \<open>\<open>Math.round\<close> of a number that is not negative.\<close>

definition math_round :: "rat \<Rightarrow> nat" where
  "math_round r = nat \<lfloor>r + 1 / 2\<rfloor>"

record seed_counts =
  sc_creators :: nat
  sc_emailCreators :: nat
  sc_stellarCreators :: nat
  sc_tips :: nat
  sc_notifications :: nat

definition getCounts :: "rat \<Rightarrow> seed_counts" where
  "getCounts scale =
     (let creators = max 1 (math_round (50 * scale)); emailCreators = min creators (math_round (30 * scale))
      in \<lparr>sc_creators = creators, sc_emailCreators = emailCreators, sc_stellarCreators = creators - emailCreators,
        sc_tips = max 1 (math_round (500 * scale)), sc_notifications = max 1 (math_round (200 * scale))\<rparr>)"

section \<open>The generator and the state of the script\<close>

text \<open>
  A choice of \<open>arrayElement\<close> or \<open>weightedArrayElement\<close> is the draw of a position, from a length or
  from the weights.
\<close>

record 'g faker =
  fk_seed :: "int \<Rightarrow> 'g \<Rightarrow> 'g"
  fk_alphanumeric :: "nat \<Rightarrow> 'g \<Rightarrow> string \<times> 'g"
  fk_hexadecimal :: "nat \<Rightarrow> 'g \<Rightarrow> string \<times> 'g"
  fk_int :: "int \<Rightarrow> int \<Rightarrow> 'g \<Rightarrow> int \<times> 'g"
  fk_float :: "rat \<Rightarrow> rat \<Rightarrow> nat \<Rightarrow> 'g \<Rightarrow> rat \<times> 'g"
  fk_boolean :: "rat \<Rightarrow> 'g \<Rightarrow> bool \<times> 'g"
  fk_position :: "nat \<Rightarrow> 'g \<Rightarrow> nat \<times> 'g"
  fk_weighted :: "nat list \<Rightarrow> 'g \<Rightarrow> nat \<times> 'g"
  fk_username :: "'g \<Rightarrow> string \<times> 'g"
  fk_fullName :: "'g \<Rightarrow> string \<times> 'g"
  fk_firstName :: "'g \<Rightarrow> string \<times> 'g"
  fk_personBio :: "'g \<Rightarrow> string \<times> 'g"
  fk_avatar :: "'g \<Rightarrow> string \<times> 'g"
  fk_url :: "'g \<Rightarrow> string \<times> 'g"
  fk_email :: "string \<Rightarrow> 'g \<Rightarrow> string \<times> 'g"
  fk_sentence :: "nat \<Rightarrow> nat \<Rightarrow> 'g \<Rightarrow> string \<times> 'g"

text \<open>\<open>User & { tipWalletAddress }\<close>, and the fields the script sets of a tip and of a notification.\<close>

record seeded_creator = user +
  tipWalletAddress :: string

record seed_tip =
  sd_id :: "string option"
  sd_creatorId :: "string option"
  sd_supporterId :: "string option"
  sd_senderWallet :: string
  sd_receiverWallet :: string
  sd_amount :: rat
  sd_asset :: tip_asset
  sd_assetIssuer :: "string option"
  sd_transactionHash :: string
  sd_status :: tip_status
  sd_createdAt :: int
  sd_message :: "string option"

record seed_notification =
  sn_id :: "string option"
  sn_userId :: "string option"
  sn_type :: notification_type
  sn_title :: string
  sn_message :: string
  sn_isRead :: bool
  sn_metadata :: "(string option \<times> tip_asset \<times> rat \<times> string)"
  sn_createdAt :: int

record 'g seed_state =
  generator :: 'g
  seed_users :: "seeded_creator list"
  seed_tips :: "seed_tip list"
  seed_notifications :: "seed_notification list"
  seed_tokens :: "refresh_token list"

text \<open>
  The data source: how opening it or the statement fails, if it does, and the rows it returns for an
  array that is saved, with what the database generates.
\<close>

record seed_store =
  st_initialize :: "string option"
  st_truncate :: "string option"
  st_users :: "seeded_creator list \<Rightarrow> string + seeded_creator list"
  st_tips :: "seed_tip list \<Rightarrow> string + seed_tip list"
  st_notifications :: "seed_notification list \<Rightarrow> string + seed_notification list"

definition draw :: "('g \<Rightarrow> 'a \<times> 'g) \<Rightarrow> ('g seed_state, 'a) op" where
  "draw f = (\<lambda>s. case f (generator s) of (x, g) \<Rightarrow> (Inr x, s\<lparr>generator := g\<rparr>))"

definition arrayElement :: "'g faker \<Rightarrow> 'a list \<Rightarrow> ('g seed_state, 'a) op" where
  "arrayElement F xs = (if xs = [] then throw (JsError ''Cannot get value from empty dataset.'')
     else andThen (draw (fk_position F (length xs))) (\<lambda>k. return_op (xs ! k)))"

text \<open>The loop of \<open>k\<close> rounds from \<open>index\<close> on that collects what each round makes.\<close>

primrec collect :: "(nat \<Rightarrow> ('s, 'a) op) \<Rightarrow> nat \<Rightarrow> nat \<Rightarrow> ('s, 'a list) op" where
  "collect body index 0 = return_op []"
| "collect body index (Suc k) = andThen (body index) (\<lambda>x. andThen (collect body (Suc index) k) (\<lambda>xs. return_op (x # xs)))"

section \<open>Generated values\<close>

definition digit36 :: "nat \<Rightarrow> char" where
  "digit36 d = (if d < 10 then char_of (48 + d) else char_of (87 + d))"

fun radix36 :: "nat \<Rightarrow> string" where
  "radix36 n = (if n < 36 then [digit36 n] else radix36 (n div 36) @ [digit36 (n mod 36)])"

declare radix36.simps [simp del]

definition padStart :: "nat \<Rightarrow> char \<Rightarrow> string \<Rightarrow> string" where
  "padStart n c s = replicate (n - length s) c @ s"

definition createWalletAddress :: "'g faker \<Rightarrow> nat \<Rightarrow> ('g seed_state, string) op" where
  "createWalletAddress F index = andThen (draw (fk_alphanumeric F 55))
     (\<lambda>s. return_op (take 56 (''G'' @ s @ padStart 4 CHR ''0'' (toUpperCase (radix36 index)))))"

definition createPastDate :: "'g faker \<Rightarrow> int \<Rightarrow> int \<Rightarrow> ('g seed_state, int) op" where
  "createPastDate F now maxDaysAgo = andThen (draw (fk_int F 0 maxDaysAgo))
     (\<lambda>daysAgo. andThen (draw (fk_int F 0 86399))
     (\<lambda>secondsIntoDay. return_op (now - (daysAgo * 86400 + secondsIntoDay) * 1000)))"

definition is_name_char :: "char \<Rightarrow> bool" where
  "is_name_char c \<longleftrightarrow> c \<in> set ''abcdefghijklmnopqrstuvwxyz0123456789_''"

definition createUsername :: "'g faker \<Rightarrow> nat \<Rightarrow> ('g seed_state, string) op" where
  "createUsername F index = andThen (draw (fk_username F))
     (\<lambda>n. return_op (filter is_name_char (toLowerCase n) @ ''_'' @ show_nat index))"

text \<open>\<open>x.toFixed(2)\<close> of a number that is not negative.\<close>

definition toFixed2 :: "rat \<Rightarrow> string" where
  "toFixed2 r = show_decimal 2 (of_int \<lfloor>r * 100 + 1 / 2\<rfloor> / 100)"

section \<open>The tables\<close>

definition resetTables :: "seed_store \<Rightarrow> ('g seed_state, unit) op" where
  "resetTables S = (\<lambda>s. case st_truncate S of
      Some e \<Rightarrow> (Inl (JsError e), s)
    | None \<Rightarrow> (Inr (), s\<lparr>seed_users := [], seed_tips := [], seed_notifications := [], seed_tokens := []\<rparr>))"

definition seed_creator :: "'g faker \<Rightarrow> seed_counts \<Rightarrow> nat \<Rightarrow> ('g seed_state, seeded_creator) op" where
  "seed_creator F counts index =
     andThen (draw (fk_fullName F)) (\<lambda>displayName.
     andThen (createWalletAddress F index) (\<lambda>address.
     andThen (createUsername F index) (\<lambda>username.
     andThen (draw (fk_personBio F)) (\<lambda>bio.
     andThen (draw (fk_avatar F)) (\<lambda>avatarUrl.
     andThen (draw (fk_username F)) (\<lambda>twitter.
     andThen (draw (fk_username F)) (\<lambda>github.
     andThen (draw (fk_url F)) (\<lambda>website.
       let isEmailCreator = index < sc_emailCreators counts;
           creator = \<lparr>u_id = None, u_username = Some username, u_displayName = Some displayName, u_bio = Some bio,
             u_avatarUrl = Some avatarUrl,
             u_socialLinks = Some \<lparr>sl_twitter = Some (''https://x.com/'' @ twitter),
               sl_github = Some (''https://github.com/'' @ github), sl_youtube = None, sl_website = Some website\<rparr>,
             u_email = None, u_password = None, u_walletAddress = None,
             u_authMethod = Some (if isEmailCreator then EMAIL else STELLAR), u_role = Some USER,
             u_isActive = Some True, u_createdAt = None, tipWalletAddress = address\<rparr>
       in if isEmailCreator
          then andThen (draw (fk_email F displayName))
            (\<lambda>email. return_op (creator\<lparr>u_email := Some email, u_password := Some DEMO_PASSWORD_HASH\<rparr>))
          else return_op (creator\<lparr>u_walletAddress := Some address\<rparr>)))))))))"

text \<open>\<open>save\<close> runs the hook of every user before it inserts any.\<close>

fun run_hooks :: "seeded_creator list \<Rightarrow> unit result" where
  "run_hooks [] = Inr ()"
| "run_hooks (c # cs) = bind_result (validateAuthMethod (user.truncate c)) (\<lambda>_. run_hooks cs)"

definition seedCreators :: "'g faker \<Rightarrow> seed_store \<Rightarrow> seed_counts \<Rightarrow> ('g seed_state, seeded_creator list) op" where
  "seedCreators F S counts =
     andThen (collect (seed_creator F counts) 0 (sc_creators counts)) (\<lambda>creators.
     andThen (lift_result (run_hooks creators)) (\<lambda>_.
     andThen (lift_result (from_db (st_users S creators))) (\<lambda>saved s.
       (Inr saved, s\<lparr>seed_users := seed_users s @ saved\<rparr>))))"

definition tip_statuses :: "(nat \<times> tip_status) list" where
  "tip_statuses = [(78, COMPLETED), (17, PENDING), (5, FAILED)]"

definition seed_a_tip ::
  "'g faker \<Rightarrow> (nat \<Rightarrow> int) \<Rightarrow> string \<Rightarrow> seeded_creator list \<Rightarrow> nat \<Rightarrow> nat \<Rightarrow> ('g seed_state, seed_tip) op" where
  "seed_a_tip F clock issuer creators xlmTipCount index =
     andThen (arrayElement F creators) (\<lambda>creator.
     let possibleSupporters = filter (\<lambda>u. u_id u \<noteq> u_id creator) creators
     in andThen (if possibleSupporters = [] then return_op None
         else andThen (draw (fk_boolean F (65 / 100))) (\<lambda>b. if b
           then andThen (arrayElement F possibleSupporters) (\<lambda>u. return_op (Some u)) else return_op None)) (\<lambda>supporter.
     andThen (draw (fk_weighted F (map fst tip_statuses))) (\<lambda>k.
     andThen (case supporter of
         Some u \<Rightarrow> if tipWalletAddress u \<noteq> '''' then return_op (tipWalletAddress u) else createWalletAddress F (index + 10000)
       | None \<Rightarrow> createWalletAddress F (index + 10000)) (\<lambda>senderWallet.
     andThen (draw (fk_float F (1 / 2) 250 7)) (\<lambda>amount.
     andThen (draw (fk_hexadecimal F 24)) (\<lambda>hex.
     andThen (createPastDate F (clock index) 90) (\<lambda>createdAt.
     andThen (draw (fk_boolean F (55 / 100))) (\<lambda>b.
     andThen (if b then andThen (draw (fk_sentence F 6 16)) (\<lambda>m. return_op (Some m)) else return_op None) (\<lambda>message.
       let asset = (if index < xlmTipCount then XLM else USDC)
       in return_op \<lparr>sd_id = None, sd_creatorId = u_id creator,
         sd_supporterId = (case supporter of Some u \<Rightarrow> if truthy (u_id u) then u_id u else None | None \<Rightarrow> None),
         sd_senderWallet = senderWallet, sd_receiverWallet = tipWalletAddress creator, sd_amount = amount,
         sd_asset = asset, sd_assetIssuer = (if asset = USDC then Some issuer else None),
         sd_transactionHash = ''seed_tx_'' @ padStart 4 CHR ''0'' (show_nat index) @ ''_'' @ hex,
         sd_status = snd (tip_statuses ! k), sd_createdAt = createdAt, sd_message = message\<rparr>)))))))))"

definition seedTips ::
  "'g faker \<Rightarrow> seed_store \<Rightarrow> (nat \<Rightarrow> int) \<Rightarrow> string \<Rightarrow> seeded_creator list \<Rightarrow> nat \<Rightarrow> ('g seed_state, seed_tip list) op" where
  "seedTips F S clock issuer creators tipCount =
     andThen (collect (seed_a_tip F clock issuer creators (math_round (of_nat tipCount * (7 / 10)))) 0 tipCount) (\<lambda>tips.
     andThen (lift_result (from_db (st_tips S tips))) (\<lambda>saved s.
       (Inr saved, s\<lparr>seed_tips := seed_tips s @ saved\<rparr>)))"

definition seed_notification_of ::
  "'g faker \<Rightarrow> seeded_creator list \<Rightarrow> seed_tip list \<Rightarrow> nat \<Rightarrow> ('g seed_state, seed_notification) op" where
  "seed_notification_of F creators tips index =
     andThen (arrayElement F tips) (\<lambda>tip.
     case find (\<lambda>u. u_id u = sd_creatorId tip) creators of
       None \<Rightarrow> throw (JsError (''Unable to find creator for tip '' @ str_or (sd_id tip) ''undefined''))
     | Some creator \<Rightarrow>
         andThen (draw (fk_firstName F)) (\<lambda>firstName.
         andThen (draw (fk_boolean F (55 / 100))) (\<lambda>isRead.
           return_op \<lparr>sn_id = None, sn_userId = u_id creator, sn_type = TIP_RECEIVED, sn_title = ''New tip received'',
             sn_message = firstName @ '' sent you '' @ toFixed2 (sd_amount tip) @ '' '' @ asset_value (sd_asset tip) @ ''.'',
             sn_isRead = isRead,
             sn_metadata = (sd_id tip, sd_asset tip, sd_amount tip, sd_transactionHash tip),
             sn_createdAt = sd_createdAt tip\<rparr>)))"

definition seedNotifications ::
  "'g faker \<Rightarrow> seed_store \<Rightarrow> seeded_creator list \<Rightarrow> seed_tip list \<Rightarrow> nat \<Rightarrow> ('g seed_state, seed_notification list) op" where
  "seedNotifications F S creators tips notificationCount =
     andThen (collect (seed_notification_of F creators tips) 0 notificationCount) (\<lambda>notifications.
     andThen (lift_result (from_db (st_notifications S notifications))) (\<lambda>saved s.
       (Inr saved, s\<lparr>seed_notifications := seed_notifications s @ saved\<rparr>)))"

record seed_env =
  se_nodeEnv :: "string option"
  se_scale :: "string option"
  se_usdcIssuer :: "string option"
  se_clock :: "nat \<Rightarrow> int"

text \<open>The result is the line that is printed at the end.\<close>

definition seed :: "'g faker \<Rightarrow> seed_store \<Rightarrow> seed_env \<Rightarrow> ('g seed_state, string) op" where
  "seed F S env =
     (if se_nodeEnv env = Some ''production''
      then return_op ''Refusing to seed database when NODE_ENV=production.''
      else andThen (lift_result (readScale (se_scale env))) (\<lambda>scale.
        let counts = getCounts scale
        in andThen (\<lambda>s. (Inr (), s\<lparr>generator := fk_seed F 74 (generator s)\<rparr>)) (\<lambda>_.
           andThen (case st_initialize S of Some e \<Rightarrow> throw (JsError e) | None \<Rightarrow> return_op ()) (\<lambda>_.
           andThen (resetTables S) (\<lambda>_.
           andThen (seedCreators F S counts) (\<lambda>creators.
           andThen (seedTips F S (se_clock env) (USDC_ISSUER (se_usdcIssuer env)) creators (sc_tips counts)) (\<lambda>tips.
           andThen (seedNotifications F S creators tips (sc_notifications counts)) (\<lambda>notifications.
             return_op (''Seed complete: '' @ show_nat (length creators) @ '' creators ('' @ show_nat (sc_emailCreators counts)
               @ '' email, '' @ show_nat (sc_stellarCreators counts) @ '' Stellar), '' @ show_nat (length tips) @ '' tips, ''
               @ show_nat (length notifications) @ '' notifications.'')))))))))"

end
