(* ===== verification/Seed_Properties.thy ===== *)
theory Seed_Properties
  imports Seed
begin

text \<open>
  What the seed script leaves in the database: the contracts of the generator and of the data source,
  one rule per step for draws that cannot fail, the specification of each generated row, and the
  tables as a whole.
\<close>

section \<open>Contracts\<close>

locale faker_contract =
  fixes F :: "'g faker"
  assumes alphanumeric: "length (fst (fk_alphanumeric F n g)) = n"
    and position: "0 < n \<Longrightarrow> fst (fk_position F n g) < n"
    and weighted: "ws \<noteq> [] \<Longrightarrow> fst (fk_weighted F ws g) < length ws"
    and ints: "lo \<le> hi \<Longrightarrow> lo \<le> fst (fk_int F lo hi g) \<and> fst (fk_int F lo hi g) \<le> hi"
    and floats: "a \<le> b \<Longrightarrow> of_int \<lfloor>a * 10 ^ n\<rfloor> = a * 10 ^ n \<Longrightarrow> a \<le> fst (fk_float F a b n g) \<and> fst (fk_float F a b n g) \<le> b"
    and decimals: "of_int \<lfloor>fst (fk_float F a b n g) * 10 ^ n\<rfloor> = fst (fk_float F a b n g) * 10 ^ n"
    and emails: "fst (fk_email F name g) \<noteq> ''''"

locale store_contract =
  fixes S :: seed_store
  assumes users: "st_users S us = Inr us' \<Longrightarrow> \<exists>ids now. length ids = length us \<and> distinct ids \<and> '''' \<notin> set ids
      \<and> us' = map2 (\<lambda>i u. u\<lparr>u_id := Some i, u_createdAt := Some now\<rparr>) ids us"
    and tips: "st_tips S ts = Inr ts' \<Longrightarrow> \<exists>ids. length ids = length ts \<and> distinct ids
      \<and> ts' = map2 (\<lambda>i t. t\<lparr>sd_id := Some i\<rparr>) ids ts"
    and notifications: "st_notifications S ns = Inr ns' \<Longrightarrow> \<exists>ids. length ids = length ns \<and> distinct ids
      \<and> ns' = map2 (\<lambda>i n. n\<lparr>sn_id := Some i\<rparr>) ids ns"

section \<open>Draws\<close>

text \<open>A handler that only draws returns a value with the property, and moves the generator alone.\<close>

definition draws :: "('g seed_state, 'a) op \<Rightarrow> ('a \<Rightarrow> bool) \<Rightarrow> bool" where
  "draws m P \<longleftrightarrow> (\<forall>s. \<exists>x g. m s = (Inr x, s\<lparr>generator := g\<rparr>) \<and> P x)"

named_theorems draws_intros "steps of a handler that only draws"

lemma draws_return [draws_intros]: "P x \<Longrightarrow> draws (return_op x) P"
  unfolding draws_def return_op_def by (metis seed_state.surjective seed_state.update_convs(1))

lemma draws_draw: "(\<And>g. P (fst (f g))) \<Longrightarrow> draws (draw f) P"
  by (auto simp: draws_def draw_def split: prod.splits) (metis fst_conv)

lemma draws_andThen [draws_intros]:
  assumes "draws m (\<lambda>x. draws (f x) Q)"
  shows "draws (andThen m f) Q"
  unfolding draws_def
proof
  fix s
  obtain x g where m: "m s = (Inr x, s\<lparr>generator := g\<rparr>)" and f: "draws (f x) Q"
    using assms unfolding draws_def by blast
  obtain y g' where "f x (s\<lparr>generator := g\<rparr>) = (Inr y, s\<lparr>generator := g\<rparr>\<lparr>generator := g'\<rparr>)" and "Q y"
    using f unfolding draws_def by blast
  then show "\<exists>y g. andThen m f s = (Inr y, s\<lparr>generator := g\<rparr>) \<and> Q y"
    using m by (auto simp: andThen_Inr)
qed

lemma draws_mono: "draws m P \<Longrightarrow> (\<And>x. P x \<Longrightarrow> Q x) \<Longrightarrow> draws m Q"
  unfolding draws_def by blast

lemma draws_collect:
  assumes "\<And>i. draws (body i) (P i)"
  shows "draws (collect body i k) (\<lambda>xs. length xs = k \<and> (\<forall>j<k. P (i + j) (xs ! j)))"
proof (induction k arbitrary: i)
  case 0
  show ?case by (simp add: draws_return)
next
  case (Suc k)
  show ?case
    by (simp del: All_less_Suc2, intro draws_intros, rule draws_mono [OF assms], intro draws_intros,
        rule draws_mono [OF Suc.IH], rule draws_return)
      (auto simp: All_less_Suc2)
qed

lemma draws_run:
  assumes "draws m P"
  obtains x g where "m s = (Inr x, s\<lparr>generator := g\<rparr>)" and "P x"
  using assms unfolding draws_def by blast

text \<open>A row that the loop makes, in the terms of the script.\<close>

definition creator_made :: "seed_counts \<Rightarrow> nat \<Rightarrow> seeded_creator \<Rightarrow> bool" where
  "creator_made counts i c \<longleftrightarrow> (\<exists>n. u_username c = Some (n @ ''_'' @ show_nat i))
     \<and> (\<exists>a. tipWalletAddress c = CHR ''G'' # a \<and> length a = 55)
     \<and> validateAuthMethod (user.truncate c) = Inr ()
     \<and> u_authMethod c = Some (if i < sc_emailCreators counts then EMAIL else STELLAR)
     \<and> u_walletAddress c = (if i < sc_emailCreators counts then None else Some (tipWalletAddress c))"

definition tip_made :: "string \<Rightarrow> seeded_creator list \<Rightarrow> nat \<Rightarrow> nat \<Rightarrow> seed_tip \<Rightarrow> bool" where
  "tip_made issuer creators xlmTipCount i t \<longleftrightarrow>
     (\<exists>c\<in>set creators. sd_creatorId t = u_id c \<and> sd_receiverWallet t = tipWalletAddress c)
     \<and> (sd_supporterId t = None \<or>
        (\<exists>u\<in>set creators. sd_supporterId t = u_id u \<and> u_id u \<noteq> sd_creatorId t \<and> sd_senderWallet t = tipWalletAddress u))
     \<and> 1 / 2 \<le> sd_amount t \<and> sd_amount t \<le> 250 \<and> fits_decimal (sd_amount t)
     \<and> sd_asset t = (if i < xlmTipCount then XLM else USDC)
     \<and> sd_assetIssuer t = (if i < xlmTipCount then None else Some issuer)
     \<and> (\<exists>hex. sd_transactionHash t = ''seed_tx_'' @ padStart 4 CHR ''0'' (show_nat i) @ ''_'' @ hex)"

definition notification_made :: "seed_tip list \<Rightarrow> seed_notification \<Rightarrow> bool" where
  "notification_made tips n \<longleftrightarrow> (\<exists>t\<in>set tips. sn_userId n = sd_creatorId t \<and> sn_createdAt n = sd_createdAt t
     \<and> sn_metadata n = (sd_id t, sd_asset t, sd_amount t, sd_transactionHash t))"

context faker_contract
begin

lemma draws_wallet [draws_intros]:
  assumes "\<And>a. length a = 55 \<Longrightarrow> P (CHR ''G'' # a)"
  shows "draws (createWalletAddress F index) P"
  unfolding createWalletAddress_def
  by (intro draws_intros draws_draw) (simp add: alphanumeric assms)

lemma draws_element:
  assumes "xs \<noteq> []" and "\<And>x. x \<in> set xs \<Longrightarrow> P x"
  shows "draws (arrayElement F xs) P"
  using assms position unfolding arrayElement_def by (simp add: draws_andThen draws_draw draws_return)

lemma draws_username: "(\<And>n. P (n @ ''_'' @ show_nat i)) \<Longrightarrow> draws (createUsername F i) P"
  unfolding createUsername_def by (intro draws_intros draws_draw) simp

lemma draws_date: "(\<And>t. P t) \<Longrightarrow> draws (createPastDate F now d) P"
  unfolding createPastDate_def by (intro draws_intros draws_draw)

lemma draws_creator: "draws (seed_creator F counts i) (creator_made counts i)"
  unfolding seed_creator_def Let_def
  by (intro draws_intros draws_draw draws_username impI)
    (auto simp: creator_made_def validateAuthMethod_def user.defs truthy_def emails intro!: draws_intros draws_draw)

text \<open>The parts of a tip are shown one by one, for any later use \<open>P\<close> of what they draw.\<close>

lemma draws_supporter:
  assumes "P None" and "\<And>u. u \<in> set others \<Longrightarrow> P (Some u)"
  shows "draws (if others = [] then return_op None
     else andThen (draw (fk_boolean F p)) (\<lambda>b. if b
       then andThen (arrayElement F others) (\<lambda>u. return_op (Some u)) else return_op None)) P"
  using assms by (auto intro!: draws_intros draws_draw draws_element)

lemma draws_sender:
  assumes "\<And>a. supporter = None \<Longrightarrow> P a"
    and "\<And>u. supporter = Some u \<Longrightarrow> tipWalletAddress u \<noteq> '''' \<and> P (tipWalletAddress u)"
  shows "draws (case supporter of
       Some u \<Rightarrow> if tipWalletAddress u \<noteq> '''' then return_op (tipWalletAddress u) else createWalletAddress F j
     | None \<Rightarrow> createWalletAddress F j) P"
  using assms by (auto intro!: draws_intros split: option.split)

lemma draws_message:
  assumes "\<And>m. P m"
  shows "draws (if b then andThen (draw f) (\<lambda>m. return_op (Some m)) else return_op None) P"
  using assms by (auto intro!: draws_intros draws_draw)

lemma amount_bounds:
  "1 / 2 \<le> fst (fk_float F (1 / 2) 250 7 g) \<and> fst (fk_float F (1 / 2) 250 7 g) \<le> 250"
  by (rule floats) simp_all

lemma amount_fits: "fits_decimal (fst (fk_float F (1 / 2) 250 7 g))"
  using amount_bounds [of g] decimals [of "1 / 2" 250 7 g] by (auto simp: fits_decimal_def)

lemma draws_tip:
  assumes "creators \<noteq> []" and "\<forall>c\<in>set creators. truthy (u_id c) \<and> tipWalletAddress c \<noteq> ''''"
  shows "draws (seed_a_tip F clock issuer creators m i) (tip_made issuer creators m i)"
  unfolding seed_a_tip_def Let_def
  by (rule draws_andThen, rule draws_element [OF assms(1)], rule draws_andThen, rule draws_supporter;
      (rule draws_andThen, rule draws_draw)?, (rule draws_andThen, rule draws_sender)?)
    (use assms(2) amount_bounds amount_fits in
      \<open>auto simp: tip_made_def intro!: draws_intros draws_draw draws_date draws_message\<close>)

lemma draws_notification:
  assumes "tips \<noteq> []" and "\<forall>t\<in>set tips. \<exists>c\<in>set creators. sd_creatorId t = u_id c"
  shows "draws (seed_notification_of F creators tips i) (notification_made tips)"
  unfolding seed_notification_of_def
proof (rule draws_andThen, rule draws_element [OF assms(1)])
  fix t
  assume t: "t \<in> set tips"
  then obtain c where "find (\<lambda>u. u_id u = sd_creatorId t) creators = Some c"
    using assms(2) by (metis (mono_tags, lifting) find_None_iff2 not_None_eq)
  moreover from this have "u_id c = sd_creatorId t" by (auto simp: find_Some_iff)
  ultimately show "draws (case find (\<lambda>u. u_id u = sd_creatorId t) creators of
       None \<Rightarrow> throw (JsError (''Unable to find creator for tip '' @ str_or (sd_id t) ''undefined''))
     | Some creator \<Rightarrow>
         andThen (draw (fk_firstName F)) (\<lambda>firstName.
         andThen (draw (fk_boolean F (55 / 100))) (\<lambda>isRead.
           return_op \<lparr>sn_id = None, sn_userId = u_id creator, sn_type = TIP_RECEIVED, sn_title = ''New tip received'',
             sn_message = firstName @ '' sent you '' @ toFixed2 (sd_amount t) @ '' '' @ asset_value (sd_asset t) @ ''.'',
             sn_isRead = isRead,
             sn_metadata = (sd_id t, sd_asset t, sd_amount t, sd_transactionHash t),
             sn_createdAt = sd_createdAt t\<rparr>))) (notification_made tips)"
    using t by (auto simp: notification_made_def intro!: draws_intros draws_draw)
qed

end

section \<open>Numbered values\<close>

lemma split_at_first:
  assumes "a @ c # r = a' @ c # r'" and "c \<notin> set a" and "c \<notin> set a'"
  shows "a = a'"
proof -
  have "takeWhile (\<lambda>x. x \<noteq> c) (b @ c # q) = b" if "c \<notin> set b" for b q
    using that by (subst takeWhile_append2) auto
  from this [of a r] this [of a' r'] assms show ?thesis by simp
qed

lemma split_at_last:
  assumes "a @ c # d = a' @ c # d'" and "c \<notin> set d" and "c \<notin> set d'"
  shows "d = d'"
proof -
  have "rev d @ c # rev a = rev d' @ c # rev a'" using arg_cong [OF assms(1), of rev] by simp
  from split_at_first [OF this] assms(2,3) show ?thesis by simp
qed

lemma no_underscore: "CHR ''_'' \<notin> set (show_nat n)"
  using show_nat_digits [of n] by (auto simp: is_digit_def char_code_def)

lemma username_index: "n @ ''_'' @ show_nat i = n' @ ''_'' @ show_nat j \<Longrightarrow> i = j"
  using split_at_last [of n "CHR ''_''" "show_nat i" n' "show_nat j"] no_underscore
  by (metis append_Cons append_Nil digits_value_show_nat)

lemma hash_index:
  assumes "''seed_tx_'' @ padStart 4 CHR ''0'' (show_nat i) @ ''_'' @ hex = ''seed_tx_'' @ padStart 4 CHR ''0'' (show_nat j) @ ''_'' @ hex'"
  shows "i = j"
proof -
  have no: "CHR ''_'' \<notin> set (padStart 4 CHR ''0'' (show_nat n))" for n
    using no_underscore [of n] by (simp add: padStart_def)
  have zeros: "digits_value (replicate k CHR ''0'' @ s) = digits_value s" for k s
    by (induction k) (simp_all add: digits_value_def digit_value_def char_code_def)
  have "padStart 4 CHR ''0'' (show_nat i) = padStart 4 CHR ''0'' (show_nat j)"
    by (rule split_at_first [where c = "CHR ''_''" and r = hex and r' = hex'])
      (use assms no [of i] no [of j] in simp_all)
  from arg_cong [OF this, of digits_value] show ?thesis by (simp add: padStart_def zeros)
qed

lemma distinct_numbered:
  assumes "\<And>i j. i < length xs \<Longrightarrow> j < length xs \<Longrightarrow> f (xs ! i) = f (xs ! j) \<Longrightarrow> i = j"
  shows "distinct (map f xs)"
  using assms by (auto simp: distinct_conv_nth)

section \<open>The saved tables\<close>

definition creators_seeded :: "seed_counts \<Rightarrow> seeded_creator list \<Rightarrow> bool" where
  "creators_seeded counts cs \<longleftrightarrow> length cs = sc_creators counts \<and> distinct (map u_id cs) \<and> distinct (map u_username cs)
     \<and> (\<forall>i<length cs. creator_made counts i (cs ! i) \<and> truthy (u_id (cs ! i)))"

definition tips_seeded :: "string \<Rightarrow> seeded_creator list \<Rightarrow> nat \<Rightarrow> seed_tip list \<Rightarrow> bool" where
  "tips_seeded issuer creators n ts \<longleftrightarrow> length ts = n \<and> distinct (map sd_id ts) \<and> distinct (map sd_transactionHash ts)
     \<and> (\<forall>i<n. tip_made issuer creators (math_round (of_nat n * (7 / 10))) i (ts ! i))"

definition notifications_seeded :: "seed_tip list \<Rightarrow> nat \<Rightarrow> seed_notification list \<Rightarrow> bool" where
  "notifications_seeded tips n ns \<longleftrightarrow> length ns = n \<and> distinct (map sn_id ns) \<and> (\<forall>x\<in>set ns. notification_made tips x)"

lemma creator_made_saved:
  "creator_made counts i c \<Longrightarrow> creator_made counts i (c\<lparr>u_id := k, u_createdAt := t\<rparr>)"
proof -
  have "validateAuthMethod (user.truncate (c\<lparr>u_id := k, u_createdAt := t\<rparr>)) = validateAuthMethod (user.truncate c)"
    by (simp add: validateAuthMethod_def user.defs cong: if_cong)
  then show "creator_made counts i c \<Longrightarrow> ?thesis" by (simp add: creator_made_def)
qed

lemma tip_made_saved: "tip_made issuer cs m i t \<Longrightarrow> tip_made issuer cs m i (t\<lparr>sd_id := k\<rparr>)"
  by (simp add: tip_made_def)

lemma run_hooks_ok: "(\<And>i. i < length cs \<Longrightarrow> validateAuthMethod (user.truncate (cs ! i)) = Inr ()) \<Longrightarrow> run_hooks cs = Inr ()"
  by (induction cs) (force simp: bind_result_def)+

lemma saved_creators:
  assumes "store_contract S" and "st_users S cs = Inr saved"
    and "length cs = sc_creators counts" and "\<forall>i<length cs. creator_made counts i (cs ! i)"
  shows "creators_seeded counts saved"
proof -
  obtain ids now where ids: "length ids = length cs" "distinct ids" "'''' \<notin> set ids"
    and saved: "saved = map2 (\<lambda>i u. u\<lparr>u_id := Some i, u_createdAt := Some now\<rparr>) ids cs"
    using store_contract.users [OF assms(1,2)] by blast
  have nth: "saved ! i = (cs ! i)\<lparr>u_id := Some (ids ! i), u_createdAt := Some now\<rparr>" if "i < length cs" for i
    using that ids(1) by (simp add: saved)
  have len: "length saved = length cs" using ids(1) by (simp add: saved)
  have made: "creator_made counts i (saved ! i)" if "i < length cs" for i
    using that assms(4) nth creator_made_saved by simp
  have "distinct (map u_username saved)"
    by (rule distinct_numbered) (metis made len creator_made_def username_index option.inject)
  moreover have "distinct (map u_id saved)"
    by (rule distinct_numbered) (use ids len in \<open>auto simp: nth nth_eq_iff_index_eq\<close>)
  moreover have "truthy (u_id (saved ! i))" if "i < length cs" for i
    using that ids nth by (auto simp: truthy_def) (metis nth_mem)
  ultimately show ?thesis using made len assms(3) by (simp add: creators_seeded_def)
qed

lemma saved_tips:
  assumes "store_contract S" and "st_tips S ts = Inr saved"
    and "length ts = n" and "\<forall>i<n. tip_made issuer cs (math_round (of_nat n * (7 / 10))) i (ts ! i)"
  shows "tips_seeded issuer cs n saved"
proof -
  obtain ids where ids: "length ids = length ts" "distinct ids"
    and saved: "saved = map2 (\<lambda>i t. t\<lparr>sd_id := Some i\<rparr>) ids ts"
    using store_contract.tips [OF assms(1,2)] by blast
  have nth: "saved ! i = (ts ! i)\<lparr>sd_id := Some (ids ! i)\<rparr>" if "i < n" for i
    using that ids(1) assms(3) by (simp add: saved)
  have len: "length saved = n" using ids(1) assms(3) by (simp add: saved)
  have made: "tip_made issuer cs (math_round (of_nat n * (7 / 10))) i (saved ! i)" if "i < n" for i
    using that assms(4) nth tip_made_saved by simp
  have "distinct (map sd_transactionHash saved)"
    by (rule distinct_numbered) (metis made len tip_made_def hash_index)
  moreover have "distinct (map sd_id saved)"
    by (rule distinct_numbered) (use ids len assms(3) in \<open>auto simp: nth nth_eq_iff_index_eq\<close>)
  ultimately show ?thesis using made len by (simp add: tips_seeded_def)
qed

lemma saved_notifications:
  assumes "store_contract S" and "st_notifications S ns = Inr saved"
    and "length ns = n" and "\<forall>i<n. notification_made ts (ns ! i)"
  shows "notifications_seeded ts n saved"
proof -
  obtain ids where ids: "length ids = length ns" "distinct ids"
    and saved: "saved = map2 (\<lambda>i t. t\<lparr>sn_id := Some i\<rparr>) ids ns"
    using store_contract.notifications [OF assms(1,2)] by blast
  have nth: "saved ! i = (ns ! i)\<lparr>sn_id := Some (ids ! i)\<rparr>" if "i < n" for i
    using that ids(1) assms(3) by (simp add: saved)
  have len: "length saved = n" using ids(1) assms(3) by (simp add: saved)
  have "distinct (map sn_id saved)"
    by (rule distinct_numbered) (use ids len assms(3) in \<open>auto simp: nth nth_eq_iff_index_eq\<close>)
  moreover have "\<forall>x\<in>set saved. notification_made ts x"
    using assms(4) len by (auto simp: in_set_conv_nth nth notification_made_def)
  ultimately show ?thesis using len by (simp add: notifications_seeded_def)
qed

section \<open>The script\<close>

lemma nonempty_counts: "0 < sc_creators (getCounts scale)" "0 < sc_tips (getCounts scale)"
  by (simp_all add: getCounts_def Let_def)

lemma seeded_owners:
  assumes "creators_seeded counts cs" and "0 < sc_creators counts"
  shows "cs \<noteq> []" and "\<forall>c\<in>set cs. truthy (u_id c) \<and> tipWalletAddress c \<noteq> ''''"
  using assms by (auto simp: creators_seeded_def creator_made_def in_set_conv_nth) (metis list.distinct(1))

lemma seeded_tip_owners:
  assumes "tips_seeded issuer cs n ts" and "0 < n"
  shows "ts \<noteq> []" and "\<forall>t\<in>set ts. \<exists>c\<in>set cs. sd_creatorId t = u_id c"
  using assms by (force simp: tips_seeded_def tip_made_def in_set_conv_nth)+

text \<open>
  \<open>accepts S\<close>: the data source opens and rejects no statement. \<open>reaches S m s Q\<close>: the run returns,
  and what it returns and the state it leaves satisfy \<open>Q\<close>; or it fails, and not every statement was
  accepted.
\<close>

definition accepts :: "seed_store \<Rightarrow> bool" where
  "accepts S \<longleftrightarrow> st_initialize S = None \<and> st_truncate S = None \<and> (\<forall>us. \<exists>r. st_users S us = Inr r)
     \<and> (\<forall>ts. \<exists>r. st_tips S ts = Inr r) \<and> (\<forall>ns. \<exists>r. st_notifications S ns = Inr r)"

definition reaches :: "seed_store \<Rightarrow> ('s, 'a) op \<Rightarrow> 's \<Rightarrow> ('a \<Rightarrow> 's \<Rightarrow> bool) \<Rightarrow> bool" where
  "reaches S m s Q \<longleftrightarrow> (\<exists>x s'. m s = (Inr x, s') \<and> Q x s') \<or> (\<exists>e s'. m s = (Inl e, s') \<and> \<not> accepts S)"

lemma reaches_Inr: "m s = (Inr x, s') \<Longrightarrow> Q x s' \<Longrightarrow> reaches S m s Q"
  by (simp add: reaches_def)

lemma reaches_andThen: "reaches S m s (\<lambda>x s1. reaches S (f x) s1 Q) \<Longrightarrow> reaches S (andThen m f) s Q"
  unfolding reaches_def by (elim disjE exE conjE) (simp_all add: andThen_Inr andThen_Inl)

lemma reaches_mono: "reaches S m s P \<Longrightarrow> (\<And>x s'. P x s' \<Longrightarrow> Q x s') \<Longrightarrow> reaches S m s Q"
  unfolding reaches_def by blast

lemma reaches_drawn: "draws m P \<Longrightarrow> (\<And>x g. P x \<Longrightarrow> Q x (s\<lparr>generator := g\<rparr>)) \<Longrightarrow> reaches S m s Q"
  unfolding reaches_def draws_def by blast

lemma reaches_save:
  assumes "accepts S \<Longrightarrow> \<exists>saved. r = Inr saved" and "\<And>saved. r = Inr saved \<Longrightarrow> Q saved (f saved s)"
  shows "reaches S (andThen (lift_result (from_db r)) (\<lambda>saved s. (Inr saved, f saved s))) s Q"
  using assms by (cases r) (auto simp: reaches_def andThen_lift)

context faker_contract
begin

lemma reaches_creators:
  assumes "store_contract S" and "\<And>cs g. creators_seeded counts cs \<Longrightarrow> Q cs (s\<lparr>generator := g, seed_users := seed_users s @ cs\<rparr>)"
  shows "reaches S (seedCreators F S counts) s Q"
  unfolding seedCreators_def
proof (rule reaches_andThen, rule reaches_drawn [OF draws_collect], rule draws_creator)
  fix cs g
  assume cs: "length cs = sc_creators counts \<and> (\<forall>j<sc_creators counts. creator_made counts (0 + j) (cs ! j))"
  then have hooks: "run_hooks cs = Inr ()" by (intro run_hooks_ok) (simp add: creator_made_def)
  show "reaches S (andThen (lift_result (run_hooks cs)) (\<lambda>_. andThen (lift_result (from_db (st_users S cs)))
      (\<lambda>saved s. (Inr saved, s\<lparr>seed_users := seed_users s @ saved\<rparr>)))) (s\<lparr>generator := g\<rparr>) Q"
    by (rule reaches_andThen, rule reaches_Inr [where x = "()"], simp add: lift_result_def hooks, rule reaches_save)
      (use cs assms saved_creators [OF assms(1), of cs _ counts] in \<open>auto simp: accepts_def\<close>)
qed

lemma reaches_tips:
  assumes "store_contract S" and "creators_seeded counts cs" and "0 < sc_creators counts"
    and "\<And>ts g. tips_seeded issuer cs n ts \<Longrightarrow> Q ts (s\<lparr>generator := g, seed_tips := seed_tips s @ ts\<rparr>)"
  shows "reaches S (seedTips F S clock issuer cs n) s Q"
  unfolding seedTips_def
  by (rule reaches_andThen, rule reaches_drawn [OF draws_collect], rule draws_tip, (rule seeded_owners [OF assms(2,3)])+,
      rule reaches_save)
    (use assms(4) saved_tips [OF assms(1), of _ _ n issuer cs] in \<open>auto simp: accepts_def\<close>)

lemma reaches_notifications:
  assumes "store_contract S" and "tips_seeded issuer cs m ts" and "0 < m"
    and "\<And>ns g. notifications_seeded ts n ns \<Longrightarrow> Q ns (s\<lparr>generator := g, seed_notifications := seed_notifications s @ ns\<rparr>)"
  shows "reaches S (seedNotifications F S cs ts n) s Q"
  unfolding seedNotifications_def
  by (rule reaches_andThen, rule reaches_drawn [OF draws_collect], rule draws_notification,
      (rule seeded_tip_owners [OF assms(2,3)])+, rule reaches_save)
    (use assms(4) saved_notifications [OF assms(1), of _ _ n ts] in \<open>auto simp: accepts_def\<close>)

end

definition tables_seeded :: "seed_env \<Rightarrow> rat \<Rightarrow> 'g seed_state \<Rightarrow> bool" where
  "tables_seeded env scale s \<longleftrightarrow> creators_seeded (getCounts scale) (seed_users s)
     \<and> tips_seeded (USDC_ISSUER (se_usdcIssuer env)) (seed_users s) (sc_tips (getCounts scale)) (seed_tips s)
     \<and> notifications_seeded (seed_tips s) (sc_notifications (getCounts scale)) (seed_notifications s)
     \<and> seed_tokens s = []"

lemma reaches_seeded:
  assumes F: "faker_contract F" and S: "store_contract S"
    and "se_nodeEnv env \<noteq> Some ''production''" and "readScale (se_scale env) = Inr scale"
  shows "reaches S (seed F S env) s (\<lambda>line s'. tables_seeded env scale s')"
proof -
  have opened: "reaches S (case st_initialize S of Some e \<Rightarrow> throw (JsError e) | None \<Rightarrow> return_op ()) s1 Q"
    if "Q () s1" for s1 Q
    using that by (auto simp: reaches_def throw_def return_op_def accepts_def split: option.split)
  have reset: "reaches S (resetTables S) s1 Q"
    if "Q () (s1\<lparr>seed_users := [], seed_tips := [], seed_notifications := [], seed_tokens := []\<rparr>)" for s1 Q
    using that by (auto simp: reaches_def resetTables_def accepts_def split: option.split)
  have scale: "lift_result (readScale (se_scale env)) s = (Inr scale, s)" by (simp add: lift_result_def assms(4))
  show ?thesis
    unfolding seed_def Let_def if_not_P [OF assms(3)]
    by (rule reaches_andThen, rule reaches_Inr, rule scale, rule reaches_andThen, rule reaches_Inr, rule refl,
        rule reaches_andThen, rule opened, rule reaches_andThen, rule reset,
        rule reaches_andThen, rule faker_contract.reaches_creators [OF F S],
        rule reaches_andThen, rule faker_contract.reaches_tips [OF F S], assumption, rule nonempty_counts,
        rule reaches_andThen, rule faker_contract.reaches_notifications [OF F S], assumption, rule nonempty_counts,
        rule reaches_Inr, rule return_op_apply) (simp add: tables_seeded_def)
qed

text \<open>A generator and a data source that keep the contracts.\<close>

definition lcg :: "nat \<Rightarrow> nat" where
  "lcg g = (1103515245 * g + 12345) mod 2147483648"

definition hex_digit :: "nat \<Rightarrow> char" where
  "hex_digit d = digit36 (d mod 16)"

definition lcg_faker :: "nat faker" where
  "lcg_faker = \<lparr>fk_seed = (\<lambda>n g. nat n),
     fk_alphanumeric = (\<lambda>n g. (map (\<lambda>i. hex_digit ((lcg ^^ i) g)) [0..<n], (lcg ^^ n) g)),
     fk_hexadecimal = (\<lambda>n g. (map (\<lambda>i. hex_digit ((lcg ^^ i) g)) [0..<n], (lcg ^^ n) g)),
     fk_int = (\<lambda>a b g. (a + int g mod (b - a + 1), lcg g)),
     fk_float = (\<lambda>a b n g. (of_int (\<lceil>a * 10 ^ n\<rceil> + int g mod max 1 (\<lfloor>b * 10 ^ n\<rfloor> - \<lceil>a * 10 ^ n\<rceil> + 1)) / 10 ^ n, lcg g)),
     fk_boolean = (\<lambda>p g. (of_nat (g mod 100) < p * 100, lcg g)),
     fk_position = (\<lambda>n g. (g mod n, lcg g)), fk_weighted = (\<lambda>ws g. (g mod length ws, lcg g)),
     fk_username = (\<lambda>g. (''user'' @ show_nat g, lcg g)), fk_fullName = (\<lambda>g. (''Ada Lovelace'', lcg g)),
     fk_firstName = (\<lambda>g. (''Ada'', lcg g)), fk_personBio = (\<lambda>g. (''writer'', lcg g)),
     fk_avatar = (\<lambda>g. (''https://avatars.example/1'', lcg g)), fk_url = (\<lambda>g. (''https://site.example'', lcg g)),
     fk_email = (\<lambda>n g. (show_nat g @ ''@mail.example'', lcg g)),
     fk_sentence = (\<lambda>a b g. (''Thank you.'', lcg g))\<rparr>"

definition numbering_store :: seed_store where
  "numbering_store = \<lparr>st_initialize = None, st_truncate = None,
     st_users = (\<lambda>us. Inr (map2 (\<lambda>i u. u\<lparr>u_id := Some i, u_createdAt := Some 0\<rparr>) (map show_nat [0..<length us]) us)),
     st_tips = (\<lambda>ts. Inr (map2 (\<lambda>i t. t\<lparr>sd_id := Some i\<rparr>) (map show_nat [0..<length ts]) ts)),
     st_notifications = (\<lambda>ns. Inr (map2 (\<lambda>i n. n\<lparr>sn_id := Some i\<rparr>) (map show_nat [0..<length ns]) ns))\<rparr>"
lemma float_between:
  fixes a b :: rat and g :: nat
  assumes "a \<le> b" and "of_int \<lfloor>a * 10 ^ n\<rfloor> = a * 10 ^ n"
  shows "a \<le> fst (fk_float lcg_faker a b n g) \<and> fst (fk_float lcg_faker a b n g) \<le> b"
proof -
  let ?k = "\<lfloor>a * 10 ^ n\<rfloor>" and ?l = "\<lfloor>b * 10 ^ n\<rfloor>"
  let ?r = "int g mod max 1 (?l - ?k + 1)"
  have ceil: "\<lceil>a * 10 ^ n\<rceil> = ?k" using assms(2) by (metis ceiling_of_int)
  have "?k \<le> ?l" using assms(1) by (intro floor_mono mult_right_mono) simp_all
  then have r: "0 \<le> ?r" "?k + ?r \<le> ?l" using pos_mod_bound [of "?l - ?k + 1" "int g"] by auto
  have "a * 10 ^ n = of_int ?k" by (rule assms(2) [symmetric])
  also have "\<dots> \<le> of_int (?k + ?r)" using r(1) unfolding of_int_le_iff by linarith
  finally have "a * 10 ^ n \<le> of_int (?k + ?r)" .
  moreover have "of_int (?k + ?r) \<le> b * 10 ^ n" using r(2) by (meson le_floor_iff)
  ultimately show ?thesis by (simp add: lcg_faker_def ceil field_simps)
qed

interpretation lcg: faker_contract lcg_faker
proof (unfold_locales, goal_cases)
  case (4 lo hi g)
  then show ?case using pos_mod_bound [of "hi - lo + 1" "int g"] by (simp add: lcg_faker_def)
next
  case (5 a b n g)
  then show ?case by (rule float_between)
qed (simp_all add: lcg_faker_def)

lemma numbers_distinct: "distinct (map show_nat [0..<n])" "'''' \<notin> set (map show_nat [0..<n])"
  by (auto simp: distinct_map inj_on_def show_nat_not_empty [symmetric] dest: arg_cong [of _ _ digits_value])

interpretation numbering: store_contract numbering_store
proof (unfold_locales, goal_cases)
  case (1 us us')
  then show ?case
    by (intro exI [of _ "map show_nat [0..<length us]"] exI [of _ 0] conjI numbers_distinct)
      (simp_all add: numbering_store_def)
next
  case (2 ts ts')
  then show ?case
    by (intro exI [of _ "map show_nat [0..<length ts]"] conjI numbers_distinct) (simp_all add: numbering_store_def)
next
  case (3 ns ns')
  then show ?case
    by (intro exI [of _ "map show_nat [0..<length ns]"] conjI numbers_distinct) (simp_all add: numbering_store_def)
qed

section \<open>Properties\<close>

text \<open>
  The number that a wallet address is given, to tell it from the others, is cut off again: what is
  drawn fills the 56 characters.
\<close>

lemma wallet_ignores_index:
  fixes F :: "'g faker"
  assumes "faker_contract F"
  shows "createWalletAddress F i = createWalletAddress F j"
proof
  fix s :: "'g seed_state"
  obtain a g where a: "fk_alphanumeric F 55 (generator s) = (a, g)" by fastforce
  with faker_contract.alphanumeric [OF assms, of 55 "generator s"] have "length a = 55" by simp
  then show "createWalletAddress F i s = createWalletAddress F j s"
    by (simp add: createWalletAddress_def andThen_def draw_def return_op_def a)
qed

lemma tables_seeded_lengths:
  assumes "tables_seeded env scale s"
  shows "length (seed_users s) = sc_creators (getCounts scale)" and "length (seed_tips s) = sc_tips (getCounts scale)"
    and "length (seed_notifications s) = sc_notifications (getCounts scale)" and "seed_tokens s = []"
  using assms unfolding tables_seeded_def creators_seeded_def tips_seeded_def notifications_seeded_def by blast+


definition sample_seed_env :: seed_env where
  "sample_seed_env = \<lparr>se_nodeEnv = None, se_scale = Some ''2'', se_usdcIssuer = None, se_clock = (\<lambda>i. 1000000000000)\<rparr>"

definition stale_seed_state :: "nat seed_state" where
  "stale_seed_state = \<lparr>generator = 1, seed_users = [], seed_tips = [], seed_notifications = [],
     seed_tokens = [\<lparr>r_id = Some ''1'', r_userId = ''u'', r_token = ''t'', r_expiresAt = None, r_isRevoked = None, r_createdAt = None\<rparr>]\<rparr>"

lemma math_round_numeral [simp]: "math_round (numeral w) = numeral w"
proof -
  have "\<lfloor>numeral w + 1 / 2 :: rat\<rfloor> = numeral w" by (rule floor_unique) (simp_all del: numeral_plus_one)
  then show ?thesis by (simp add: math_round_def)
qed

lemma number_two: "js_Number ''2'' = Fin 2"
proof -
  have "to_number 2 = Fin 2" by (rule to_number_small) simp
  then show ?thesis
    by (simp add: js_Number_def trim_def trim_start_def trim_end_def is_space_def char_code_def radix_prefix_def
        scan_decimal_def scan_sign_def scan_unsigned_def startsWith_def is_digit_def scan_exponent_def
        digits_value_def digit_value_def pow10_def Let_def toLowerCase_def to_lower_char_def)
qed


end
