(* ===== verification/Startup.thy ===== *)
theory Startup
  imports Security Sentry Request_Bodies Throttler
begin

text \<open>
  How the application is put together: the limits of the routes (\<open>src/src/config/throttle.config.ts\<close>,
  \<open>src/src/app.module.ts\<close>), the connection to the chain (\<open>StellarService.onModuleInit\<close>), the layers that
  \<open>bootstrap\<close> of \<open>src/src/main.ts\<close> installs before it listens, and its shutdown. The lemmas show that
  nothing listens that is not behind all layers, in which order they are, and how the process exits.
\<close>

type_synonym process_env = "string \<Rightarrow> string option"

section \<open>Limits of requests\<close>

text \<open>The value of \<open>@Throttle\<close> for the throttler named \<open>default\<close>, or \<open>@SkipThrottle\<close>.\<close>

datatype throttle = Throttle nat nat | SkipThrottle

definition AuthThrottle :: throttle where
  "AuthThrottle = Throttle 60000 10"

definition TipCreationThrottle :: throttle where
  "TipCreationThrottle = Throttle 60000 30"

definition SkipApiThrottle :: throttle where
  "SkipApiThrottle = SkipThrottle"

text \<open>
  The options of the module; what \<open>ConfigService\<close> reads off the environment stays a text, and
  \<open>with_redis\<close> tells whether the storage is the one of Redis.
\<close>

record throttler_module =
  tm_ttl :: jsval
  tm_limit :: jsval
  tm_redis :: "string option"

definition throttler_module_of :: "process_env \<Rightarrow> throttler_module" where
  "throttler_module_of env = \<lparr>
     tm_ttl = (case env ''THROTTLE_TTL'' of Some s \<Rightarrow> JString s | None \<Rightarrow> JNumber (Fin 60000)),
     tm_limit = (case env ''THROTTLE_LIMIT'' of Some s \<Rightarrow> JString s | None \<Rightarrow> JNumber (Fin 100)),
     tm_redis = (if truthy (env ''REDIS_URL'') then env ''REDIS_URL'' else None)\<rparr>"

section \<open>The connection to the chain\<close>

record stellar_connection =
  sl_serverUrl :: string
  sl_sorobanRpcUrl :: string
  sl_network :: string
  sl_publicPassphrase :: bool
  sl_contractId :: "string option"
  sl_allowHttp :: bool

definition stellar_onModuleInit :: "process_env \<Rightarrow> stellar_connection" where
  "stellar_onModuleInit env =
     (let soroban = str_or (env ''STELLAR_SOROBAN_URL'') ''https://soroban-testnet.stellar.org'';
          network = str_or (env ''STELLAR_NETWORK'') ''TESTNET''
      in \<lparr>sl_serverUrl = str_or (env ''STELLAR_NODE_URL'') ''https://horizon-testnet.stellar.org'',
         sl_sorobanRpcUrl = soroban, sl_network = network, sl_publicPassphrase = (network = ''PUBLIC''),
         sl_contractId = (if truthy (env ''STELLAR_CONTRACT_ID'') then env ''STELLAR_CONTRACT_ID'' else None),
         sl_allowHttp = startsWith soroban ''http://''\<rparr>)"

section \<open>Bootstrap\<close>

text \<open>What \<open>app.use\<close> and the like install, in order; of the validation pipe its four options.\<close>

datatype layer =
    SentryRequests | SentryTracing | Helmet helmet_options | PermissionsPolicy string | Cors cors_options
  | Compression | Validation bool bool bool bool | ApiDocs string | SentryErrors

record app_state =
  app_sentry :: "sentry_options option"
  app_layers :: "layer list"
  app_listening :: "string option"
  app_log :: "log_entry list"
  app_exit :: "nat option"

text \<open>How Nest fails at one of its three steps, if it does: the message and the stack of the \<open>Error\<close>.\<close>

record boot_world =
  bw_env :: process_env
  bw_create :: "(string \<times> string) option"
  bw_document :: "(string \<times> string) option"
  bw_listen :: "(string \<times> string) option"
  bw_database :: bool

definition install :: "layer list \<Rightarrow> app_state \<Rightarrow> app_state" where
  "install ls s = s\<lparr>app_layers := app_layers s @ ls\<rparr>"

definition registerSentryHandlers :: "process_env \<Rightarrow> app_state \<Rightarrow> app_state" where
  "registerSentryHandlers env s = (if \<not> sentry_enabled env then s else install [SentryRequests, SentryTracing] s)"

definition registerSentryErrorHandler :: "process_env \<Rightarrow> app_state \<Rightarrow> app_state" where
  "registerSentryErrorHandler env s = (if \<not> sentry_enabled env then s else install [SentryErrors] s)"

definition configureSecurity :: "process_env \<Rightarrow> app_state \<Rightarrow> app_state" where
  "configureSecurity env s = install [Helmet createHelmetOptions, PermissionsPolicy PERMISSIONS_POLICY_HEADER,
     Cors (createCorsOptions (env ''CORS_ORIGIN''))] s"

definition boot_say :: "string \<Rightarrow> string \<Rightarrow> app_state \<Rightarrow> app_state" where
  "boot_say message ctx s = s\<lparr>app_log := app_log s @ [log_log message (Some ctx) None]\<rparr>"

definition step_fails :: "(string \<times> string) option \<Rightarrow> (app_state \<Rightarrow> (string \<times> string) option \<times> app_state) \<Rightarrow>
    app_state \<Rightarrow> (string \<times> string) option \<times> app_state" where
  "step_fails failure rest s = (case failure of Some e \<Rightarrow> (Some e, s) | None \<Rightarrow> rest s)"

text \<open>The signs at the start of the lines are given by their bytes.\<close>

definition boot_steps :: "boot_world \<Rightarrow> app_state \<Rightarrow> (string \<times> string) option \<times> app_state" where
  "boot_steps W = (let env = bw_env W; port = str_or (env ''PORT'') ''3000'' in
     step_fails (bw_create W) (\<lambda>s.
     let s1 = install [Validation True True True True] (install [Compression] (configureSecurity env (registerSentryHandlers env s)))
     in step_fails (bw_document W) (\<lambda>s.
     let s2 = registerSentryErrorHandler env (install [ApiDocs ''api/docs''] s)
     in step_fails (bw_listen W) (\<lambda>s.
     let s3 = s\<lparr>app_listening := Some port\<rparr>;
         s4 = (if bw_database W then boot_say ([CHR 0xF0, CHR 0x9F, CHR 0x93, CHR 0xA6] @ '' Database connection established'') ''Database'' s3 else s3)
     in (None, boot_say ([CHR 0xF0, CHR 0x9F, CHR 0x93, CHR 0x98] @ '' API Docs available at http://localhost:'' @ port @ ''/api/docs'') ''Bootstrap''
          (boot_say ([CHR 0xE2, CHR 0x9A, CHR 0xA1] @ '' Application running on http://localhost:'' @ port) ''Bootstrap'' s4))) s2) s1))"

definition bootstrap :: "boot_world \<Rightarrow> app_state \<Rightarrow> app_state" where
  "bootstrap W s = (case boot_steps W s of
      (None, s') \<Rightarrow> s'
    | (Some (message, stack), s') \<Rightarrow> s'\<lparr>app_log := app_log s' @ [log_error (''Failed to start application: '' @ message)
          (Some stack) (Some ''Fatal'') None], app_exit := Some 1\<rparr>)"

text \<open>The module \<open>main.ts\<close>: \<open>initSentry()\<close>, then \<open>bootstrap()\<close>.\<close>

definition main_module :: "boot_world \<Rightarrow> app_state" where
  "main_module W = bootstrap W \<lparr>app_sentry = initSentry (bw_env W), app_layers = [], app_listening = None,
     app_log = [], app_exit = None\<rparr>"

definition layers_of :: "process_env \<Rightarrow> layer list" where
  "layers_of env = (if sentry_enabled env then [SentryRequests, SentryTracing] else [])
     @ [Helmet createHelmetOptions, PermissionsPolicy PERMISSIONS_POLICY_HEADER,
        Cors (createCorsOptions (env ''CORS_ORIGIN'')), Compression, Validation True True True True, ApiDocs ''api/docs'']
     @ (if sentry_enabled env then [SentryErrors] else [])"

text \<open>
  The application listens if no step fails, and then behind all its layers in their order; if one
  fails it never listens, and the process exits with the status of a failure after one line of log.
\<close>

theorem main_module_outcome:
  "if bw_create W = None \<and> bw_document W = None \<and> bw_listen W = None
   then app_listening (main_module W) = Some (str_or (bw_env W ''PORT'') ''3000'') \<and> app_exit (main_module W) = None
     \<and> app_layers (main_module W) = layers_of (bw_env W)
   else app_listening (main_module W) = None \<and> app_exit (main_module W) = Some 1 \<and> length (app_log (main_module W)) = 1"
  by (auto simp: main_module_def bootstrap_def boot_steps_def step_fails_def Let_def install_def layers_of_def
      registerSentryHandlers_def registerSentryErrorHandler_def configureSecurity_def boot_say_def split: option.splits)

section \<open>Shutdown\<close>

text \<open>A signal starts closing the application, once more if it comes again; the first close to end decides.\<close>

record shutdown_state =
  sh_closing :: nat
  sh_log :: "log_entry list"
  sh_exit :: "nat option"

definition shutdown :: "string \<Rightarrow> shutdown_state \<Rightarrow> shutdown_state" where
  "shutdown sig s = s\<lparr>sh_log := sh_log s @ [log_log (''Received '' @ sig @ '', shutting down gracefully...'') (Some ''Bootstrap'') None],
     sh_closing := Suc (sh_closing s)\<rparr>"

inductive shutdown_step :: "shutdown_state \<Rightarrow> shutdown_state \<Rightarrow> bool" where
  signalled: "sh_exit s = None \<Longrightarrow> sig \<in> {''SIGTERM'', ''SIGINT''} \<Longrightarrow> shutdown_step s (shutdown sig s)"
| closed: "sh_exit s = None \<Longrightarrow> 0 < sh_closing s \<Longrightarrow> shutdown_step s
     (s\<lparr>sh_closing := sh_closing s - 1, sh_log := sh_log s @ [log_log ''HTTP server closed'' (Some ''Bootstrap'') None], sh_exit := Some 0\<rparr>)"
| close_failed: "sh_exit s = None \<Longrightarrow> 0 < sh_closing s \<Longrightarrow> shutdown_step s (s\<lparr>sh_closing := sh_closing s - 1, sh_exit := Some 1\<rparr>)"

inductive_cases shutdown_stepE: "shutdown_step s s'"

definition up :: shutdown_state where
  "up = \<lparr>sh_closing = 0, sh_log = [], sh_exit = None\<rparr>"

text \<open>The process exits only after a signal, and with 0 only after the server has closed, which is its last line.\<close>

lemma exit_after_signal:
  assumes "shutdown_step\<^sup>*\<^sup>* up s"
  shows "(sh_exit s = None \<and> sh_closing s = length (sh_log s))
    \<or> (sh_exit s = Some 1 \<and> sh_log s \<noteq> [])
    \<or> (sh_exit s = Some 0 \<and> 1 < length (sh_log s) \<and> le_message (last (sh_log s)) = ''HTTP server closed'')"
  using assms
proof (induction rule: rtranclp_induct)
  case base
  show ?case by (simp add: up_def)
next
  case (step s s')
  from step.hyps(2) step.IH show ?case
    by (elim shutdown_stepE) (auto simp: shutdown_def log_log_def)
qed

section \<open>The welcome\<close>

definition apiVersion :: string where
  "apiVersion = ''0.1.0''"

definition getHello :: string where
  "getHello = ''StellarTip API v'' @ apiVersion @ '' '' @ [CHR 0xE2, CHR 0x80, CHR 0x94] @ '' Decentralized micro-tipping on Stellar''"

end
