(* ===== verification/Postman.thy ===== *)
theory Postman
  imports Js_Values "HOL-Library.Sublist"
begin

text \<open>
  The check of the Postman collections (\<open>src/scripts/validate-postman-collection.mjs\<close>): the walk over
  the directory, the shape of each file and the list of errors. The directory and \<open>JSON.parse\<close> are
  parameters. The lemmas give the files that the walk finds and the exact condition of success.
\<close>

section \<open>The walk\<close>

text \<open>A directory entry; \<open>Unreadable\<close> is one that \<open>statSync\<close> or \<open>readdirSync\<close> throws on.\<close>

datatype entry = RegularFile string | Directory "(string \<times> entry) list" | Unreadable string

text \<open>\<open>extname\<close>: from the last dot on, unless it is the first character.\<close>

definition extname :: "string \<Rightarrow> string" where
  "extname name = (if CHR ''.'' \<in> set (tl name)
     then CHR ''.'' # rev (takeWhile (\<lambda>c. c \<noteq> CHR ''.'') (rev name)) else '''')"

definition join_path :: "string \<Rightarrow> string \<Rightarrow> string" where
  "join_path dir name = dir @ ''/'' @ name"

fun walk :: "string \<Rightarrow> (string \<times> entry) list \<Rightarrow> string + (string \<times> string) list" where
  "walk dir [] = Inr []"
| "walk dir ((name, RegularFile content) # rest) = (case walk dir rest of Inl e \<Rightarrow> Inl e
     | Inr out \<Rightarrow> Inr (if extname name = ''.json'' then (join_path dir name, content) # out else out))"
| "walk dir ((name, Directory children) # rest) = (case walk (join_path dir name) children of Inl e \<Rightarrow> Inl e
     | Inr inner \<Rightarrow> (case walk dir rest of Inl e \<Rightarrow> Inl e | Inr out \<Rightarrow> Inr (inner @ out)))"
| "walk dir ((name, Unreadable message) # rest) = Inl message"

section \<open>Shapes\<close>

definition is_array :: "jsval \<Rightarrow> bool" where
  "is_array v = (case v of JArray vs \<Rightarrow> True | _ \<Rightarrow> False)"

definition isCollectionShape :: "jsval \<Rightarrow> bool" where
  "isCollectionShape v = (case v of JObject fs \<Rightarrow> is_array (get_prop v ''item'') \<and> js_truthy (get_prop v ''info'') | _ \<Rightarrow> False)"

definition isEnvironmentShape :: "jsval \<Rightarrow> bool" where
  "isEnvironmentShape v = (case v of
      JObject fs \<Rightarrow> get_prop v ''_postman_variable_scope'' = JString ''environment''
        \<and> (case get_prop v ''values'' of JArray vs \<Rightarrow> 0 < length vs | _ \<Rightarrow> False)
    | _ \<Rightarrow> False)"

definition collection_suffix :: string where
  "collection_suffix = ''.postman_collection.json''"

definition quoted :: "string \<Rightarrow> string" where
  "quoted s = [CHR 0x27] @ s @ [CHR 0x27]"

definition dash :: string where
  "dash = [CHR 0xE2, CHR 0x80, CHR 0x94]"

definition file_errors :: "(string \<Rightarrow> string + jsval) \<Rightarrow> string \<times> string \<Rightarrow> string list" where
  "file_errors parse_json f = (case f of (file, content) \<Rightarrow> (case parse_json content of
      Inl message \<Rightarrow> [file @ '': invalid JSON '' @ dash @ '' '' @ message]
    | Inr parsed \<Rightarrow>
        (let lower = toLowerCase file
         in if suffix collection_suffix lower
            then (if \<not> isCollectionShape parsed
                  then [file @ '': collection is missing top-level '' @ quoted ''info'' @ '' or '' @ quoted ''item'' @ '' array'']
                  else if \<not> js_truthy (get_prop parsed ''auth'')
                  then [file @ '': collection is missing the collection-level '' @ quoted ''auth'' @ '' helper (issue #61 acceptance criterion)'']
                  else [])
            else if sublist ''environments/'' lower
            then (if \<not> isEnvironmentShape parsed
                  then [file @ '': environment is missing _postman_variable_scope='' @ quoted ''environment'' @ '' or an empty ''
                    @ quoted ''values'' @ '' array'']
                  else [])
            else [])))"

text \<open>The script: the exit code and the lines it prints; \<open>Inl\<close> of the entries is a directory that cannot be listed.\<close>

definition postman_errors :: "(string \<Rightarrow> string + jsval) \<Rightarrow> string \<Rightarrow> string + (string \<times> entry) list \<Rightarrow> string list" where
  "postman_errors parse_json dir entries =
     (case (case entries of Inl e \<Rightarrow> Inl e | Inr es \<Rightarrow> walk dir es) of
        Inl message \<Rightarrow> [''Cannot read '' @ dir @ '': '' @ message]
      | Inr files \<Rightarrow> concat (map (file_errors parse_json) files))"

definition validate_postman :: "(string \<Rightarrow> string + jsval) \<Rightarrow> (nat \<Rightarrow> string) \<Rightarrow> string \<Rightarrow> string + (string \<times> entry) list \<Rightarrow> nat \<times> string list" where
  "validate_postman parse_json show_count dir entries =
     (let errors = postman_errors parse_json dir entries; tag = ''[validate-postman] ''
      in if 0 < length errors
         then (1, map (\<lambda>e. tag @ e) errors @ [tag @ show_count (length errors) @ '' error(s) found''])
         else (0, [tag @ ''OK '' @ dash @ '' all Postman artifacts parse and have the expected shape'']))"

section \<open>What success means\<close>

fun readable :: "entry \<Rightarrow> bool" where
  "readable (RegularFile c) = True"
| "readable (Directory es) = list_all readable (map snd es)"
| "readable (Unreadable m) = False"

text \<open>The files below a directory, by the names that lead to them.\<close>

inductive holds :: "(string \<times> entry) list \<Rightarrow> string list \<Rightarrow> string \<Rightarrow> bool" where
  here: "(name, RegularFile content) \<in> set es \<Longrightarrow> holds es [name] content"
| below: "(name, Directory children) \<in> set es \<Longrightarrow> holds children path content \<Longrightarrow> holds es (name # path) content"

definition path_of :: "string \<Rightarrow> string list \<Rightarrow> string" where
  "path_of dir path = foldl join_path dir path"

definition acceptable :: "(string \<Rightarrow> string + jsval) \<Rightarrow> string \<Rightarrow> string \<Rightarrow> bool" where
  "acceptable parse_json file content \<longleftrightarrow> (\<exists>v. parse_json content = Inr v
     \<and> (if suffix collection_suffix (toLowerCase file)
        then isCollectionShape v \<and> js_truthy (get_prop v ''auth'')
        else sublist ''environments/'' (toLowerCase file) \<longrightarrow> isEnvironmentShape v))"

lemma file_errors_empty: "file_errors P (file, content) = [] \<longleftrightarrow> acceptable P file content"
  by (auto simp: file_errors_def acceptable_def Let_def split: sum.splits)

lemma holds_Nil [simp]: "\<not> holds [] path content"
  by (auto elim: holds.cases)

lemma holds_Cons:
  "holds ((name, x) # es) path content \<longleftrightarrow> holds es path content
     \<or> (case x of RegularFile c \<Rightarrow> path = [name] \<and> content = c
         | Directory cs \<Rightarrow> (\<exists>p. path = name # p \<and> holds cs p content) | Unreadable m \<Rightarrow> False)"
  unfolding holds.simps [of "(name, x) # es" path content] holds.simps [of es path content]
  by (auto split: entry.splits)

lemma walk_succeeds: "(\<exists>out. walk dir es = Inr out) \<longleftrightarrow> list_all readable (map snd es)"
  by (induction dir es rule: walk.induct) (auto split: sum.splits)

lemma holds_path: "holds es path content \<Longrightarrow> path \<noteq> []"
  by (auto elim: holds.cases)

text \<open>The walk finds exactly the files below the directory whose name ends in \<open>.json\<close>.\<close>

definition found :: "string \<Rightarrow> (string \<times> entry) list \<Rightarrow> (string \<times> string) set" where
  "found dir es = {(path_of dir path, content) |path content. holds es path content \<and> extname (last path) = ''.json''}"

lemma found_file:
  "found dir ((name, RegularFile content) # es) =
     (if extname name = ''.json'' then {(join_path dir name, content)} else {}) \<union> found dir es"
  by (auto simp: found_def holds_Cons path_of_def intro: exI [of _ "[name]"])

lemma found_directory:
  "found dir ((name, Directory children) # es) = found (join_path dir name) children \<union> found dir es" (is "?l = ?r")
proof
  have inner: "path_of dir (name # p) = path_of (join_path dir name) p" "last (name # p) = last p"
    if "holds children p content" for p content
    using holds_path [OF that] by (simp_all add: path_of_def)
  show "?l \<subseteq> ?r" unfolding found_def using inner by (auto simp: holds_Cons simp del: last.simps)
  show "?r \<subseteq> ?l"
  proof
    fix f
    assume "f \<in> ?r"
    then consider (inner) p c where "f = (path_of (join_path dir name) p, c)" "holds children p c" "extname (last p) = ''.json''"
      | (rest) "f \<in> found dir es" by (auto simp: found_def)
    then show "f \<in> ?l"
    proof cases
      case inner
      then have "f = (path_of dir (name # p), c) \<and> holds ((name, Directory children) # es) (name # p) c
        \<and> extname (last (name # p)) = ''.json''"
        using \<open>\<And>p content. holds children p content \<Longrightarrow> last (name # p) = last p\<close>
          \<open>\<And>p content. holds children p content \<Longrightarrow> path_of dir (name # p) = path_of (join_path dir name) p\<close>
        by (simp add: holds_Cons del: last.simps)
      then show ?thesis unfolding found_def by blast
    next
      case rest
      then show ?thesis by (auto simp: found_def holds_Cons)
    qed
  qed
qed

lemma walk_finds: "walk dir es = Inr out \<Longrightarrow> set out = found dir es"
proof (induction dir es arbitrary: out rule: walk.induct)
  case (1 dir)
  then show ?case by (simp add: found_def)
next
  case (2 dir name content rest)
  then show ?case by (auto simp: found_file split: sum.splits if_splits)
next
  case (3 dir name children rest)
  then show ?case by (auto simp: found_directory split: sum.splits)
qed simp

theorem validate_postman_succeeds:
  "fst (validate_postman P show_count dir entries) = 0 \<longleftrightarrow>
     (\<exists>es. entries = Inr es \<and> list_all readable (map snd es)
        \<and> (\<forall>path content. holds es path content \<and> extname (last path) = ''.json'' \<longrightarrow> acceptable P (path_of dir path) content))"
proof (cases entries)
  case (Inl e)
  then show ?thesis by (simp add: validate_postman_def postman_errors_def)
next
  case es: (Inr es)
  show ?thesis
  proof (cases "walk dir es")
    case (Inl e)
    then have "\<not> list_all readable (map snd es)" using walk_succeeds [of dir es] by auto
    with Inl es show ?thesis by (simp add: validate_postman_def postman_errors_def)
  next
    case (Inr out)
    then have ok: "list_all readable (map snd es)" using walk_succeeds [of dir es] by auto
    have "fst (validate_postman P show_count dir entries) = 0 \<longleftrightarrow> (\<forall>f\<in>set out. file_errors P f = [])"
      using Inr es by (simp add: validate_postman_def postman_errors_def Let_def)
    also have "\<dots> \<longleftrightarrow> (\<forall>path content. holds es path content \<and> extname (last path) = ''.json'' \<longrightarrow> acceptable P (path_of dir path) content)"
      unfolding walk_finds [OF Inr] found_def using file_errors_empty by fastforce
    finally show ?thesis using es ok by simp
  qed
qed

end
