(* ===== verification/Spec2Isabelle.thy ===== *)
theory Spec2Isabelle
  imports Auth_Properties Tip_Properties Webhook_Properties Profile_Properties Throttler_Properties Api_Properties
    Schema_Properties Shared_Properties Request_Properties Sentry Security
    Verification_Cache Seed_Properties Startup Postman
begin

text \<open>
  A verification development for the StellarTip API: a NestJS service (\<open>src/src\<close>) that records tips
  between Stellar wallets in PostgreSQL, checks them against the chain, takes events of a Soroban
  contract over a webhook, and serves profiles, statistics and notifications; with its migrations,
  its seed script and its check of Postman collections (\<open>src/scripts\<close>).

  The program and how its parts interact. A request passes the layers that \<open>bootstrap\<close> installs
  (\<open>main.ts\<close>), the rate limiter, the guard of its route and the validation of its body; its controller
  calls one service, and services work on the tables through injected TypeORM repositories. The tips
  service asks the Stellar service for payments and contract tips and the notifications service to
  tell a creator; the webhook writes tips, users and notifications itself. The exception filter, the
  response interceptor and the loggers surround every handler.

  How it is modelled. A handler is a function \<open>'s \<Rightarrow> (api_error + 'a) \<times> 's\<close>: an exception is a value, and
  the state reached before it is kept, as no service runs in a transaction (\<open>Api_Prelude\<close>). JavaScript
  numbers, strings and unknown values are in \<open>Js_Values\<close>; a finite number is the rational it stands
  for, so that rounding to binary64 is left out and overflow is kept. The times at which a handler
  reads the clock, and what it draws at random, are arguments. What is not under \<open>src\<close> is an argument,
  too, with what is relied on as the assumptions of a locale: TypeORM and PostgreSQL (\<open>repository\<close>,
  \<open>available_repository\<close>, \<open>tip_statistics\<close>), Redis (\<open>redis_server\<close>, \<open>cache_contract\<close>), \<open>faker\<close> and the
  database of the seed script (\<open>faker_contract\<close>, \<open>store_contract\<close>). Horizon, the contract client, bcrypt,
  the signer of tokens, the HMAC, \<open>sanitize-html\<close> and \<open>Date.parse\<close> are arguments without assumptions,
  except where a theorem names one. Each locale is interpreted on concrete tables or servers.

  Theories, in the order of their imports:
  \<^item> \<open>Entities\<close> (\<open>src/src/entities\<close>), \<open>Repository\<close>, \<open>Tables\<close>, \<open>Database\<close>: the records, defaults, unique columns
    and hooks of the entities; the repository contract; the tables that satisfy it; one list of rows
    per table as the state of the services.
  \<^item> \<open>Auth\<close>, \<open>Sessions\<close>, \<open>Auth_Properties\<close> (\<open>src/src/auth\<close>): wallet and e-mail sign-up and log-in, refresh
    tokens with rotation, guards and strategies. The lemmas classify what a step does to the token
    table (\<open>auth_step\<close>); from that follow single use, rotation, the order of the refusals, and what
    two interleaved requests can do.
  \<^item> \<open>Notifications\<close> (\<open>src/src/notifications\<close>), \<open>Pagination\<close>: creating, listing and marking; pages of a
    list are consecutive slices that together are the list (\<open>page_source\<close>).
  \<^item> \<open>Chain\<close> (\<open>src/src/stellar/stellar.service.ts\<close>, \<open>src/src/health\<close>): how replies of Horizon and of the
    contract are normalised, the routes over them and the health reports.
  \<^item> \<open>Tips\<close>, \<open>Tip_Properties\<close>, \<open>Verification_Cache\<close> (\<open>src/src/tips\<close>): filters, creation, lists, confirmation,
    and the verification of a tip with its cache, in memory or in Redis; both caches satisfy one
    contract (\<open>result_cache\<close>).
  \<^item> \<open>Webhook\<close>, \<open>Webhook_Properties\<close> (\<open>handleContractWebhook\<close>): signature, age and duplicate checks and
    what an event writes; the abstract specification is the set of recorded transaction hashes, which
    an accepted tip event extends by one, whatever is delivered how often.
  \<^item> \<open>Statistics\<close>, \<open>Profiles\<close>, \<open>Profile_Properties\<close> (\<open>src/src/profiles\<close>): aggregate queries, profiles,
    avatars, the tipping page and the analytics with their response cache.
  \<^item> \<open>Redis_Wire\<close>, \<open>Redis_Connection\<close>, \<open>Throttler\<close>, \<open>Throttler_Properties\<close>
    (\<open>redis-throttler.storage.ts\<close>, \<open>generateKey\<close>): the wire format and its parser, the connection with its
    one buffer, the script of the limiter and its window.
  \<^item> \<open>Schema\<close>, \<open>Schema_Properties\<close> (\<open>src/src/migrations\<close>, \<open>typeorm.config.ts\<close>): both migrations statement by
    statement against the columns that the entities declare.
  \<^item> \<open>Shared\<close>, \<open>Shared_Properties\<close> (\<open>src/src/shared\<close>), \<open>Request_Bodies\<close>, \<open>Request_Properties\<close>, \<open>Regex\<close>,
    \<open>Sentry\<close>, \<open>Security\<close>, \<open>Startup\<close>: logging with redaction, the exception filter and the envelope of
    the answers; the DTO classes, the sanitizer and the validation; the expressions that recognise
    personal data and what the error tracker is sent; headers and CORS; what \<open>main.ts\<close> installs before
    it listens, and how it stops.
  \<^item> \<open>Seed\<close>, \<open>Seed_Properties\<close>, \<open>Postman\<close> (\<open>src/scripts\<close>): the seed script over a random generator, and the
    check of the collections over a directory tree.
  \<^item> \<open>Api\<close>, \<open>Api_Properties\<close> and this theory: the routes together, as one step on the server's state
    (\<open>handle\<close>) and as sequences (\<open>serve\<close>), with the invariants of all tables (\<open>api_sound\<close>), the history that
    requests never undo (\<open>history_kept\<close>) and the isolation of accounts.

  Termination and bounds. The one fuel of the development is that of the parser of Redis replies
  (\<open>parse_at\<close>): each nested value is read behind the start of the one around it, so that one more than
  the bytes left is enough; \<open>parse_ends\<close> shows that any fuel above that gives the same result, and
  \<open>parse\<close> starts with it. The redaction of log entries recurs to the sixth
  level, as the code does. Loops are recursions on lists or numbers. Integers are unbounded where the
  code has numbers that stay integral; the database's \<open>decimal(20, 7)\<close> is the predicate
  \<open>fits_decimal\<close>. A property with a hypothesis on a parameter has a witness on concrete tables.

  What the theorems found, beside what holds: production never gets the columns of withdrawals, so
  that its queries of tips fail (\<open>production_refuses_tips\<close>); one error reply disables the rate limiter,
  and concurrent commands share replies (\<open>error_reply_disables_limiter\<close>, \<open>waiting_commands_share_reply\<close>);
  two concurrent refreshes of one token both succeed (\<open>refresh_race_hands_out_two\<close>); an absent
  withdrawal status is not read as completed and a superseded withdrawal can be replayed
  (\<open>withdrawal_status_exact\<close>, \<open>withdrawal_replay_accepted\<close>); the analytics of one user are served to others
  for five minutes (\<open>analytics_cache_shared\<close>); a user without a wallet shows everybody's messages
  (\<open>walletless_page_shows_all_messages\<close>); an upload can remove somebody else's avatar
  (\<open>avatar_of_another_user_removed\<close>); secrets in arrays are logged (\<open>redaction_exact\<close>); display names of a
  sign-up are unchecked (\<open>signup_display_name_unchecked\<close>); wallet log-in asks for no signature and can be
  blocked by a user name (\<open>wallet_login_of_deactivated\<close>, \<open>wallet_login_blocked_by_username\<close>); a failing
  Redis fails verifications (\<open>failing_server_fails_verification\<close>); the index of a seeded wallet address is
  cut off (\<open>wallet_ignores_index\<close>).

  Not modelled: the declarations of the modules, the data source of the command line and the
  decorators that describe the API, which have no operations; the internals of Nest, TypeORM, the
  Stellar SDK, winston and the Sentry SDK, which are not under \<open>src\<close>; the console and the colours of the
  development log; the tests and load scripts of \<open>src/test\<close>. Requests are served one at a time in \<open>serve\<close>;
  interleavings are modelled where two queries of one handler leave a gap that matters (the refresh,
  the duplicate check of the webhook, the commands of the limiter), and not between all handlers.
\<close>

section \<open>Sequences of requests\<close>

definition sample_server :: server where
  "sample_server = \<lparr>sv_users = users_table, sv_tips = tips_table, sv_notifications = notifications_table,
     sv_tokens = tokens_table, sv_queries = stats_table, sv_search = (\<lambda>sel cols n rows. Inr (take n (filter sel rows))),
     sv_sign = sample_sign, sv_hash = (\<lambda>p n. p), sv_compare = (=), sv_config = sample_cfg,
     sv_show_num = (\<lambda>n. ''1''), sv_date_parse = (\<lambda>d. None), sv_date_string = (\<lambda>t. ''''),
     sv_usdc_issuer = None, sv_chain = sample_env, sv_webhook = sample_webhook\<rparr>"

definition sample_moment :: moment where
  "sample_moment = \<lparr>at_now = 1000, at_later = 1010, at_random = 0, at_random_hex = ''ff'', at_uuid = ''id'',
     at_disk_error = None\<rparr>"

definition sample_state :: files_state where
  "sample_state = database.extend creator_db
     \<lparr>localVerificationCache = (\<lambda>k. None), avatar_files = (\<lambda>k. None)\<rparr>"

definition sample_requests :: "(moment \<times> api_request) list" where
  "sample_requests = [(sample_moment, CreateTip sample_dto), (sample_moment, ConfirmTip ''1'' None),
     (sample_moment, WalletLogin (JString wallet_a)), (sample_moment, ContractEvent sample_tip_event None None)]"

lemma sample_server_contracts: "server_contracts sample_server"
  using table_contracts by (simp add: server_contracts_def sample_server_def)

lemma sample_admissible: "list_all (admissible sample_server) sample_requests"
  using sample_lifetime [of 1000] sample_storable
  by (simp add: sample_requests_def admissible_def sample_server_def sample_moment_def sample_dto_def fits_decimal_def)

lemma sample_state_sound: "api_sound sample_state"
  by (simp add: api_sound_def sample_state_def database.defs tips_sound_def tip_eval empty_database_def fits_decimal_def)





text \<open>
  C3. A request with a token acts for its account alone: it leaves the rows of all other users, their
  notifications, every tip and every session as they are; and if no active user has the key that the
  token names, it changes nothing at all.
\<close>

theorem guarded_request_own_rows:
  assumes "server_contracts S" and "api_sound s"
    and "guard_of request = Some token_claims" and "c_sub token_claims = Some i"
    and "handle S m request s = (r, s')"
  shows "rows_of_others i s' = rows_of_others i s
    \<and> ((\<exists>u\<in>set (users_rows s). u_id u = Some i \<and> u_isActive u = Some True) \<or> s' = s)"
proof -
  have con: "users_contract (sv_users S)" using assms(1) by (simp add: server_contracts_def)
  have "s' = s" if "\<forall>u\<in>set (users_rows s). u_id u = Some i \<longrightarrow> u_isActive u \<noteq> Some True"
    by (rule handle_without_account [OF con assms(3,4) that assms(5)])
  with handle_others [OF assms] show ?thesis by blast
qed

theorem guarded_request_own_rows_witness:
  "let s' = snd (handle sample_server sample_moment (UpdateLinks \<lparr>c_sub = Some ''u1'', c_role = None, c_authMethod = None\<rparr>
       \<lparr>sl_twitter = Some ''https://x.com/a'', sl_github = None, sl_youtube = None, sl_website = None\<rparr>) sample_state)
   in tips_rows s' = tips_rows sample_state \<and> tokens_rows s' = tokens_rows sample_state"
proof -
  let ?c = "\<lparr>c_sub = Some ''u1'', c_role = None, c_authMethod = None\<rparr>"
  let ?q = "UpdateLinks ?c \<lparr>sl_twitter = Some ''https://x.com/a'', sl_github = None, sl_youtube = None, sl_website = None\<rparr>"
  obtain r s' where run: "handle sample_server sample_moment ?q sample_state = (r, s')" by fastforce
  have "rows_of_others ''u1'' s' = rows_of_others ''u1'' sample_state"
    using guarded_request_own_rows [OF sample_server_contracts sample_state_sound _ _ run, of ?c "''u1''"] by simp
  then show ?thesis unfolding run by (simp add: rows_of_others_def)
qed

end
